theory Spec2Isabelle
  imports Complex_Main "HOL-Library.Word" "HOL-Library.Stream"
begin

unbundle bit_operations_syntax

section \<open>The IEEE-754 view of floating-point values\<close>

text \<open>
  The backend \<^verbatim>\<open>interflop_mca.c\<close> manipulates floating-point values through the
  bit-field unions \<^verbatim>\<open>binary32\<close>, \<^verbatim>\<open>binary64\<close> and \<^verbatim>\<open>binary128\<close> of
  \<^verbatim>\<open>common/float_struct.h\<close>: a sign bit, a biased exponent field of 8, 11 or 15
  bits and a mantissa field of 23, 52 or 112 bits. A value is modelled by its three
  fields; the widths are the lengths of the two word types, so that an assignment to
  the exponent bit-field wraps exactly as the C bit-field does.
\<close>

type_synonym ('e, 'm) ieee = "bool \<times> 'e word \<times> 'm word"

type_synonym binary32 = "(8, 23) ieee"
type_synonym binary64 = "(11, 52) ieee"
type_synonym binary128 = "(15, 112) ieee"

definition sign :: "('e, 'm) ieee \<Rightarrow> bool" where
  "sign x = fst x"

definition exponent :: "('e, 'm) ieee \<Rightarrow> 'e word" where
  "exponent x = fst (snd x)"

definition mantissa :: "('e, 'm) ieee \<Rightarrow> 'm word" where
  "mantissa x = snd (snd x)"

text \<open>The exponent bias (\<^verbatim>\<open>FLOAT_EXP_COMP\<close> = 127, \<^verbatim>\<open>DOUBLE_EXP_COMP\<close> = 1023,
  \<^verbatim>\<open>QUAD_EXP_COMP\<close> = 16383 in \<^verbatim>\<open>common/float_const.h\<close>).\<close>

definition EXP_COMP :: "'e::len itself \<Rightarrow> int" where
  "EXP_COMP _ = 2 ^ (LENGTH('e) - 1) - 1"

text \<open>The exponent of the last mantissa bit of the subnormals and of the first normal
  binade: \<open>-149\<close>, \<open>-1074\<close>, \<open>-16494\<close>.\<close>

definition QMIN :: "('e::len, 'm::len) ieee itself \<Rightarrow> int" where
  "QMIN _ = 1 - EXP_COMP TYPE('e) - int LENGTH('m)"

text \<open>The real number a finite value stands for.\<close>

definition valof :: "('e::len, 'm::len) ieee \<Rightarrow> real" where
  "valof x =
     (if sign x then - 1 else 1) *
     (if exponent x = 0
      then of_nat (unat (mantissa x)) * 2 powi QMIN TYPE(('e, 'm) ieee)
      else (2 ^ LENGTH('m) + of_nat (unat (mantissa x))) *
           2 powi (uint (exponent x) - 1 + QMIN TYPE(('e, 'm) ieee)))"

subsection \<open>Classification\<close>

text \<open>\<^verbatim>\<open>FPCLASSIFY\<close> of \<^verbatim>\<open>common/float_utils.h\<close> is C's \<^verbatim>\<open>fpclassify\<close>, read off
  the fields as IEEE-754 lays them out.\<close>

datatype fpclass = FP_NAN | FP_INFINITE | FP_ZERO | FP_SUBNORMAL | FP_NORMAL

definition FPCLASSIFY :: "('e::len, 'm::len) ieee \<Rightarrow> fpclass" where
  "FPCLASSIFY x =
     (if exponent x = 0 then (if mantissa x = 0 then FP_ZERO else FP_SUBNORMAL)
      else if exponent x = - 1 then (if mantissa x = 0 then FP_INFINITE else FP_NAN)
      else FP_NORMAL)"

definition signed_zero :: "bool \<Rightarrow> ('e::len, 'm::len) ieee" where
  "signed_zero s = (s, 0, 0)"

definition infinity :: "bool \<Rightarrow> ('e::len, 'm::len) ieee" where
  "infinity s = (s, - 1, 0)"

text \<open>The quiet bit is the top bit of the mantissa field. The NaN an invalid operation
  produces is the default NaN of the x86-64 target (sign set, quiet bit only).\<close>

definition quiet_bit :: "'m::len word" where
  "quiet_bit = push_bit (LENGTH('m) - 1) 1"

definition default_nan :: "('e::len, 'm::len) ieee" where
  "default_nan = (True, - 1, quiet_bit)"

definition quieted :: "('e::len, 'm::len) ieee \<Rightarrow> ('e, 'm) ieee" where
  "quieted x = (sign x, exponent x, mantissa x OR quiet_bit)"

section \<open>The arithmetic of the C operators\<close>

text \<open>
  The driver uses the C operators \<^verbatim>\<open>+ - * /\<close>, the comparisons and the conversions
  between \<^verbatim>\<open>float\<close>, \<^verbatim>\<open>double\<close> and \<^verbatim>\<open>__float128\<close>. They are not code of the
  backend: they are IEEE-754 operations in the default rounding direction (to nearest,
  ties to even), and are modelled by their IEEE-754 definition: the exact real
  result, rounded once to the destination format.
\<close>

fun bitlen :: "nat \<Rightarrow> nat" where
  "bitlen n = (if n = 0 then 0 else Suc (bitlen (n div 2)))"

declare bitlen.simps [simp del]

text \<open>\<open>floor_log2 x\<close> is the integer \<open>e\<close> with \<open>2\<^sup>e \<le> x < 2\<^sup>e\<^sup>+\<^sup>1\<close>, for \<open>x > 0\<close>.\<close>

definition floor_log2 :: "real \<Rightarrow> int" where
  "floor_log2 x =
     (if 1 \<le> x then int (bitlen (nat \<lfloor>x\<rfloor>)) - 1
      else - int (bitlen (nat (\<lceil>1 / x\<rceil> - 1))))"

text \<open>Rounding to the nearest integer, ties to the even one.\<close>

definition round_half_even :: "real \<Rightarrow> int" where
  "round_half_even y =
     (let f = \<lfloor>y\<rfloor>; r = y - of_int f
      in if r < 1 / 2 then f
         else if 1 / 2 < r then f + 1
         else if even f then f else f + 1)"

text \<open>
  \<open>fround s x\<close> rounds the magnitude \<open>x > 0\<close> with sign \<open>s\<close> to the format of the
  result type. \<open>quantum x\<close> is the exponent \<open>q\<close> of the last place of the binade of
  \<open>x\<close> (not below the subnormal one), and \<open>n\<close> the rounded significand in units of
  \<open>2\<^sup>q\<close>. The exponent and mantissa fields are the two halves of
  \<open>(q - QMIN) * 2\<^sup>M + n\<close>, which also covers a significand rounded up to the next
  binade; a value beyond the largest finite one overflows to infinity.
\<close>

definition quantum :: "('e::len, 'm::len) ieee itself \<Rightarrow> real \<Rightarrow> int" where
  "quantum T x = max (floor_log2 x - int LENGTH('m)) (QMIN T)"

definition fround :: "bool \<Rightarrow> real \<Rightarrow> ('e::len, 'm::len) ieee" where
  "fround s x =
     (let q = quantum TYPE(('e, 'm) ieee) x;
          n = round_half_even (x / 2 powi q);
          c = (q - QMIN TYPE(('e, 'm) ieee)) * 2 ^ LENGTH('m) + n
      in if (2 ^ LENGTH('e) - 1) * 2 ^ LENGTH('m) \<le> c then infinity s
         else (s, word_of_int (c div 2 ^ LENGTH('m)), word_of_int (c mod 2 ^ LENGTH('m))))"

definition is_nan :: "('e::len, 'm::len) ieee \<Rightarrow> bool" where
  "is_nan x = (FPCLASSIFY x = FP_NAN)"

definition is_inf :: "('e::len, 'm::len) ieee \<Rightarrow> bool" where
  "is_inf x = (FPCLASSIFY x = FP_INFINITE)"

definition is_zero :: "('e::len, 'm::len) ieee \<Rightarrow> bool" where
  "is_zero x = (FPCLASSIFY x = FP_ZERO)"

definition fneg :: "('e::len, 'm::len) ieee \<Rightarrow> ('e, 'm) ieee" where
  "fneg x = (\<not> sign x, exponent x, mantissa x)"

text \<open>Addition: NaNs propagate (the first NaN operand, quieted), opposite infinities
  are invalid, an exact zero sum is \<open>+0\<close> unless both operands are negative.\<close>

definition fadd :: "('e::len, 'm::len) ieee \<Rightarrow> ('e, 'm) ieee \<Rightarrow> ('e, 'm) ieee" where
  "fadd a b =
     (if is_nan a then quieted a
      else if is_nan b then quieted b
      else if is_inf a then (if is_inf b \<and> sign a \<noteq> sign b then default_nan else a)
      else if is_inf b then b
      else let s = valof a + valof b
           in if s = 0 then signed_zero (sign a \<and> sign b)
              else fround (s < 0) \<bar>s\<bar>)"

definition fsub :: "('e::len, 'm::len) ieee \<Rightarrow> ('e, 'm) ieee \<Rightarrow> ('e, 'm) ieee" where
  "fsub a b =
     (if is_nan a then quieted a
      else if is_nan b then quieted b
      else fadd a (fneg b))"

definition fmul :: "('e::len, 'm::len) ieee \<Rightarrow> ('e, 'm) ieee \<Rightarrow> ('e, 'm) ieee" where
  "fmul a b =
     (if is_nan a then quieted a
      else if is_nan b then quieted b
      else if (is_inf a \<and> is_zero b) \<or> (is_zero a \<and> is_inf b) then default_nan
      else if is_inf a \<or> is_inf b then infinity (sign a \<noteq> sign b)
      else if is_zero a \<or> is_zero b then signed_zero (sign a \<noteq> sign b)
      else fround (sign a \<noteq> sign b) (\<bar>valof a\<bar> * \<bar>valof b\<bar>))"

definition fdiv :: "('e::len, 'm::len) ieee \<Rightarrow> ('e, 'm) ieee \<Rightarrow> ('e, 'm) ieee" where
  "fdiv a b =
     (if is_nan a then quieted a
      else if is_nan b then quieted b
      else if (is_inf a \<and> is_inf b) \<or> (is_zero a \<and> is_zero b) then default_nan
      else if is_inf a \<or> is_zero b then infinity (sign a \<noteq> sign b)
      else if is_inf b \<or> is_zero a then signed_zero (sign a \<noteq> sign b)
      else fround (sign a \<noteq> sign b) (\<bar>valof a\<bar> / \<bar>valof b\<bar>))"

text \<open>A conversion between two formats (a C cast): exact when widening, one rounding
  when narrowing. A NaN keeps its sign and the leading bits of its payload and is
  quieted.\<close>

definition fconvert :: "('e::len, 'm::len) ieee \<Rightarrow> ('f::len, 'n::len) ieee" where
  "fconvert x =
     (case FPCLASSIFY x of
        FP_NAN \<Rightarrow>
          (sign x, - 1,
           (if LENGTH('m) \<le> LENGTH('n)
            then push_bit (LENGTH('n) - LENGTH('m)) (ucast (mantissa x))
            else ucast (drop_bit (LENGTH('m) - LENGTH('n)) (mantissa x))) OR quiet_bit)
      | FP_INFINITE \<Rightarrow> infinity (sign x)
      | FP_ZERO \<Rightarrow> signed_zero (sign x)
      | _ \<Rightarrow> fround (sign x) \<bar>valof x\<bar>)"

text \<open>The comparisons \<^verbatim>\<open><=\<close> and \<^verbatim>\<open><\<close>, possibly between two formats (the narrower
  operand is promoted, which does not change its value): false on a NaN.\<close>

definition fle :: "('e::len, 'm::len) ieee \<Rightarrow> ('f::len, 'n::len) ieee \<Rightarrow> bool" where
  "fle a b =
     (\<not> is_nan a \<and> \<not> is_nan b \<and>
      (if is_inf a then sign a \<or> (is_inf b \<and> \<not> sign b)
       else if is_inf b then \<not> sign b
       else valof a \<le> valof b))"

definition flt :: "('e::len, 'm::len) ieee \<Rightarrow> ('f::len, 'n::len) ieee \<Rightarrow> bool" where
  "flt a b =
     (\<not> is_nan a \<and> \<not> is_nan b \<and>
      (if is_inf a then sign a \<and> \<not> (is_inf b \<and> sign b)
       else if is_inf b then \<not> sign b
       else valof a < valof b))"


definition half :: "('e::len, 'm::len) ieee" where
  "half = (False, word_of_int (EXP_COMP TYPE('e) - 1), 0)"

definition one :: "('e::len, 'm::len) ieee" where
  "one = (False, word_of_int (EXP_COMP TYPE('e)), 0)"

section \<open>The helpers of \<^verbatim>\<open>common/float_utils.h\<close>\<close>

text \<open>
  Modelled from the spec: \<^verbatim>\<open>GET_EXP_FLT\<close>, \<^verbatim>\<open>DAZ\<close>, \<^verbatim>\<open>FTZ\<close> and
  \<^verbatim>\<open>_IS_REPRESENTABLE\<close> are macros of \<^verbatim>\<open>common/float_utils.h\<close>, which is not
  among the sources. Sections 4.1 and 4.4 of the specification describe them.

  The leading zeros of a subnormal are counted from the position of the implicit bit,
  so that \<open>GET_EXP_FLT x\<close> is the exponent \<open>e\<close> with \<open>2\<^sup>e \<le> |x| < 2\<^sup>e\<^sup>+\<^sup>1\<close>, as
  section 4.1 requires.
\<close>

definition leading_zeros :: "('e::len, 'm::len) ieee \<Rightarrow> int" where
  "leading_zeros x = int LENGTH('m) + 1 - int (bitlen (unat (mantissa x)))"

definition GET_EXP_FLT :: "('e::len, 'm::len) ieee \<Rightarrow> int" where
  "GET_EXP_FLT x =
     (if exponent x = 0 then (1 - EXP_COMP TYPE('e)) - leading_zeros x
      else uint (exponent x) - EXP_COMP TYPE('e))"

definition DAZ :: "('e::len, 'm::len) ieee \<Rightarrow> ('e, 'm) ieee" where
  "DAZ x = (if FPCLASSIFY x = FP_SUBNORMAL then signed_zero (sign x) else x)"

definition FTZ :: "('e::len, 'm::len) ieee \<Rightarrow> ('e, 'm) ieee" where
  "FTZ x = (if FPCLASSIFY x = FP_SUBNORMAL then signed_zero (sign x) else x)"

text \<open>The low \<open>k\<close> bits of the mantissa field are zero (all of them, when \<open>k\<close> exceeds
  the width; none to check when \<open>k \<le> 0\<close>).\<close>

definition low_bits_zero :: "('e::len, 'm::len) ieee \<Rightarrow> int \<Rightarrow> bool" where
  "low_bits_zero x k = (take_bit (nat k) (mantissa x) = 0)"

definition IS_REPRESENTABLE :: "('e::len, 'm::len) ieee \<Rightarrow> int \<Rightarrow> bool" where
  "IS_REPRESENTABLE x t =
     (case FPCLASSIFY x of
        FP_NORMAL \<Rightarrow> low_bits_zero x (int LENGTH('m) - (t - 1))
      | FP_SUBNORMAL \<Rightarrow> low_bits_zero x (int LENGTH('m) - (t - 1) - leading_zeros x)
      | _ \<Rightarrow> True)"

section \<open>The random number generator\<close>

text \<open>
  Modelled from the spec: \<^verbatim>\<open>rng_state_t\<close>, \<^verbatim>\<open>_init_rng_state_struct\<close>,
  \<^verbatim>\<open>get_rand_double01\<close> and \<^verbatim>\<open>_mca_skip_eval\<close> belong to
  \<^verbatim>\<open>common/rng/vfc_rng.h\<close> and \<^verbatim>\<open>common/options.h\<close>, which are not among the
  sources. Sections 3 and 4.2 of the specification give their contract: the state is
  per thread and is seeded lazily, on first use, from the configured seed XOR the thread
  id when a seed was chosen, and otherwise from an entropy source combined with the
  thread id; a draw is a double in the open interval \<open>(0, 1)\<close>; \<open>skip\<close> is true with
  probability \<open>1 - sparsity\<close> and never when \<open>sparsity \<ge> 1\<close>.

  The uniform bit generator itself is outside the specification. The platform supplies
  it as the sequence of draws that each 64-bit seed produces, together with the thread
  id and the value of the entropy source.
\<close>

record platform =
  generator :: "64 word \<Rightarrow> binary64 stream"
  entropy :: "64 word"
  thread_id :: "64 word"

record rng_state_t =
  initialized :: bool
  rng_choose_seed :: bool
  rng_seed :: "64 word"
  random_state_valid :: bool
  random_state :: "binary64 stream"

text \<open>The call records the seed configuration in a state that has none yet. Its last
  argument is \<^verbatim>\<open>false\<close> at every call site: the generator is not seeded here but on
  the first draw.\<close>

definition init_rng_state_struct ::
  "rng_state_t \<Rightarrow> bool \<Rightarrow> 64 word \<Rightarrow> bool \<Rightarrow> rng_state_t" where
  "init_rng_state_struct st choose_seed0 seed0 valid =
     (if initialized st then st
      else st\<lparr>initialized := True, rng_choose_seed := choose_seed0, rng_seed := seed0,
              random_state_valid := valid\<rparr>)"

definition get_rand_double01 :: "platform \<Rightarrow> rng_state_t \<Rightarrow> binary64 \<times> rng_state_t" where
  "get_rand_double01 env st =
     (let st1 =
            (if random_state_valid st then st
             else st\<lparr>random_state_valid := True,
                     random_state :=
                       generator env
                         ((if rng_choose_seed st then rng_seed st else entropy env)
                          XOR thread_id env)\<rparr>)
      in (shd (random_state st1), st1\<lparr>random_state := stl (random_state st1)\<rparr>))"

definition mca_skip_eval ::
  "platform \<Rightarrow> binary32 \<Rightarrow> rng_state_t \<Rightarrow> bool \<times> rng_state_t" where
  "mca_skip_eval env sparsity0 st =
     (if fle (one :: binary32) sparsity0 then (False, st)
      else let (u, st1) = get_rand_double01 env st in (flt sparsity0 u, st1))"

section \<open>Context, modes and virtual precisions\<close>

record t_context =
  relErr :: bool
  absErr :: bool
  absErr_exp :: int
  choose_seed :: bool
  seed :: "64 word"
  daz :: bool
  ftz :: bool
  sparsity :: binary32

datatype mcamode = mcamode_ieee | mcamode_mca | mcamode_pb | mcamode_rr | mcamode_end

text \<open>The three file-scope variables \<^verbatim>\<open>MCALIB_MODE\<close>, \<^verbatim>\<open>MCALIB_BINARY32_T\<close> and
  \<^verbatim>\<open>MCALIB_BINARY64_T\<close>, with their static initialisers.\<close>

record globals =
  MCALIB_MODE :: mcamode
  MCALIB_BINARY32_T :: int
  MCALIB_BINARY64_T :: int

definition MCA_PRECISION_BINARY32_MIN :: int where "MCA_PRECISION_BINARY32_MIN = 1"
definition MCA_PRECISION_BINARY64_MIN :: int where "MCA_PRECISION_BINARY64_MIN = 1"
definition MCA_PRECISION_BINARY32_MAX :: int where "MCA_PRECISION_BINARY32_MAX = 53"
definition MCA_PRECISION_BINARY64_MAX :: int where "MCA_PRECISION_BINARY64_MAX = 112"
definition MCA_PRECISION_BINARY32_DEFAULT :: int where "MCA_PRECISION_BINARY32_DEFAULT = 24"
definition MCA_PRECISION_BINARY64_DEFAULT :: int where "MCA_PRECISION_BINARY64_DEFAULT = 53"
definition MCA_MODE_DEFAULT :: mcamode where "MCA_MODE_DEFAULT = mcamode_mca"

definition static_globals :: globals where
  "static_globals =
     \<lparr>MCALIB_MODE = MCA_MODE_DEFAULT,
      MCALIB_BINARY32_T = MCA_PRECISION_BINARY32_DEFAULT,
      MCALIB_BINARY64_T = MCA_PRECISION_BINARY64_DEFAULT\<rparr>"

text \<open>\<^verbatim>\<open>logger_error\<close> reports and terminates the process: a fatal error is a result
  of its own.\<close>

datatype fatal = logger_error string

datatype mca_operations = mca_add | mca_sub | mca_mul | mca_div | mca_invalid

definition set_mca_mode :: "mcamode \<Rightarrow> globals \<Rightarrow> fatal + globals" where
  "set_mca_mode mode g =
     (if mode = mcamode_end then Inl (logger_error ''mode: invalid value provided'')
      else Inr (g\<lparr>MCALIB_MODE := mode\<rparr>))"

text \<open>
  Modelled from the spec: \<^verbatim>\<open>_set_precision\<close> is a macro of \<^verbatim>\<open>common/options.h\<close>,
  which is not among the sources. Section 3 of the specification: the virtual precision
  of binary32 ranges over \<open>[1, 53]\<close>, that of binary64 over \<open>[1, 112]\<close>, and a value
  outside is rejected.
\<close>

definition set_precision :: "int \<Rightarrow> int \<Rightarrow> int \<Rightarrow> fatal + int" where
  "set_precision pmin pmax precision =
     (if precision < pmin \<or> pmax < precision
      then Inl (logger_error ''invalid precision provided'')
      else Inr precision)"

definition set_mca_precision_binary32 :: "int \<Rightarrow> globals \<Rightarrow> fatal + globals" where
  "set_mca_precision_binary32 precision g =
     (case set_precision MCA_PRECISION_BINARY32_MIN MCA_PRECISION_BINARY32_MAX precision of
        Inl e \<Rightarrow> Inl e
      | Inr t \<Rightarrow> Inr (g\<lparr>MCALIB_BINARY32_T := t\<rparr>))"

definition set_mca_precision_binary64 :: "int \<Rightarrow> globals \<Rightarrow> fatal + globals" where
  "set_mca_precision_binary64 precision g =
     (case set_precision MCA_PRECISION_BINARY64_MIN MCA_PRECISION_BINARY64_MAX precision of
        Inl e \<Rightarrow> Inl e
      | Inr t \<Rightarrow> Inr (g\<lparr>MCALIB_BINARY64_T := t\<rparr>))"

section \<open>Noise\<close>

text \<open>\<^verbatim>\<open>noise = rand * 2^(exp)\<close>: the draw minus one half, with \<open>exp0\<close> (the argument \<^verbatim>\<open>exp\<close>) added to its
  exponent bit-field. The sum is computed on C integers and stored in the bit-field,
  which keeps its low 11 (or 15) bits.\<close>

definition noise_binary64 :: "platform \<Rightarrow> int \<Rightarrow> rng_state_t \<Rightarrow> binary64 \<times> rng_state_t" where
  "noise_binary64 env exp0 rng_state =
     (let (u, rng1) = get_rand_double01 env rng_state;
          d_rand = fsub u half
      in ((sign d_rand, exponent d_rand + word_of_int exp0, mantissa d_rand), rng1))"

definition noise_binary128 ::
  "platform \<Rightarrow> int \<Rightarrow> rng_state_t \<Rightarrow> binary128 \<times> rng_state_t" where
  "noise_binary128 env exp0 rng_state =
     (let (u, rng1) = get_rand_double01 env rng_state;
          noise = fsub (fconvert u) half
      in ((sign noise, exponent noise + word_of_int exp0, mantissa noise), rng1))"

definition IS_IEEE_MODE :: "globals \<Rightarrow> bool" where
  "IS_IEEE_MODE g = (MCALIB_MODE g = mcamode_ieee)"

definition IS_NOT_NORMAL_OR_SUBNORMAL :: "('e::len, 'm::len) ieee \<Rightarrow> bool" where
  "IS_NOT_NORMAL_OR_SUBNORMAL X = (FPCLASSIFY X \<noteq> FP_NORMAL \<and> FPCLASSIFY X \<noteq> FP_SUBNORMAL)"

definition MUST_NOT_BE_NOISED :: "globals \<Rightarrow> ('e::len, 'm::len) ieee \<Rightarrow> int \<Rightarrow> bool" where
  "MUST_NOT_BE_NOISED g X VIRTUAL_PRECISION =
     (MCALIB_MODE g = mcamode_ieee \<or>
      (FPCLASSIFY X \<noteq> FP_NORMAL \<and> FPCLASSIFY X \<noteq> FP_SUBNORMAL) \<or>
      (MCALIB_MODE g = mcamode_rr \<and> IS_REPRESENTABLE X VIRTUAL_PRECISION))"

text \<open>
  The macros \<^verbatim>\<open>_FAST_INEXACT\<close> and \<^verbatim>\<open>_INEXACT\<close> are written once for both working
  types; \<^verbatim>\<open>_NOISE\<close> selects the noise function by the type of \<open>X\<close>, which the
  model takes as the argument \<open>NOISE\<close>. The \<^verbatim>\<open>return\<close> of \<^verbatim>\<open>_FAST_INEXACT\<close>
  leaves the function that expands it: the model returns \<open>None\<close> there.
\<close>

definition FAST_INEXACT ::
  "(platform \<Rightarrow> int \<Rightarrow> rng_state_t \<Rightarrow> ('e::len, 'm::len) ieee \<times> rng_state_t) \<Rightarrow>
   platform \<Rightarrow> globals \<Rightarrow> ('e, 'm) ieee \<Rightarrow> int \<Rightarrow> t_context \<Rightarrow> rng_state_t \<Rightarrow>
   ('e, 'm) ieee option \<times> rng_state_t" where
  "FAST_INEXACT NOISE env g X VIRTUAL_PRECISION CTX RNG_STATE =
     (if IS_IEEE_MODE g \<or> IS_NOT_NORMAL_OR_SUBNORMAL X then (None, RNG_STATE)
      else let rng1 = init_rng_state_struct RNG_STATE (choose_seed CTX) (seed CTX) False;
               e_a = GET_EXP_FLT X;
               e_n_rel = e_a - (VIRTUAL_PRECISION - 1);
               (noise_rel, rng2) = NOISE env e_n_rel rng1
           in (Some (fadd X noise_rel), rng2))"

definition INEXACT ::
  "(platform \<Rightarrow> int \<Rightarrow> rng_state_t \<Rightarrow> ('e::len, 'm::len) ieee \<times> rng_state_t) \<Rightarrow>
   platform \<Rightarrow> globals \<Rightarrow> ('e, 'm) ieee \<Rightarrow> int \<Rightarrow> t_context \<Rightarrow> rng_state_t \<Rightarrow>
   ('e, 'm) ieee \<times> rng_state_t" where
  "INEXACT NOISE env g X VIRTUAL_PRECISION CTX RNG_STATE =
     (let rng1 = init_rng_state_struct RNG_STATE (choose_seed CTX) (seed CTX) False
      in if MUST_NOT_BE_NOISED g X VIRTUAL_PRECISION then (X, rng1)
         else let (skip, rng2) = mca_skip_eval env (sparsity CTX) rng1
              in if skip then (X, rng2)
                 else let (X1, rng3) =
                            (if relErr CTX
                             then let e_a = GET_EXP_FLT X;
                                      e_n_rel = e_a - (VIRTUAL_PRECISION - 1);
                                      (noise_rel, r) = NOISE env e_n_rel rng2
                                  in (fadd X noise_rel, r)
                             else (X, rng2))
                      in if absErr CTX
                         then let e_n_abs = absErr_exp CTX;
                                  (noise_abs, r) = NOISE env e_n_abs rng3
                              in (fadd X1 noise_abs, r)
                         else (X1, rng3))"

definition mca_inexact_binary64 ::
  "platform \<Rightarrow> globals \<Rightarrow> binary64 \<Rightarrow> t_context \<Rightarrow> rng_state_t \<Rightarrow> binary64 \<times> rng_state_t" where
  "mca_inexact_binary64 env g da context rng_state =
     INEXACT noise_binary64 env g da (MCALIB_BINARY32_T g) context rng_state"

definition mca_inexact_binary128 ::
  "platform \<Rightarrow> globals \<Rightarrow> binary128 \<Rightarrow> t_context \<Rightarrow> rng_state_t \<Rightarrow>
   binary128 \<times> rng_state_t" where
  "mca_inexact_binary128 env g qa context rng_state =
     INEXACT noise_binary128 env g qa (MCALIB_BINARY64_T g) context rng_state"

section \<open>The arithmetic functions\<close>

definition PERFORM_BIN_OP ::
  "mca_operations \<Rightarrow> ('e::len, 'm::len) ieee \<Rightarrow> ('e, 'm) ieee \<Rightarrow> fatal + ('e, 'm) ieee" where
  "PERFORM_BIN_OP OP A B =
     (case OP of
        mca_add \<Rightarrow> Inr (fadd A B)
      | mca_mul \<Rightarrow> Inr (fmul A B)
      | mca_sub \<Rightarrow> Inr (fsub A B)
      | mca_div \<Rightarrow> Inr (fdiv A B)
      | mca_invalid \<Rightarrow> Inl (logger_error ''invalid operator''))"

text \<open>
  \<^verbatim>\<open>_MCA_BINARY_OP(A, B, OP, CTX, X)\<close>: \<open>A\<close> and \<open>B\<close> have the operand type, the
  local copies \<open>_A\<close>, \<open>_B\<close> and \<open>_RES\<close> the working type of \<open>X\<close>;
  \<^verbatim>\<open>_INEXACT_BINARYN\<close> selects the inexact function by that type, which the model takes
  as the argument \<open>INEXACT_BINARYN\<close>. Every assignment between the two types is a
  conversion.
\<close>

definition MCA_BINARY_OP ::
  "(platform \<Rightarrow> globals \<Rightarrow> ('f::len, 'n::len) ieee \<Rightarrow> t_context \<Rightarrow> rng_state_t \<Rightarrow>
      ('f, 'n) ieee \<times> rng_state_t) \<Rightarrow>
   platform \<Rightarrow> globals \<Rightarrow> ('e::len, 'm::len) ieee \<Rightarrow> ('e, 'm) ieee \<Rightarrow> mca_operations \<Rightarrow>
   t_context \<Rightarrow> rng_state_t \<Rightarrow> fatal + (('e, 'm) ieee \<times> rng_state_t)" where
  "MCA_BINARY_OP INEXACT_BINARYN env g A B OP CTX rng_state =
     (let A0 = (if daz CTX then fconvert (DAZ A) else fconvert A);
          B0 = (if daz CTX then fconvert (DAZ B) else fconvert B);
          (A1, B1, rng1) =
            (if MCALIB_MODE g = mcamode_pb \<or> MCALIB_MODE g = mcamode_mca
             then let (a1, r1) = INEXACT_BINARYN env g A0 CTX rng_state;
                      (b1, r2) = INEXACT_BINARYN env g B0 CTX r1
                  in (a1, b1, r2)
             else (A0, B0, rng_state))
      in case PERFORM_BIN_OP OP A1 B1 of
           Inl e \<Rightarrow> Inl e
         | Inr RES0 \<Rightarrow>
             let (RES1, rng2) =
                   (if MCALIB_MODE g = mcamode_rr \<or> MCALIB_MODE g = mcamode_mca
                    then INEXACT_BINARYN env g RES0 CTX rng1
                    else (RES0, rng1));
                 RES2 =
                   (if ftz CTX then fconvert (FTZ (fconvert RES1 :: ('e, 'm) ieee))
                    else RES1)
             in Inr (fconvert RES2, rng2))"

definition mca_binary32_binary_op ::
  "platform \<Rightarrow> globals \<Rightarrow> binary32 \<Rightarrow> binary32 \<Rightarrow> mca_operations \<Rightarrow> t_context \<Rightarrow>
   rng_state_t \<Rightarrow> fatal + (binary32 \<times> rng_state_t)" where
  "mca_binary32_binary_op env g a b dop context rng_state =
     MCA_BINARY_OP mca_inexact_binary64 env g a b dop context rng_state"

definition mca_binary64_binary_op ::
  "platform \<Rightarrow> globals \<Rightarrow> binary64 \<Rightarrow> binary64 \<Rightarrow> mca_operations \<Rightarrow> t_context \<Rightarrow>
   rng_state_t \<Rightarrow> fatal + (binary64 \<times> rng_state_t)" where
  "mca_binary64_binary_op env g a b qop context rng_state =
     MCA_BINARY_OP mca_inexact_binary128 env g a b qop context rng_state"


section \<open>The user-call hook\<close>

text \<open>
  \<^verbatim>\<open>_interflop_usercall_inexact\<close> reads three variadic arguments: the type tag, a
  pointer to the value and the precision. The tag says what the pointer points to, so
  the model joins the two: \<open>FFLOAT x\<close> is the tag \<^verbatim>\<open>FFLOAT\<close> with a pointer to the
  \<^verbatim>\<open>float\<close> \<open>x\<close>, and \<open>FTYPES_OTHER\<close> is any other tag. The result holds the value
  the pointer points to afterwards.
\<close>

datatype inexact_arg = FFLOAT binary32 | FDOUBLE binary64 | FQUAD binary128 | FTYPES_OTHER

definition interflop_usercall_inexact ::
  "platform \<Rightarrow> globals \<Rightarrow> t_context \<Rightarrow> inexact_arg \<Rightarrow> int \<Rightarrow> rng_state_t \<Rightarrow>
   inexact_arg \<times> rng_state_t" where
  "interflop_usercall_inexact env g context ap precision rng_state =
     (case ap of
        FFLOAT v \<Rightarrow>
          (let xd = (fconvert v :: binary64);
               t = (if precision \<le> 0 then MCALIB_BINARY32_T g + precision else precision)
           in case FAST_INEXACT noise_binary64 env g xd t context rng_state of
                (None, r) \<Rightarrow> (FFLOAT v, r)
              | (Some xd1, r) \<Rightarrow> (FFLOAT (fconvert xd1), r))
      | FDOUBLE v \<Rightarrow>
          (let xq = (fconvert v :: binary128);
               t = (if precision \<le> 0 then MCALIB_BINARY64_T g + precision else precision)
           in case FAST_INEXACT noise_binary128 env g xq t context rng_state of
                (None, r) \<Rightarrow> (FDOUBLE v, r)
              | (Some xq1, r) \<Rightarrow> (FDOUBLE (fconvert xq1), r))
      | FQUAD v \<Rightarrow>
          (case FAST_INEXACT noise_binary128 env g v precision context rng_state of
             (None, r) \<Rightarrow> (FQUAD v, r)
           | (Some xq1, r) \<Rightarrow> (FQUAD xq1, r))
      | FTYPES_OTHER \<Rightarrow> (FTYPES_OTHER, rng_state))"

datatype interflop_call =
    INTERFLOP_INEXACT_ID inexact_arg int
  | INTERFLOP_SET_PRECISION_BINARY32 int
  | INTERFLOP_SET_PRECISION_BINARY64 int
  | INTERFLOP_OTHER_ID

definition interflop_user_call ::
  "platform \<Rightarrow> globals \<Rightarrow> t_context \<Rightarrow> interflop_call \<Rightarrow> rng_state_t \<Rightarrow>
   fatal + (globals \<times> interflop_call \<times> rng_state_t)" where
  "interflop_user_call env g context call rng_state =
     (case call of
        INTERFLOP_INEXACT_ID ap precision \<Rightarrow>
          (let (ap1, r) = interflop_usercall_inexact env g context ap precision rng_state
           in Inr (g, INTERFLOP_INEXACT_ID ap1 precision, r))
      | INTERFLOP_SET_PRECISION_BINARY32 p \<Rightarrow>
          (case set_mca_precision_binary32 p g of
             Inl e \<Rightarrow> Inl e
           | Inr g1 \<Rightarrow> Inr (g1, call, rng_state))
      | INTERFLOP_SET_PRECISION_BINARY64 p \<Rightarrow>
          (case set_mca_precision_binary64 p g of
             Inl e \<Rightarrow> Inl e
           | Inr g1 \<Rightarrow> Inr (g1, call, rng_state))
      | INTERFLOP_OTHER_ID \<Rightarrow> Inr (g, call, rng_state))"

section \<open>Options\<close>

subsection \<open>The C library's number parsers\<close>

text \<open>
  \<^verbatim>\<open>strtol\<close>, \<^verbatim>\<open>strtoull\<close> (both in base 10) and \<^verbatim>\<open>strtof\<close> follow the C
  standard: leading white space, an optional sign, then the longest run of characters
  that forms a number; the end pointer is left after it, or at the start of the string
  when there is no such run, and the result is then zero. Each returns the value, the
  rest of the string at the end pointer and the value of \<^verbatim>\<open>errno\<close> after the call
  (the caller clears it before): \<^verbatim>\<open>ERANGE\<close> when the number is out of range, and
  otherwise still zero. \<^verbatim>\<open>strtof\<close> is modelled for decimal notation (digits, a
  fraction, a decimal exponent), not for the hexadecimal, \<^verbatim>\<open>inf\<close> and \<^verbatim>\<open>nan\<close>
  forms.
\<close>

definition isspace :: "char \<Rightarrow> bool" where
  "isspace c = (of_char c \<in> {32, 9, 10, 11, 12, 13 :: nat})"

definition isdigit :: "char \<Rightarrow> bool" where
  "isdigit c = (48 \<le> (of_char c :: nat) \<and> (of_char c :: nat) \<le> 57)"

definition digits_value :: "string \<Rightarrow> nat" where
  "digits_value ds = foldl (\<lambda>acc c. 10 * acc + (of_char c - 48)) 0 ds"

definition read_sign :: "string \<Rightarrow> bool \<times> string" where
  "read_sign s =
     (case s of
        [] \<Rightarrow> (False, s)
      | c # r \<Rightarrow> if c = CHR ''-'' then (True, r) else if c = CHR ''+'' then (False, r)
                 else (False, s))"

definition ERANGE :: int where "ERANGE = 34"
definition LONG_MAX :: int where "LONG_MAX = 2 ^ 63 - 1"
definition LONG_MIN :: int where "LONG_MIN = - (2 ^ 63)"
definition ULLONG_MAX :: int where "ULLONG_MAX = 2 ^ 64 - 1"

definition strtol :: "string \<Rightarrow> int \<times> string \<times> int" where
  "strtol nptr =
     (let (neg, s1) = read_sign (dropWhile isspace nptr);
          ds = takeWhile isdigit s1;
          endptr = dropWhile isdigit s1;
          v = (if neg then - int (digits_value ds) else int (digits_value ds))
      in if ds = [] then (0, nptr, 0)
         else if LONG_MAX < v then (LONG_MAX, endptr, ERANGE)
         else if v < LONG_MIN then (LONG_MIN, endptr, ERANGE)
         else (v, endptr, 0))"

definition strtoull :: "string \<Rightarrow> 64 word \<times> string \<times> int" where
  "strtoull nptr =
     (let (neg, s1) = read_sign (dropWhile isspace nptr);
          ds = takeWhile isdigit s1;
          endptr = dropWhile isdigit s1;
          v = int (digits_value ds)
      in if ds = [] then (0, nptr, 0)
         else if ULLONG_MAX < v then (word_of_int ULLONG_MAX, endptr, ERANGE)
         else (word_of_int (if neg then - v else v), endptr, 0))"

definition read_exponent :: "string \<Rightarrow> int \<times> string" where
  "read_exponent s =
     (case s of
        [] \<Rightarrow> (0, s)
      | c # r \<Rightarrow>
          if c = CHR ''e'' \<or> c = CHR ''E''
          then let (neg, r1) = read_sign r; ds = takeWhile isdigit r1
               in if ds = [] then (0, s)
                  else ((if neg then - int (digits_value ds) else int (digits_value ds)),
                        dropWhile isdigit r1)
          else (0, s))"

definition strtof :: "string \<Rightarrow> binary32 \<times> string \<times> int" where
  "strtof nptr =
     (let (neg, s1) = read_sign (dropWhile isspace nptr);
          ip = takeWhile isdigit s1;
          r1 = dropWhile isdigit s1;
          (fp, r2) =
            (case r1 of
               [] \<Rightarrow> ([], r1)
             | c # r \<Rightarrow> if c = CHR ''.'' then (takeWhile isdigit r, dropWhile isdigit r)
                        else ([], r1))
      in if ip = [] \<and> fp = [] then (signed_zero False, nptr, 0)
         else let (ex, endptr) = read_exponent r2;
                  m = digits_value (ip @ fp);
                  x = real m * 10 powi (ex - int (length fp));
                  y = (fround neg x :: binary32)
              in if m = 0 then (signed_zero neg, endptr, 0)
                 else if is_inf y then (y, endptr, ERANGE)
                 else if (is_zero y \<or> FPCLASSIFY y = FP_SUBNORMAL) \<and> \<bar>valof y\<bar> \<noteq> x
                 then (y, endptr, ERANGE)
                 else (y, endptr, 0))"

text \<open>The conversion of a \<^verbatim>\<open>long\<close> to \<^verbatim>\<open>int\<close> in an assignment keeps the low 32
  bits.\<close>

definition long_to_int :: "int \<Rightarrow> int" where
  "long_to_int v = sint (word_of_int v :: 32 word)"

definition tolower :: "char \<Rightarrow> char" where
  "tolower c =
     (if 65 \<le> (of_char c :: nat) \<and> (of_char c :: nat) \<le> 90
      then char_of (of_char c + 32 :: nat) else c)"

text \<open>\<^verbatim>\<open>strcasecmp(s, t) == 0\<close>.\<close>

definition strcasecmp_eq :: "string \<Rightarrow> string \<Rightarrow> bool" where
  "strcasecmp_eq s t = (map tolower s = map tolower t)"

subsection \<open>The option parser\<close>

datatype key_args =
    KEY_PREC_B32 | KEY_PREC_B64 | KEY_ERR_EXP | KEY_MODE | KEY_ERR_MODE | KEY_SEED
  | KEY_DAZ | KEY_FTZ | KEY_SPARSITY | KEY_OTHER

datatype error_t = ARGP_OK | ARGP_ERR_UNKNOWN

definition MCA_MODE_STR :: "mcamode \<Rightarrow> string" where
  "MCA_MODE_STR m =
     (case m of mcamode_ieee \<Rightarrow> ''ieee'' | mcamode_mca \<Rightarrow> ''mca'' | mcamode_pb \<Rightarrow> ''pb''
      | mcamode_rr \<Rightarrow> ''rr'' | mcamode_end \<Rightarrow> [])"

datatype mca_err_mode = mca_err_mode_rel | mca_err_mode_abs | mca_err_mode_all

definition MCA_ERR_MODE_STR :: "mca_err_mode \<Rightarrow> string" where
  "MCA_ERR_MODE_STR m =
     (case m of mca_err_mode_rel \<Rightarrow> ''rel'' | mca_err_mode_abs \<Rightarrow> ''abs''
      | mca_err_mode_all \<Rightarrow> ''all'')"

text \<open>\<^verbatim>\<open>parse_opt\<close> works on the variables of the file and on the context that
  \<^verbatim>\<open>state->input\<close> points to. A call of \<^verbatim>\<open>logger_error\<close> ends it.\<close>

definition parse_opt ::
  "key_args \<Rightarrow> string \<Rightarrow> globals \<times> t_context \<Rightarrow> fatal + (error_t \<times> globals \<times> t_context)"
  where
  "parse_opt key arg st =
     (let (g, ctx) = st
      in case key of
           KEY_PREC_B32 \<Rightarrow>
             (let (v, endptr, errno) = strtol arg; val = long_to_int v
              in if errno \<noteq> 0 \<or> val \<le> 0
                 then Inl (logger_error ''precision-binary32: must be a positive integer'')
                 else case set_mca_precision_binary32 val g of
                        Inl e \<Rightarrow> Inl e
                      | Inr g1 \<Rightarrow> Inr (ARGP_OK, g1, ctx))
         | KEY_PREC_B64 \<Rightarrow>
             (let (v, endptr, errno) = strtol arg; val = long_to_int v
              in if errno \<noteq> 0 \<or> val \<le> 0
                 then Inl (logger_error ''precision-binary64: must be a positive integer'')
                 else case set_mca_precision_binary64 val g of
                        Inl e \<Rightarrow> Inl e
                      | Inr g1 \<Rightarrow> Inr (ARGP_OK, g1, ctx))
         | KEY_MODE \<Rightarrow>
             (if strcasecmp_eq (MCA_MODE_STR mcamode_ieee) arg
              then map_sum id (\<lambda>g1. (ARGP_OK, g1, ctx)) (set_mca_mode mcamode_ieee g)
              else if strcasecmp_eq (MCA_MODE_STR mcamode_mca) arg
              then map_sum id (\<lambda>g1. (ARGP_OK, g1, ctx)) (set_mca_mode mcamode_mca g)
              else if strcasecmp_eq (MCA_MODE_STR mcamode_pb) arg
              then map_sum id (\<lambda>g1. (ARGP_OK, g1, ctx)) (set_mca_mode mcamode_pb g)
              else if strcasecmp_eq (MCA_MODE_STR mcamode_rr) arg
              then map_sum id (\<lambda>g1. (ARGP_OK, g1, ctx)) (set_mca_mode mcamode_rr g)
              else Inl (logger_error ''mode: must be one of {ieee, mca, pb, rr}''))
         | KEY_ERR_MODE \<Rightarrow>
             (if strcasecmp_eq (MCA_ERR_MODE_STR mca_err_mode_rel) arg
              then Inr (ARGP_OK, g, ctx\<lparr>relErr := True, absErr := False\<rparr>)
              else if strcasecmp_eq (MCA_ERR_MODE_STR mca_err_mode_abs) arg
              then Inr (ARGP_OK, g, ctx\<lparr>relErr := False, absErr := True\<rparr>)
              else if strcasecmp_eq (MCA_ERR_MODE_STR mca_err_mode_all) arg
              then Inr (ARGP_OK, g, ctx\<lparr>relErr := True, absErr := True\<rparr>)
              else Inl (logger_error ''error-mode: must be one of {rel, abs, all}''))
         | KEY_ERR_EXP \<Rightarrow>
             (let (v, endptr, errno) = strtol arg;
                  ctx1 = ctx\<lparr>absErr_exp := long_to_int v\<rparr>
              in if errno \<noteq> 0
                 then Inl (logger_error ''max-abs-error-exponent: must be an integer'')
                 else Inr (ARGP_OK, g, ctx1))
         | KEY_SEED \<Rightarrow>
             (let (v, endptr, errno) = strtoull arg;
                  ctx1 = ctx\<lparr>choose_seed := True, seed := v\<rparr>
              in if errno \<noteq> 0 then Inl (logger_error ''seed: must be an integer'')
                 else Inr (ARGP_OK, g, ctx1))
         | KEY_DAZ \<Rightarrow> Inr (ARGP_OK, g, ctx\<lparr>daz := True\<rparr>)
         | KEY_FTZ \<Rightarrow> Inr (ARGP_OK, g, ctx\<lparr>ftz := True\<rparr>)
         | KEY_SPARSITY \<Rightarrow>
             (let (v, endptr, errno0) = strtof arg;
                  ctx1 = ctx\<lparr>sparsity := v\<rparr>;
                  errno = (if fle v (signed_zero False :: binary32) then 1 else errno0)
              in if errno \<noteq> 0 then Inl (logger_error ''sparsity: must be positive'')
                 else Inr (ARGP_OK, g, ctx1))
         | KEY_OTHER \<Rightarrow> Inr (ARGP_ERR_UNKNOWN, g, ctx))"

text \<open>
  \<^verbatim>\<open>argp_parse\<close> belongs to the C library: it recognises the options of the table
  \<^verbatim>\<open>options\<close> on the command line and calls \<^verbatim>\<open>parse_opt\<close> with the key and the
  argument of each, in order. The model starts from these pairs.
\<close>

fun argp_parse ::
  "(key_args \<times> string) list \<Rightarrow> globals \<times> t_context \<Rightarrow> fatal + (globals \<times> t_context)" where
  "argp_parse [] st = Inr st"
| "argp_parse ((key, arg) # rest) st =
     (case parse_opt key arg st of
        Inl e \<Rightarrow> Inl e
      | Inr (_, g, ctx) \<Rightarrow> argp_parse rest (g, ctx))"

subsection \<open>Initialisation\<close>

definition init_context :: t_context where
  "init_context =
     \<lparr>relErr = True, absErr = False, absErr_exp = 112, choose_seed = False, seed = 0,
      daz = False, ftz = False, sparsity = one\<rparr>"

text \<open>\<^verbatim>\<open>interflop_init\<close> sets the variables of the file, builds the context, parses the
  options and records the seed configuration in the state of the generator of the
  calling thread. The information header is only logged.\<close>

definition interflop_init ::
  "(key_args \<times> string) list \<Rightarrow> rng_state_t \<Rightarrow> fatal + (globals \<times> t_context \<times> rng_state_t)"
  where
  "interflop_init argv rng_state =
     (case set_mca_precision_binary32 MCA_PRECISION_BINARY32_DEFAULT static_globals of
        Inl e \<Rightarrow> Inl e
      | Inr g1 \<Rightarrow>
     (case set_mca_precision_binary64 MCA_PRECISION_BINARY64_DEFAULT g1 of
        Inl e \<Rightarrow> Inl e
      | Inr g2 \<Rightarrow>
     (case set_mca_mode MCA_MODE_DEFAULT g2 of
        Inl e \<Rightarrow> Inl e
      | Inr g3 \<Rightarrow>
     (case argp_parse argv (g3, init_context) of
        Inl e \<Rightarrow> Inl e
      | Inr (g4, ctx) \<Rightarrow>
          Inr (g4, ctx, init_rng_state_struct rng_state (choose_seed ctx) (seed ctx) False)))))"

section \<open>Programs and example values\<close>

text \<open>
  The host program calls the backend through its interface: one of the four arithmetic
  hooks of each operand type, which are \<^verbatim>\<open>_mca_binary32_binary_op\<close> and
  \<^verbatim>\<open>_mca_binary64_binary_op\<close> at a fixed operator, or the user call. A
  single-threaded run is \<^verbatim>\<open>interflop_init\<close> followed by a sequence of such calls,
  all on the generator state of the one thread.
\<close>

datatype operation =
    float_op binary32 binary32 mca_operations
  | double_op binary64 binary64 mca_operations
  | user_call interflop_call

datatype outcome =
    float_result binary32
  | double_result binary64
  | user_call_result interflop_call

fun run_ops ::
  "platform \<Rightarrow> globals \<Rightarrow> t_context \<Rightarrow> operation list \<Rightarrow> rng_state_t \<Rightarrow>
   fatal + outcome list" where
  "run_ops env g ctx [] rng_state = Inr []"
| "run_ops env g ctx (float_op a b op # rest) rng_state =
     (case mca_binary32_binary_op env g a b op ctx rng_state of
        Inl e \<Rightarrow> Inl e
      | Inr (r, rng1) \<Rightarrow> map_sum id (\<lambda>rs. float_result r # rs) (run_ops env g ctx rest rng1))"
| "run_ops env g ctx (double_op a b op # rest) rng_state =
     (case mca_binary64_binary_op env g a b op ctx rng_state of
        Inl e \<Rightarrow> Inl e
      | Inr (r, rng1) \<Rightarrow> map_sum id (\<lambda>rs. double_result r # rs) (run_ops env g ctx rest rng1))"
| "run_ops env g ctx (user_call c # rest) rng_state =
     (case interflop_user_call env g ctx c rng_state of
        Inl e \<Rightarrow> Inl e
      | Inr (g1, c1, rng1) \<Rightarrow>
          map_sum id (\<lambda>rs. user_call_result c1 # rs) (run_ops env g1 ctx rest rng1))"

text \<open>The generator state of a thread before its first use: thread-local storage is
  zero-initialised.\<close>

definition rng_state0 :: rng_state_t where
  "rng_state0 =
     \<lparr>initialized = False, rng_choose_seed = False, rng_seed = 0,
      random_state_valid = False, random_state = sconst (signed_zero False)\<rparr>"

definition run_program ::
  "platform \<Rightarrow> (key_args \<times> string) list \<Rightarrow> operation list \<Rightarrow> fatal + outcome list" where
  "run_program env argv ops =
     (case interflop_init argv rng_state0 of
        Inl e \<Rightarrow> Inl e
      | Inr (g, ctx, rng_state) \<Rightarrow> run_ops env g ctx ops rng_state)"

text \<open>A state whose draws are fixed by the seed it holds: it has been set up, and
  either its generator is already seeded or it will be seeded from a chosen seed.\<close>

definition seed_determined :: "rng_state_t \<Rightarrow> bool" where
  "seed_determined st = (initialized st \<and> (random_state_valid st \<or> rng_choose_seed st))"

text \<open>A platform whose generator produces the same draw \<open>u\<close> forever, whatever the
  seed, for evaluating the backend on a chosen draw.\<close>

definition constant_platform :: "binary64 \<Rightarrow> platform" where
  "constant_platform u = \<lparr>generator = (\<lambda>_. sconst u), entropy = 0, thread_id = 1\<rparr>"

text \<open>A generator state from which the constant platform of \<open>u\<close> draws \<open>u\<close>
  forever: either not yet seeded, or seeded with the constant sequence.\<close>

definition draws_constant :: "binary64 \<Rightarrow> rng_state_t \<Rightarrow> bool" where
  "draws_constant u st = (random_state_valid st \<longrightarrow> random_state st = sconst u)"

text \<open>The draw \<open>0.75\<close>.\<close>

definition u075 :: binary64 where
  "u075 = (False, 1022, 0x8000000000000)"

text \<open>The classes on which no noise is applied.\<close>

abbreviation unnoised_class :: "('e::len, 'm::len) ieee \<Rightarrow> bool" where
  "unnoised_class x \<equiv>
     FPCLASSIFY x = FP_ZERO \<or> FPCLASSIFY x = FP_INFINITE \<or> FPCLASSIFY x = FP_NAN"

section \<open>Lemmas\<close>

lemma INEXACT_special:
  assumes "FPCLASSIFY X \<noteq> FP_NORMAL" "FPCLASSIFY X \<noteq> FP_SUBNORMAL"
  shows "INEXACT NOISE env g X t CTX rng = (X, init_rng_state_struct rng (choose_seed CTX) (seed CTX) False)"
  using assms by (simp add: INEXACT_def MUST_NOT_BE_NOISED_def Let_def)

lemma FAST_INEXACT_special:
  assumes "FPCLASSIFY X \<noteq> FP_NORMAL" "FPCLASSIFY X \<noteq> FP_SUBNORMAL"
  shows "FAST_INEXACT NOISE env g X t CTX rng = (None, rng)"
  using assms by (simp add: FAST_INEXACT_def IS_NOT_NORMAL_OR_SUBNORMAL_def)

lemma quiet_bit_nonzero: "(quiet_bit :: 'm::len word) \<noteq> 0"
  by (simp add: quiet_bit_def)

lemma or_quiet_bit_nonzero: "(w OR quiet_bit :: 'm::len word) \<noteq> 0"
  using quiet_bit_nonzero by (metis or_eq_0_iff)

lemma minus_one_neq_zero_word: "(- 1 :: 'e::len word) \<noteq> 0"
  by simp

lemma FPCLASSIFY_signed_zero: "FPCLASSIFY (signed_zero s :: ('e::len, 'm::len) ieee) = FP_ZERO"
  by (simp add: FPCLASSIFY_def signed_zero_def exponent_def mantissa_def)

lemma FPCLASSIFY_infinity: "FPCLASSIFY (infinity s :: ('e::len, 'm::len) ieee) = FP_INFINITE"
  by (simp add: FPCLASSIFY_def infinity_def exponent_def mantissa_def)

lemma FPCLASSIFY_fconvert_special:
  fixes x :: "('e::len, 'm::len) ieee"
  assumes "FPCLASSIFY x \<noteq> FP_NORMAL" "FPCLASSIFY x \<noteq> FP_SUBNORMAL"
  shows "FPCLASSIFY (fconvert x :: ('f::len, 'n::len) ieee) = FPCLASSIFY x"
proof (cases "FPCLASSIFY x")
  case FP_NAN
  then show ?thesis
    by (simp add: fconvert_def FPCLASSIFY_def[of "(a, b, c)" for a b c] exponent_def mantissa_def
        or_quiet_bit_nonzero)
next
  case FP_INFINITE
  then show ?thesis by (simp add: fconvert_def FPCLASSIFY_infinity)
next
  case FP_ZERO
  then show ?thesis by (simp add: fconvert_def FPCLASSIFY_signed_zero)
qed (use assms in auto)

lemma DAZ_special:
  "FPCLASSIFY x \<noteq> FP_SUBNORMAL \<Longrightarrow> DAZ x = x"
  by (simp add: DAZ_def)
lemma MCA_BINARY_OP_ieee:
  fixes A B :: "('e::len, 'm::len) ieee" and A0 B0 R :: "('f::len, 'n::len) ieee"
    and IB :: "platform \<Rightarrow> globals \<Rightarrow> ('f::len, 'n::len) ieee \<Rightarrow> t_context \<Rightarrow> rng_state_t \<Rightarrow>
      ('f, 'n) ieee \<times> rng_state_t"
  assumes "MCALIB_MODE g = mcamode_ieee"
    and "(if daz CTX then fconvert (DAZ A) else fconvert A) = A0"
    and "(if daz CTX then fconvert (DAZ B) else fconvert B) = B0"
  shows "MCA_BINARY_OP IB env g A B OP CTX rng =
     (case PERFORM_BIN_OP OP A0 B0 of
        Inl e \<Rightarrow> Inl e
      | Inr R0 \<Rightarrow>
          Inr (fconvert (if ftz CTX then fconvert (FTZ (fconvert R0 :: ('e, 'm) ieee)) else R0),
               rng))"
proof (cases "PERFORM_BIN_OP OP A0 B0")
  case (Inl e)
  then show ?thesis using assms by (cases "daz CTX") (simp_all add: MCA_BINARY_OP_def Let_def)
next
  case (Inr R)
  then show ?thesis using assms by (cases "daz CTX") (simp_all add: MCA_BINARY_OP_def Let_def)
qed

lemma MCA_BINARY_OP_rr_unperturbed:
  fixes A B :: "('e::len, 'm::len) ieee" and A0 B0 R :: "('f::len, 'n::len) ieee"
    and IB :: "platform \<Rightarrow> globals \<Rightarrow> ('f::len, 'n::len) ieee \<Rightarrow> t_context \<Rightarrow> rng_state_t \<Rightarrow>
      ('f, 'n) ieee \<times> rng_state_t"
  assumes "MCALIB_MODE g = mcamode_rr"
    and "(if daz CTX then fconvert (DAZ A) else fconvert A) = A0"
    and "(if daz CTX then fconvert (DAZ B) else fconvert B) = B0"
    and "PERFORM_BIN_OP OP A0 B0 = Inr R"
    and "fst (IB env g R CTX rng) = R"
  shows "MCA_BINARY_OP IB env g A B OP CTX rng =
          Inr (fconvert (if ftz CTX then fconvert (FTZ (fconvert R :: ('e, 'm) ieee)) else R),
               snd (IB env g R CTX rng))"
  using assms by (cases "daz CTX") (simp_all add: MCA_BINARY_OP_def Let_def split_beta)

lemma MCA_BINARY_OP_unperturbed:
  fixes A B :: "('e::len, 'm::len) ieee" and A0 B0 R :: "('f::len, 'n::len) ieee"
    and IB :: "platform \<Rightarrow> globals \<Rightarrow> ('f::len, 'n::len) ieee \<Rightarrow> t_context \<Rightarrow> rng_state_t \<Rightarrow>
      ('f, 'n) ieee \<times> rng_state_t"
  assumes "(if daz CTX then fconvert (DAZ A) else fconvert A) = A0"
    and "(if daz CTX then fconvert (DAZ B) else fconvert B) = B0"
    and "\<And>r. fst (IB env g A0 CTX r) = A0"
    and "\<And>r. fst (IB env g B0 CTX r) = B0"
    and "PERFORM_BIN_OP OP A0 B0 = Inr R"
    and "\<And>r. fst (IB env g R CTX r) = R"
  shows "map_sum id fst (MCA_BINARY_OP IB env g A B OP CTX rng) =
          Inr (fconvert (if ftz CTX then fconvert (FTZ (fconvert R :: ('e, 'm) ieee)) else R))"
  using assms by (cases "daz CTX") (simp_all add: MCA_BINARY_OP_def Let_def split_beta)
lemma INEXACT_rr_representable:
  assumes "MCALIB_MODE g = mcamode_rr" "IS_REPRESENTABLE X t"
  shows "INEXACT NOISE env g X t CTX rng =
           (X, init_rng_state_struct rng (choose_seed CTX) (seed CTX) False)"
  using assms by (simp add: INEXACT_def MUST_NOT_BE_NOISED_def Let_def)

text \<open>Evaluation of \<open>bitlen\<close> on numerals.\<close>

lemma bitlen_numeral [simp]:
  "bitlen 0 = 0" "bitlen (Suc 0) = 1" "bitlen 1 = 1"
  "bitlen (numeral (Num.Bit0 k)) = Suc (bitlen (numeral k))"
  "bitlen (numeral (Num.Bit1 k)) = Suc (bitlen (numeral k))"
proof -
  show "bitlen 0 = 0" by (simp add: bitlen.simps)
  show "bitlen (Suc 0) = 1" by (simp add: bitlen.simps)
  show "bitlen 1 = 1" by (simp add: bitlen.simps)
  have "numeral (Num.Bit0 k) div (2::nat) = numeral k"
    by (metis mult_2 nonzero_mult_div_cancel_left numeral_Bit0 zero_neq_numeral)
  then show "bitlen (numeral (Num.Bit0 k)) = Suc (bitlen (numeral k))"
    by (subst bitlen.simps) simp
  have "numeral (Num.Bit1 k) div (2::nat) = numeral k"
    by simp
  then show "bitlen (numeral (Num.Bit1 k)) = Suc (bitlen (numeral k))"
    by (subst bitlen.simps) simp
qed

lemmas fp_eval = sign_def exponent_def mantissa_def EXP_COMP_def QMIN_def valof_def FPCLASSIFY_def
  signed_zero_def infinity_def quiet_bit_def default_nan_def quieted_def floor_log2_def
  round_half_even_def quantum_def fround_def is_nan_def is_inf_def is_zero_def fneg_def fadd_def fsub_def
  fmul_def fdiv_def fconvert_def fle_def flt_def Let_def one_def half_def

lemma unnoised_classD:
  "unnoised_class x \<Longrightarrow> FPCLASSIFY x \<noteq> FP_NORMAL \<and> FPCLASSIFY x \<noteq> FP_SUBNORMAL"
  by auto

lemma MCA_BINARY_OP_special:
  fixes A B :: "('e::len, 'm::len) ieee" and R :: "('f::len, 'n::len) ieee"
    and NOISE :: "platform \<Rightarrow> int \<Rightarrow> rng_state_t \<Rightarrow> ('f, 'n) ieee \<times> rng_state_t"
  assumes a: "unnoised_class A" and b: "unnoised_class B"
    and p: "PERFORM_BIN_OP OP (fconvert A) (fconvert B) = Inr R" and r: "unnoised_class R"
  shows "map_sum id fst
           (MCA_BINARY_OP (\<lambda>env g X. INEXACT NOISE env g X (T g)) env g A B OP CTX rng) =
         map_sum id fst
           (MCA_BINARY_OP (\<lambda>env g X. INEXACT NOISE env g X (T g)) env'
              (g\<lparr>MCALIB_MODE := mcamode_ieee\<rparr>) A B OP CTX rng')"
proof -
  have da: "(if daz CTX then fconvert (DAZ A) else fconvert A) = (fconvert A :: ('f, 'n) ieee)"
    using a by (auto simp: DAZ_def)
  have db: "(if daz CTX then fconvert (DAZ B) else fconvert B) = (fconvert B :: ('f, 'n) ieee)"
    using b by (auto simp: DAZ_def)
  have ca: "unnoised_class (fconvert A :: ('f, 'n) ieee)"
    using a FPCLASSIFY_fconvert_special [of A] by auto
  have cb: "unnoised_class (fconvert B :: ('f, 'n) ieee)"
    using b FPCLASSIFY_fconvert_special [of B] by auto
  have l: "map_sum id fst
           (MCA_BINARY_OP (\<lambda>env g X. INEXACT NOISE env g X (T g)) env g A B OP CTX rng) =
          Inr (fconvert (if ftz CTX then fconvert (FTZ (fconvert R :: ('e, 'm) ieee)) else R))"
  proof (rule MCA_BINARY_OP_unperturbed [OF da db _ _ p])
    show "fst (INEXACT NOISE env g (fconvert A) (T g) CTX r) = fconvert A" for r
      using ca by (subst INEXACT_special) auto
    show "fst (INEXACT NOISE env g (fconvert B) (T g) CTX r) = fconvert B" for r
      using cb by (subst INEXACT_special) auto
    show "fst (INEXACT NOISE env g R (T g) CTX r) = R" for r
      using r by (subst INEXACT_special) auto
  qed
  have "MCA_BINARY_OP (\<lambda>env g X. INEXACT NOISE env g X (T g)) env'
              (g\<lparr>MCALIB_MODE := mcamode_ieee\<rparr>) A B OP CTX rng' =
          Inr (fconvert (if ftz CTX then fconvert (FTZ (fconvert R :: ('e, 'm) ieee)) else R), rng')"
    using p by (subst MCA_BINARY_OP_ieee [OF _ da db]) simp_all
  with l show ?thesis by simp
qed

lemma FPCLASSIFY_default_nan: "FPCLASSIFY (default_nan :: ('e::len, 'm::len) ieee) = FP_NAN"
  by (simp add: FPCLASSIFY_def default_nan_def exponent_def mantissa_def quiet_bit_nonzero)

lemma init_context_sel:
  "relErr init_context" "\<not> absErr init_context" "absErr_exp init_context = 112"
  "\<not> choose_seed init_context" "seed init_context = 0" "\<not> daz init_context"
  "\<not> ftz init_context" "sparsity init_context = one"
  by (simp_all add: init_context_def)

lemma INEXACT_daz_ftz [simp]:
  "INEXACT NOISE env g X t (CTX\<lparr>daz := v\<rparr>) rng = INEXACT NOISE env g X t CTX rng"
  "INEXACT NOISE env g X t (CTX\<lparr>ftz := v\<rparr>) rng = INEXACT NOISE env g X t CTX rng"
  by (simp_all add: INEXACT_def Let_def split_beta)

lemma sign_signed_zero [simp]: "sign (signed_zero s :: ('e::len, 'm::len) ieee) = s"
  by (simp add: sign_def signed_zero_def)

lemma fconvert_signed_zero:
  "(fconvert (signed_zero s :: ('e::len, 'm::len) ieee) :: ('f::len, 'n::len) ieee) =
     signed_zero s"
  by (simp add: fconvert_def FPCLASSIFY_signed_zero)

lemma convert_FTZ_subnormal:
  fixes r :: "('e::len, 'm::len) ieee"
  assumes "FPCLASSIFY r = FP_SUBNORMAL"
  shows "(fconvert (fconvert (FTZ r) :: ('f::len, 'n::len) ieee) :: ('e, 'm) ieee) =
           signed_zero (sign r)"
  using assms
  by (simp add: FTZ_def fconvert_signed_zero)

lemma MCA_BINARY_OP_daz:
  fixes A B :: "('e::len, 'm::len) ieee"
    and NOISE :: "platform \<Rightarrow> int \<Rightarrow> rng_state_t \<Rightarrow> ('f::len, 'n::len) ieee \<times> rng_state_t"
  shows "MCA_BINARY_OP (\<lambda>env g X. INEXACT NOISE env g X (T g)) env g A B OP CTX rng =
         MCA_BINARY_OP (\<lambda>env g X. INEXACT NOISE env g X (T g)) env g
           (if daz CTX then DAZ A else A) (if daz CTX then DAZ B else B) OP
           (CTX\<lparr>daz := False\<rparr>) rng"
  by (cases "MCALIB_MODE g"; cases "daz CTX")
     (simp_all add: MCA_BINARY_OP_def Let_def split_beta cong: sum.case_cong)

lemma MCA_BINARY_OP_ftz:
  fixes A B :: "('e::len, 'm::len) ieee"
    and NOISE :: "platform \<Rightarrow> int \<Rightarrow> rng_state_t \<Rightarrow> ('f::len, 'n::len) ieee \<times> rng_state_t"
  shows "MCA_BINARY_OP (\<lambda>env g X. INEXACT NOISE env g X (T g)) env g A B OP CTX rng =
         map_sum id
           (\<lambda>(r, s). (if ftz CTX then fconvert (fconvert (FTZ r) :: ('f, 'n) ieee) else r, s))
           (MCA_BINARY_OP (\<lambda>env g X. INEXACT NOISE env g X (T g)) env g A B OP
              (CTX\<lparr>ftz := False\<rparr>) rng)"
  by (cases "MCALIB_MODE g"; cases "ftz CTX")
     (simp_all add: MCA_BINARY_OP_def Let_def split_beta split: sum.splits cong: sum.case_cong)

lemma init_context_daz_False [simp]: "init_context\<lparr>daz := False\<rparr> = init_context"
  by (simp add: init_context_def)

lemma init_context_ftz_False [simp]: "init_context\<lparr>ftz := False\<rparr> = init_context"
  by (simp add: init_context_def)

lemma add_zero_zero: "fadd (signed_zero False) (signed_zero False) = (signed_zero False :: ('e::len, 'm::len) ieee)"
  by (simp add: fadd_def is_nan_def is_inf_def FPCLASSIFY_signed_zero)
     (simp add: valof_def signed_zero_def exponent_def mantissa_def sign_def)

lemma DAZ_signed_zero [simp]: "DAZ (signed_zero s) = signed_zero s"
  by (simp add: DAZ_def FPCLASSIFY_signed_zero)

lemma FTZ_signed_zero [simp]: "FTZ (signed_zero s) = signed_zero s"
  by (simp add: FTZ_def FPCLASSIFY_signed_zero)

lemma class_one: "FPCLASSIFY (one :: binary128) = FP_NORMAL" "FPCLASSIFY (one :: binary64) = FP_NORMAL"
  "FPCLASSIFY (one :: binary32) = FP_NORMAL"
  by (simp_all add: FPCLASSIFY_def one_def exponent_def mantissa_def EXP_COMP_def)

lemma GET_EXP_one: "GET_EXP_FLT (one :: binary128) = 0" "GET_EXP_FLT (one :: binary64) = 0"
  by (simp_all add: GET_EXP_FLT_def one_def exponent_def EXP_COMP_def)

lemma static_globals_sel:
  "MCALIB_MODE static_globals = mcamode_mca" "MCALIB_BINARY32_T static_globals = 24"
  "MCALIB_BINARY64_T static_globals = 53"
  by (simp_all add: static_globals_def MCA_MODE_DEFAULT_def MCA_PRECISION_BINARY32_DEFAULT_def
      MCA_PRECISION_BINARY64_DEFAULT_def)

lemma FAST_INEXACT_applies:
  assumes "\<not> IS_IEEE_MODE g" "\<not> IS_NOT_NORMAL_OR_SUBNORMAL X"
  shows "FAST_INEXACT NOISE env g X t ctx rng =
     (let (n, r) = NOISE env (GET_EXP_FLT X - (t - 1))
                    (init_rng_state_struct rng (choose_seed ctx) (seed ctx) False)
      in (Some (fadd X n), r))"
  using assms by (simp add: FAST_INEXACT_def Let_def)

subsection \<open>The perturbed path in mode rr\<close>

lemma MCA_BINARY_OP_rr:
  fixes A B :: "('e::len, 'm::len) ieee" and A0 B0 R :: "('f::len, 'n::len) ieee"
    and IB :: "platform \<Rightarrow> globals \<Rightarrow> ('f::len, 'n::len) ieee \<Rightarrow> t_context \<Rightarrow> rng_state_t \<Rightarrow>
      ('f, 'n) ieee \<times> rng_state_t"
  assumes "MCALIB_MODE g = mcamode_rr"
    and "(if daz CTX then fconvert (DAZ A) else fconvert A) = A0"
    and "(if daz CTX then fconvert (DAZ B) else fconvert B) = B0"
    and "PERFORM_BIN_OP OP A0 B0 = Inr R"
  shows "MCA_BINARY_OP IB env g A B OP CTX rng =
          Inr (fconvert (if ftz CTX
                         then fconvert (FTZ (fconvert (fst (IB env g R CTX rng)) :: ('e, 'm) ieee))
                         else fst (IB env g R CTX rng)),
               snd (IB env g R CTX rng))"
  using assms by (cases "daz CTX") (simp_all add: MCA_BINARY_OP_def Let_def split_beta)

lemma mca_skip_eval_full:
  "fle (one :: binary32) s \<Longrightarrow> mca_skip_eval env s st = (False, st)"
  by (simp add: mca_skip_eval_def)

lemma INEXACT_rr_perturbed:
  assumes "MCALIB_MODE g = mcamode_rr"
    and "FPCLASSIFY X = FP_NORMAL \<or> FPCLASSIFY X = FP_SUBNORMAL"
    and "\<not> IS_REPRESENTABLE X t"
    and "relErr CTX" and "\<not> absErr CTX" and "fle (one :: binary32) (sparsity CTX)"
  shows "INEXACT NOISE env g X t CTX rng =
           (fadd X (fst (NOISE env (GET_EXP_FLT X - (t - 1))
                           (init_rng_state_struct rng (choose_seed CTX) (seed CTX) False))),
            snd (NOISE env (GET_EXP_FLT X - (t - 1))
                   (init_rng_state_struct rng (choose_seed CTX) (seed CTX) False)))"
  using assms
  by (auto simp add: INEXACT_def MUST_NOT_BE_NOISED_def Let_def split_beta mca_skip_eval_full)

subsection \<open>Independence of the entropy source\<close>

text \<open>On a generator state that is seed-determined, every function of the backend
  gives the same result on two platforms that differ only in their entropy source, and
  leaves the state seed-determined.\<close>

lemma init_rng_state_struct_determined [simp]:
  "seed_determined st \<Longrightarrow> init_rng_state_struct st c s v = st"
  by (simp add: init_rng_state_struct_def seed_determined_def)

lemma get_rand_double01_preserves:
  "seed_determined st \<Longrightarrow> seed_determined (snd (get_rand_double01 env st))"
  by (auto simp: get_rand_double01_def seed_determined_def Let_def)

lemma get_rand_double01_determined:
  assumes "generator env1 = generator env2" "thread_id env1 = thread_id env2"
    and "seed_determined st"
  shows "get_rand_double01 env1 st = get_rand_double01 env2 st"
  using assms by (auto simp: get_rand_double01_def seed_determined_def Let_def)

lemma mca_skip_eval_preserves:
  "seed_determined st \<Longrightarrow> seed_determined (snd (mca_skip_eval env s st))"
  by (simp add: mca_skip_eval_def split_beta get_rand_double01_preserves)

lemma mca_skip_eval_determined:
  assumes "generator env1 = generator env2" "thread_id env1 = thread_id env2"
    and "seed_determined st"
  shows "mca_skip_eval env1 s st = mca_skip_eval env2 s st"
  using get_rand_double01_determined [OF assms] by (simp add: mca_skip_eval_def)

lemma noise_preserves:
  "seed_determined st \<Longrightarrow> seed_determined (snd (noise_binary64 env e st))"
  "seed_determined st \<Longrightarrow> seed_determined (snd (noise_binary128 env e st))"
  by (simp_all add: noise_binary64_def noise_binary128_def split_beta Let_def
      get_rand_double01_preserves)

lemma noise_determined:
  assumes "generator env1 = generator env2" "thread_id env1 = thread_id env2"
    and "seed_determined st"
  shows "noise_binary64 env1 e st = noise_binary64 env2 e st"
    and "noise_binary128 env1 e st = noise_binary128 env2 e st"
  using get_rand_double01_determined [OF assms]
  by (simp_all add: noise_binary64_def noise_binary128_def)

lemma INEXACT_preserves:
  assumes P: "\<And>env e st. seed_determined st \<Longrightarrow> seed_determined (snd (NOISE env e st))"
    and S: "seed_determined st"
  shows "seed_determined (snd (INEXACT NOISE env g X t ctx st))"
proof -
  note k = mca_skip_eval_preserves [OF S, of env "sparsity ctx"]
  note n1 = P [OF k, of env "GET_EXP_FLT X - (t - 1)"]
  note n2 = P [OF k, of env "absErr_exp ctx"]
  note n3 = P [OF n1, of env "absErr_exp ctx"]
  show ?thesis
    using S k n1 n2 n3 by (simp add: INEXACT_def Let_def split_beta)
qed

lemma INEXACT_determined:
  assumes E: "generator env1 = generator env2" "thread_id env1 = thread_id env2"
    and N: "\<And>e st. seed_determined st \<Longrightarrow> NOISE env1 e st = NOISE env2 e st"
    and P: "\<And>env e st. seed_determined st \<Longrightarrow> seed_determined (snd (NOISE env e st))"
    and S: "seed_determined st"
  shows "INEXACT NOISE env1 g X t ctx st = INEXACT NOISE env2 g X t ctx st"
proof -
  note k = mca_skip_eval_determined [OF E S, of "sparsity ctx"]
  note kp = mca_skip_eval_preserves [OF S, of env2 "sparsity ctx"]
  note n1 = N [OF kp, of "GET_EXP_FLT X - (t - 1)"]
  note n2 = N [OF kp, of "absErr_exp ctx"]
  note n3 = N [OF P [OF kp], of "absErr_exp ctx" env2 "GET_EXP_FLT X - (t - 1)"]
  show ?thesis
    using S k n1 n2 n3 by (simp add: INEXACT_def Let_def split_beta)
qed

lemma FAST_INEXACT_preserves:
  assumes P: "\<And>env e st. seed_determined st \<Longrightarrow> seed_determined (snd (NOISE env e st))"
    and S: "seed_determined st"
  shows "seed_determined (snd (FAST_INEXACT NOISE env g X t ctx st))"
  using S P [OF S, of env "GET_EXP_FLT X - (t - 1)"]
  by (simp add: FAST_INEXACT_def Let_def split_beta)

lemma FAST_INEXACT_determined:
  assumes N: "\<And>e st. seed_determined st \<Longrightarrow> NOISE env1 e st = NOISE env2 e st"
    and S: "seed_determined st"
  shows "FAST_INEXACT NOISE env1 g X t ctx st = FAST_INEXACT NOISE env2 g X t ctx st"
  using S N [OF S, of "GET_EXP_FLT X - (t - 1)"]
  by (simp add: FAST_INEXACT_def Let_def split_beta)

lemma MCA_BINARY_OP_preserves:
  fixes A B :: "('e::len, 'm::len) ieee"
    and IB :: "platform \<Rightarrow> globals \<Rightarrow> ('f::len, 'n::len) ieee \<Rightarrow> t_context \<Rightarrow> rng_state_t \<Rightarrow>
      ('f, 'n) ieee \<times> rng_state_t"
  assumes P: "\<And>X st. seed_determined st \<Longrightarrow> seed_determined (snd (IB env g X ctx st))"
    and S: "seed_determined st"
    and R: "MCA_BINARY_OP IB env g A B OP ctx st = Inr (r, st1)"
  shows "seed_determined st1"
proof -
  define A0 :: "('f, 'n) ieee" where "A0 = (if daz ctx then fconvert (DAZ A) else fconvert A)"
  define B0 :: "('f, 'n) ieee" where "B0 = (if daz ctx then fconvert (DAZ B) else fconvert B)"
  note a = P [OF S, of A0]
  note b = P [OF a, of B0]
  note r2 = P [OF b]
  note r0 = P [OF S]
  show ?thesis
    using R S a b r2 r0
    unfolding MCA_BINARY_OP_def A0_def [symmetric] B0_def [symmetric]
    by (auto simp: Let_def split_beta split: sum.splits if_splits)
qed

lemma MCA_BINARY_OP_determined:
  fixes A B :: "('e::len, 'm::len) ieee"
    and IB :: "platform \<Rightarrow> globals \<Rightarrow> ('f::len, 'n::len) ieee \<Rightarrow> t_context \<Rightarrow> rng_state_t \<Rightarrow>
      ('f, 'n) ieee \<times> rng_state_t"
  assumes I: "\<And>X st. seed_determined st \<Longrightarrow> IB env1 g X ctx st = IB env2 g X ctx st"
    and P: "\<And>env X st. seed_determined st \<Longrightarrow> seed_determined (snd (IB env g X ctx st))"
    and S: "seed_determined st"
  shows "MCA_BINARY_OP IB env1 g A B OP ctx st = MCA_BINARY_OP IB env2 g A B OP ctx st"
proof -
  define A0 :: "('f, 'n) ieee" where "A0 = (if daz ctx then fconvert (DAZ A) else fconvert A)"
  define B0 :: "('f, 'n) ieee" where "B0 = (if daz ctx then fconvert (DAZ B) else fconvert B)"
  note a = I [OF S, of A0]
  note pa = P [OF S, of env2 A0]
  note b = I [OF pa, of B0]
  note pb = P [OF pa, of env2 B0]
  note r2 = I [OF pb]
  note r0 = I [OF S]
  show ?thesis
    using a b r2 r0
    unfolding MCA_BINARY_OP_def A0_def [symmetric] B0_def [symmetric]
    by (cases "MCALIB_MODE g"; cases "ftz ctx")
       (simp_all add: Let_def split_beta cong: sum.case_cong)
qed

lemma mca_inexact_preserves:
  "seed_determined st \<Longrightarrow> seed_determined (snd (mca_inexact_binary64 env g X ctx st))"
  "seed_determined st \<Longrightarrow> seed_determined (snd (mca_inexact_binary128 env g Y ctx st))"
  unfolding mca_inexact_binary64_def mca_inexact_binary128_def
  by (rule INEXACT_preserves; simp add: noise_preserves)+

lemma mca_inexact_determined:
  assumes E: "generator env1 = generator env2" "thread_id env1 = thread_id env2"
    and S: "seed_determined st"
  shows "mca_inexact_binary64 env1 g X ctx st = mca_inexact_binary64 env2 g X ctx st"
    and "mca_inexact_binary128 env1 g Y ctx st = mca_inexact_binary128 env2 g Y ctx st"
  unfolding mca_inexact_binary64_def mca_inexact_binary128_def
  by (rule INEXACT_determined [OF E _ _ S]; simp add: noise_preserves noise_determined [OF E])+

lemma binary_op_preserves:
  "seed_determined st \<Longrightarrow> mca_binary32_binary_op env g a b op ctx st = Inr (r, st1) \<Longrightarrow>
     seed_determined st1"
  "seed_determined st \<Longrightarrow> mca_binary64_binary_op env g c d op ctx st = Inr (q, st1) \<Longrightarrow>
     seed_determined st1"
  unfolding mca_binary32_binary_op_def mca_binary64_binary_op_def
  by (erule (1) MCA_BINARY_OP_preserves [rotated]; simp add: mca_inexact_preserves)+

lemma binary_op_determined:
  assumes E: "generator env1 = generator env2" "thread_id env1 = thread_id env2"
    and S: "seed_determined st"
  shows "mca_binary32_binary_op env1 g a b op ctx st = mca_binary32_binary_op env2 g a b op ctx st"
    and "mca_binary64_binary_op env1 g c d op ctx st = mca_binary64_binary_op env2 g c d op ctx st"
  unfolding mca_binary32_binary_op_def mca_binary64_binary_op_def
  by (rule MCA_BINARY_OP_determined [OF _ _ S];
      simp add: mca_inexact_preserves mca_inexact_determined [OF E])+

lemma interflop_usercall_inexact_preserves:
  "seed_determined st \<Longrightarrow>
     seed_determined (snd (interflop_usercall_inexact env g ctx ap p st))"
  using FAST_INEXACT_preserves [of noise_binary64 st env g _ _ ctx]
    FAST_INEXACT_preserves [of noise_binary128 st env g _ _ ctx]
  by (cases ap) (auto simp: interflop_usercall_inexact_def Let_def split_beta noise_preserves
      split: option.splits)

lemma interflop_usercall_inexact_determined:
  assumes E: "generator env1 = generator env2" "thread_id env1 = thread_id env2"
    and S: "seed_determined st"
  shows "interflop_usercall_inexact env1 g ctx ap p st =
         interflop_usercall_inexact env2 g ctx ap p st"
  using FAST_INEXACT_determined [of noise_binary64 env1 env2 st g _ _ ctx]
    FAST_INEXACT_determined [of noise_binary128 env1 env2 st g _ _ ctx] S
  by (cases ap) (simp_all add: interflop_usercall_inexact_def noise_determined [OF E])

lemma interflop_user_call_preserves:
  "seed_determined st \<Longrightarrow> interflop_user_call env g ctx c st = Inr (g1, c1, st1) \<Longrightarrow>
     seed_determined st1"
  using interflop_usercall_inexact_preserves [of st env g ctx]
  by (cases c) (auto simp: interflop_user_call_def split_beta split: sum.splits)

lemma interflop_user_call_determined:
  assumes E: "generator env1 = generator env2" "thread_id env1 = thread_id env2"
    and S: "seed_determined st"
  shows "interflop_user_call env1 g ctx c st = interflop_user_call env2 g ctx c st"
  using interflop_usercall_inexact_determined [OF E S]
  by (cases c) (simp_all add: interflop_user_call_def)

lemma run_ops_determined:
  assumes E: "generator env1 = generator env2" "thread_id env1 = thread_id env2"
  shows "seed_determined st \<Longrightarrow> run_ops env1 g ctx ops st = run_ops env2 g ctx ops st"
proof (induction ops arbitrary: g st)
  case Nil
  show ?case by simp
next
  case (Cons x ops)
  note S = Cons.prems
  show ?case
  proof (cases x)
    case (float_op a b op)
    show ?thesis
      using binary_op_determined(1) [OF E S, of g a b op ctx]
        binary_op_preserves(1) [OF S, of env2 g a b op ctx] Cons.IH
      by (auto simp: float_op split: sum.splits)
  next
    case (double_op a b op)
    show ?thesis
      using binary_op_determined(2) [OF E S, of g a b op ctx]
        binary_op_preserves(2) [OF S, of env2 g a b op ctx] Cons.IH
      by (auto simp: double_op split: sum.splits)
  next
    case (user_call c)
    show ?thesis
      using interflop_user_call_determined [OF E S, of g ctx c]
        interflop_user_call_preserves [OF S, of env2 g ctx c] Cons.IH
      by (auto simp: user_call split: sum.splits)
  qed
qed

lemma interflop_init_determined:
  assumes "interflop_init argv rng_state0 = Inr (g, ctx, st)" "choose_seed ctx"
  shows "seed_determined st"
  using assms
  by (auto simp: interflop_init_def init_rng_state_struct_def seed_determined_def rng_state0_def
      split: sum.splits)

section \<open>Evaluations at concrete values\<close>

lemma widen_one32: "(fconvert (one :: binary32) :: binary64) = (False, 1023, 0)"
  by (simp add: fp_eval)
lemma add_one_one64: "fadd ((False, 1023, 0)::binary64) (False, 1023, 0) = (False, 1024, 0)"
  by (simp add: fp_eval)
lemma narrow_two64: "(fconvert ((False, 1024, 0)::binary64) :: binary32) = (False, 128, 0)"
  by (simp add: fp_eval)
lemma two64_representable_24: "IS_REPRESENTABLE ((False, 1024, 0)::binary64) 24"
  by (simp add: IS_REPRESENTABLE_def low_bits_zero_def FPCLASSIFY_def exponent_def mantissa_def)
lemma widen_one64: "(fconvert (one :: binary64) :: binary128) = (False, 16383, 0)"
  by (simp add: fp_eval)
lemma add_one_one128: "fadd ((False, 16383, 0)::binary128) (False, 16383, 0) = (False, 16384, 0)"
  by (simp add: fp_eval)
lemma narrow_two128: "(fconvert ((False, 16384, 0)::binary128) :: binary64) = (False, 1024, 0)"
  by (simp add: fp_eval)

lemma mul_inf_zero64: "fmul (fconvert (infinity False :: binary32) :: binary64) (fconvert (signed_zero False :: binary32)) = default_nan"
  by (simp add: fp_eval)

lemma narrow_default_nan64: "(fconvert (default_nan :: binary64) :: binary32) = default_nan"
  by (simp add: fp_eval)

lemma mul_zero_zero128: "fmul (fconvert (signed_zero False :: binary64) :: binary128) (fconvert (signed_zero True :: binary64)) = signed_zero True"
  by (simp add: fp_eval)

lemma narrow_zero128: "(fconvert (signed_zero True :: binary128) :: binary64) = signed_zero True"
  by (simp add: fp_eval)

lemma DAZ_min_subnormal32: "DAZ ((False, 0, 1) :: binary32) = signed_zero False"
  by (simp add: DAZ_def FPCLASSIFY_def exponent_def mantissa_def sign_def)

lemma class_min_subnormal32: "FPCLASSIFY ((False, 0, 1) :: binary32) = FP_SUBNORMAL"
  by (simp add: FPCLASSIFY_def exponent_def mantissa_def)

lemma widen_min_subnormal32: "(fconvert ((False, 0, 1) :: binary32) :: binary64) = (False, 874, 0)"
  by (simp add: fp_eval)

lemma add_min_subnormal_zero64:
  "fadd ((False, 874, 0) :: binary64) (signed_zero False) = (False, 874, 0)"
  by (simp add: fp_eval)

lemma narrow_min_subnormal64: "(fconvert ((False, 874, 0) :: binary64) :: binary32) = (False, 0, 1)"
  by (simp add: fp_eval)

lemma add_min_subnormal_zero32:
  "fadd ((False, 0, 1) :: binary32) (signed_zero False) = (False, 0, 1)"
  by (simp add: fp_eval)

lemma widen_1e20f: "(fconvert ((False, 193, 0x2D78EC) :: binary32) :: binary64) = (False, 1089, 0x5AF1D80000000)"
  by (simp add: fp_eval)

lemma add_1e20_one64:
  "fadd ((False, 1089, 0x5AF1D80000000) :: binary64) (False, 1023, 0) = (False, 1089, 0x5AF1D80000000)"
  by (simp add: fp_eval)

lemma narrow_1e20: "(fconvert ((False, 1089, 0x5AF1D80000000) :: binary64) :: binary32) = (False, 193, 0x2D78EC)"
  by (simp add: fp_eval)

lemma widen_u075: "(fconvert u075 :: binary128) = (False, 16382, 0x8000000000000000000000000000)"
  by (simp add: fp_eval u075_def)

lemma sub_u075_half128:
  "fsub ((False, 16382, 0x8000000000000000000000000000) :: binary128) half = (False, 16381, 0)"
  by (simp add: fp_eval)

lemma noise128_u075:
  "fst (noise_binary128 (constant_platform u075) e (init_rng_state_struct rng_state0 c s False)) =
     (False, 16381 + word_of_int e, 0)"
  by (simp add: noise_binary128_def get_rand_double01_def init_rng_state_struct_def
      rng_state0_def constant_platform_def split_beta widen_u075 sub_u075_half128
      sign_def exponent_def mantissa_def)

lemma add_one_512_128:
  "fadd (one :: binary128) (False, 16392, 0) = (False, 16392, 0x80000000000000000000000000)"
  by (simp add: fp_eval)

lemma add_one_2m44_128:
  "fadd (one :: binary128) (False, 16339, 0) = (False, 16383, 0x100000000000000000)"
  by (simp add: fp_eval)

lemma narrow_one_2m44: "(fconvert ((False, 16383, 0x100000000000000000) :: binary128) :: binary64) = (False, 1023, 256)"
  by (simp add: fp_eval)

lemma fast_quad_m10:
  "fst (FAST_INEXACT noise_binary128 (constant_platform u075) static_globals one (- 10)
          init_context rng_state0) = Some (False, 16392, 0x80000000000000000000000000)"
  using noise128_u075 [of 11 False 0]
  by (simp add: FAST_INEXACT_def IS_IEEE_MODE_def IS_NOT_NORMAL_OR_SUBNORMAL_def class_one
      GET_EXP_one static_globals_sel init_context_sel split_beta add_one_512_128)

lemma fast_quad_43:
  "fst (FAST_INEXACT noise_binary128 (constant_platform u075) static_globals one 43
          init_context rng_state0) = Some (False, 16383, 0x100000000000000000)"
  using noise128_u075 [of "- 42" False 0]
  by (simp add: FAST_INEXACT_def IS_IEEE_MODE_def IS_NOT_NORMAL_OR_SUBNORMAL_def class_one
      GET_EXP_one static_globals_sel init_context_sel split_beta add_one_2m44_128)

lemmas str_eval = strtol_def strtoull_def read_sign_def read_exponent_def isspace_def
  isdigit_def digits_value_def ERANGE_def LONG_MAX_def LONG_MIN_def ULLONG_MAX_def long_to_int_def

lemma strtol_12abc: "strtol ''12abc'' = (12, ''abc'', 0)"
  by (simp add: str_eval)

lemma strtol_24abc: "strtol ''24abc'' = (24, ''abc'', 0)"
  by (simp add: str_eval)

lemma strtol_abc: "strtol ''abc'' = (0, ''abc'', 0)"
  by (simp add: str_eval)

lemma strtoull_xyz: "strtoull ''xyz'' = (0, ''xyz'', 0)"
  by (simp add: str_eval)

lemma strtof_2: "strtof ''2'' = ((False, 128, 0), [], 0)"
  apply (simp add: strtof_def str_eval)
  apply (simp add: fp_eval)
  done

lemma two32_not_le_zero: "\<not> fle ((False, 128, 0) :: binary32) (signed_zero False :: binary32)"
  by (simp add: fp_eval)

lemma one32_le_two32: "fle (one :: binary32) ((False, 128, 0) :: binary32)"
  by (simp add: fp_eval)

lemma strtoull_1: "strtoull ''1'' = (1, [], 0)"
  by (simp add: str_eval)

lemma interflop_init_seed_1:
  "interflop_init [(KEY_SEED, ''1'')] rng_state0 =
     Inr (static_globals, init_context\<lparr>choose_seed := True, seed := 1\<rparr>,
          init_rng_state_struct rng_state0 True 1 False)"
  by (simp add: interflop_init_def parse_opt_def strtoull_1 set_mca_precision_binary32_def
        set_mca_precision_binary64_def set_precision_def set_mca_mode_def static_globals_def
        MCA_PRECISION_BINARY32_MIN_def MCA_PRECISION_BINARY32_MAX_def
        MCA_PRECISION_BINARY64_MIN_def MCA_PRECISION_BINARY64_MAX_def
        MCA_PRECISION_BINARY32_DEFAULT_def MCA_PRECISION_BINARY64_DEFAULT_def
        MCA_MODE_DEFAULT_def)

lemma sub_half_half64: "fsub (half :: binary64) half = (False, 0, 0)"
  by (simp add: fp_eval)

lemma widen_half: "(fconvert (half :: binary64) :: binary128) = (False, 16382, 0)"
  by (simp add: fp_eval)

lemma sub_half_half128: "fsub ((False, 16382, 0) :: binary128) half = (False, 0, 0)"
  by (simp add: fp_eval)

lemma noise64_half:
  "fst (noise_binary64 (constant_platform half) e (init_rng_state_struct rng_state0 c s False)) =
     (False, word_of_int e, 0)"
  by (simp add: noise_binary64_def get_rand_double01_def init_rng_state_struct_def
      rng_state0_def constant_platform_def split_beta sub_half_half64
      sign_def exponent_def mantissa_def)

lemma noise128_half:
  "fst (noise_binary128 (constant_platform half) e (init_rng_state_struct rng_state0 c s False)) =
     (False, word_of_int e, 0)"
  by (simp add: noise_binary128_def get_rand_double01_def init_rng_state_struct_def
      rng_state0_def constant_platform_def split_beta widen_half sub_half_half128
      sign_def exponent_def mantissa_def)

lemma noise64_half0:
  "fst (noise_binary64 (constant_platform half) e rng_state0) = (False, word_of_int e, 0)"
  by (simp add: noise_binary64_def get_rand_double01_def
      rng_state0_def constant_platform_def split_beta sub_half_half64
      sign_def exponent_def mantissa_def)

lemma noise128_half0:
  "fst (noise_binary128 (constant_platform half) e rng_state0) = (False, word_of_int e, 0)"
  by (simp add: noise_binary128_def get_rand_double01_def
      rng_state0_def constant_platform_def split_beta widen_half sub_half_half128
      sign_def exponent_def mantissa_def)

lemma valof_half64: "valof (half :: binary64) = 1 / 2"
  by (simp add: fp_eval)

lemma valof_min_normal64: "valof ((False, 1, 0) :: binary64) = 2 powi (- 1022)"
  by (simp add: fp_eval)

lemma valof_min_normal128: "valof ((False, 1, 0) :: binary128) = 2 powi (- 16382)"
  by (simp add: fp_eval)

lemma valof_2p1002: "valof ((False, 2025, 0) :: binary64) = 2 ^ 1002"
  by (simp add: fp_eval)

lemma widen_2m30: "(fconvert ((False, 97, 0) :: binary32) :: binary64) = (False, 993, 0)"
  by (simp add: fp_eval)

lemma add_one_2m30: "fadd ((False, 1023, 0) :: binary64) (False, 993, 0) = (False, 1023, 0x400000)"
  by (simp add: fp_eval)

lemma valof_one_2m30: "valof ((False, 1023, 0x400000) :: binary64) = 1 + 1 / 2 ^ 30"
  by (simp add: fp_eval)

lemma add_2p1002: "fadd ((False, 1023, 0x400000) :: binary64) (False, 2025, 0) = (False, 2025, 0)"
  by (simp add: fp_eval)

lemma narrow_2p1002: "(fconvert ((False, 2025, 0) :: binary64) :: binary32) = infinity False"
  by (simp add: fp_eval)

lemma init_context_sparsity: "fle (one :: binary32) (sparsity init_context)"
  by (simp add: init_context_sel fle_def is_nan_def is_inf_def fp_eval)

lemma one_2m30_not_representable_24:
  "\<not> IS_REPRESENTABLE ((False, 1023, 0x400000) :: binary64) 24"
  "FPCLASSIFY ((False, 1023, 0x400000) :: binary64) = FP_NORMAL"
  "GET_EXP_FLT ((False, 1023, 0x400000) :: binary64) = 0"
  by (simp_all add: IS_REPRESENTABLE_def low_bits_zero_def GET_EXP_FLT_def fp_eval)

lemma fle_one_one: "fle (one :: binary32) (one :: binary32)"
  by (simp add: fle_def is_nan_def is_inf_def fp_eval)

lemma noise64_half_m23:
  "fst (noise_binary64 (constant_platform half) (- 23) (init_rng_state_struct rng_state0 c s False)) =
     (False, 2025, 0)"
  by (simp add: noise64_half)

lemma rr_one_2m30_half:
  "map_sum id fst (mca_binary32_binary_op (constant_platform half)
     (static_globals\<lparr>MCALIB_MODE := mcamode_rr\<rparr>) one (False, 97, 0) mca_add init_context rng_state0) =
   Inr (infinity False)"
proof -
  have i: "fst (mca_inexact_binary64 (constant_platform half)
      (static_globals\<lparr>MCALIB_MODE := mcamode_rr\<rparr>) (False, 1023, 0x400000) init_context rng_state0) =
      (False, 2025, 0)"
    unfolding mca_inexact_binary64_def
    by (subst INEXACT_rr_perturbed)
      (simp_all add: static_globals_sel init_context_sel init_context_sparsity
        one_2m30_not_representable_24 noise64_half_m23 add_2p1002 fle_one_one)
  show ?thesis
    unfolding mca_binary32_binary_op_def
    by (subst MCA_BINARY_OP_rr [where ?A0.0 = "(False, 1023, 0)" and ?B0.0 = "(False, 993, 0)" and R = "(False, 1023, 0x400000)"])
      (simp_all add: init_context_sel widen_one32 widen_2m30 PERFORM_BIN_OP_def add_one_2m30 i narrow_2p1002)
qed





lemma sub_u075_half64: "fsub u075 half = (False, 1021, 0)"
  by (simp add: fp_eval u075_def)















section \<open>Rounding, exact operations and the scaled draw\<close>

subsection \<open>The binade of a positive real\<close>

lemma two_powi_less_iff [simp]: "(2::real) powi a < 2 powi b \<longleftrightarrow> a < b"
proof
  assume l: "(2::real) powi a < 2 powi b"
  show "a < b"
  proof (rule ccontr)
    assume "\<not> a < b"
    then have "(2::real) powi b \<le> 2 powi a" by (intro power_int_increasing) auto
    with l show False by simp
  qed
next
  assume "a < b"
  then show "(2::real) powi a < 2 powi b" by (intro power_int_strict_increasing) auto
qed

lemma two_powi_le_iff [simp]: "(2::real) powi a \<le> 2 powi b \<longleftrightarrow> a \<le> b"
  using two_powi_less_iff [of b a] by (simp add: not_less [symmetric] del: two_powi_less_iff)

lemma two_powi_pos [simp]: "0 < (2::real) powi a"
  by simp

lemma two_powi_add: "(2::real) powi (a + b) = 2 powi a * 2 powi b"
  by (simp add: power_int_add)

lemma two_powi_diff: "(2::real) powi (a - b) = 2 powi a / 2 powi b"
  by (simp add: power_int_diff)

lemma bitlen_pos: "0 < n \<Longrightarrow> 0 < bitlen n"
  by (subst bitlen.simps) simp

lemma bitlen_bounds: "0 < n \<Longrightarrow> 2 ^ (bitlen n - 1) \<le> n \<and> n < 2 ^ bitlen n"
proof (induction n rule: bitlen.induct)
  case (1 n)
  show ?case
  proof (cases "n div 2 = 0")
    case True
    with 1(2) have "n = 1" by (simp add: div_eq_0_iff)
    then show ?thesis by (simp add: bitlen.simps)
  next
    case False
    then have p: "0 < n div 2" by simp
    from 1(1) [OF _ p] 1(2)
    have ih: "2 ^ (bitlen (n div 2) - 1) \<le> n div 2" "n div 2 < 2 ^ bitlen (n div 2)" by auto
    have b: "bitlen n = Suc (bitlen (n div 2))"
      using 1(2) by (subst bitlen.simps) simp
    have pos: "0 < bitlen (n div 2)" using p by (rule bitlen_pos)
    have "2 * 2 ^ (bitlen (n div 2) - 1) \<le> 2 * (n div 2)" using ih(1) by simp
    also have "\<dots> \<le> n" by simp
    finally have l: "2 ^ (bitlen n - 1) \<le> n"
      using pos by (simp add: b power_Suc [symmetric] del: power_Suc)
    have "n < 2 * (n div 2) + 2" by presburger
    also have "\<dots> \<le> 2 * 2 ^ bitlen (n div 2)" using ih(2) by simp
    finally have u: "n < 2 ^ bitlen n" by (simp add: b)
    from l u show ?thesis ..
  qed
qed

lemma pow2_le_real:
  fixes n k :: nat
  assumes "2 ^ k \<le> n"
  shows "(2::real) ^ k \<le> real n"
proof -
  have "real (2 ^ k) \<le> real n" using assms by (simp only: of_nat_le_iff)
  then show ?thesis by simp
qed

lemma less_pow2_real:
  fixes n k :: nat
  assumes "n < 2 ^ k"
  shows "real n + 1 \<le> 2 ^ k"
proof -
  have "Suc n \<le> 2 ^ k" using assms by simp
  then have "real (Suc n) \<le> real (2 ^ k)" by (simp only: of_nat_le_iff)
  then show ?thesis by simp
qed

lemma two_powi_int_minus_one:
  "0 < k \<Longrightarrow> (2::real) powi (int k - 1) = 2 ^ (k - 1)"
proof -
  assume "0 < k"
  then have "int k - 1 = int (k - 1)" by simp
  then show ?thesis by (simp only: power_int_of_nat)
qed

lemma floor_log2_bounds:
  assumes "0 < x"
  shows "2 powi floor_log2 x \<le> x" and "x < 2 powi (floor_log2 x + 1)"
proof -
  have "2 powi floor_log2 x \<le> x \<and> x < 2 powi (floor_log2 x + 1)"
  proof (cases "1 \<le> x")
    case True
    define n where "n = nat \<lfloor>x\<rfloor>"
    have f: "1 \<le> \<lfloor>x\<rfloor>" using True by (simp add: le_floor_iff)
    have rn: "real n = of_int \<lfloor>x\<rfloor>" unfolding n_def using f by simp
    have n0: "0 < n" unfolding n_def using f by simp
    have n1: "real n \<le> x" by (simp add: rn)
    have n2: "x < real n + 1" by (simp add: rn)
    note b = bitlen_bounds [OF n0]
    have e: "floor_log2 x = int (bitlen n) - 1"
      using True by (simp add: floor_log2_def n_def)
    have p: "0 < bitlen n" using n0 by (rule bitlen_pos)
    have "(2::real) powi (int (bitlen n) - 1) = 2 ^ (bitlen n - 1)"
      using p by (rule two_powi_int_minus_one)
    also have "\<dots> \<le> real n"
      using b by (intro pow2_le_real) simp
    finally have "2 powi (int (bitlen n) - 1) \<le> real n" .
    from this n1 have l: "2 powi floor_log2 x \<le> x" unfolding e by (rule order_trans)
    have "real n + 1 \<le> 2 ^ bitlen n"
      using b by (intro less_pow2_real) simp
    with n2 have "x < 2 ^ bitlen n" by (rule less_le_trans)
    then have u: "x < 2 powi (floor_log2 x + 1)"
      by (simp add: e)
    from l u show ?thesis ..
  next
    case False
    define y where "y = 1 / x"
    have y: "1 < y" using False assms by (simp add: y_def)
    have x: "x = 1 / y" by (simp add: y_def)
    define c where "c = nat (\<lceil>y\<rceil> - 1)"
    have f: "2 \<le> \<lceil>y\<rceil>" using y by (simp add: le_ceiling_iff)
    have rc: "real c = of_int \<lceil>y\<rceil> - 1" unfolding c_def using f by simp
    have c0: "0 < c" unfolding c_def using f by simp
    have c1: "real c < y" unfolding rc using ceiling_correct [of y] by simp
    have c2: "y \<le> real c + 1" by (simp add: rc)
    note b = bitlen_bounds [OF c0]
    have e: "floor_log2 x = - int (bitlen c)"
      using False by (simp add: floor_log2_def c_def y_def)
    have p: "0 < bitlen c" using c0 by (rule bitlen_pos)
    have "real c + 1 \<le> 2 ^ bitlen c"
      using b by (intro less_pow2_real) simp
    with c2 have yu: "y \<le> 2 ^ bitlen c" by (rule order_trans)
    have "1 / 2 ^ bitlen c \<le> 1 / y"
      using yu y by (intro divide_left_mono) simp_all
    moreover have "2 powi floor_log2 x = 1 / (2::real) ^ bitlen c"
      by (simp add: e power_int_minus inverse_eq_divide)
    ultimately have l: "2 powi floor_log2 x \<le> x"
      by (simp only: x [symmetric])
    have "(2::real) ^ (bitlen c - 1) \<le> real c"
      using b by (intro pow2_le_real) simp
    from this c1 have yl: "2 ^ (bitlen c - 1) < y" by (rule le_less_trans)
    have "1 / y < 1 / 2 ^ (bitlen c - 1)"
      using yl y by (intro divide_strict_left_mono) simp_all
    also have "1 / 2 ^ (bitlen c - 1) = (2::real) powi (- (int (bitlen c) - 1))"
      using two_powi_int_minus_one [OF p]
      by (simp only: power_int_minus inverse_eq_divide)
    finally have "x < 2 powi (- (int (bitlen c) - 1))" by (simp only: x [symmetric])
    then have u: "x < 2 powi (floor_log2 x + 1)" by (simp add: e)
    from l u show ?thesis ..
  qed
  then show "2 powi floor_log2 x \<le> x" and "x < 2 powi (floor_log2 x + 1)" by auto
qed

lemma floor_log2_unique:
  assumes "2 powi e \<le> x" "x < 2 powi (e + 1)"
  shows "floor_log2 x = e"
proof -
  have x: "0 < x" using assms(1) by (smt (verit) zero_less_power_int)
  note b = floor_log2_bounds [OF x]
  have "(2::real) powi e < 2 powi (floor_log2 x + 1)" using assms(1) b(2) by (rule le_less_trans)
  then have 1: "e < floor_log2 x + 1" by simp
  have "(2::real) powi floor_log2 x < 2 powi (e + 1)" using b(1) assms(2) by (rule le_less_trans)
  then have 2: "floor_log2 x < e + 1" by simp
  from 1 2 show ?thesis by simp
qed

subsection \<open>Rounding to the format\<close>

lemma round_half_even_of_int [simp]: "round_half_even (of_int n) = n"
  by (simp add: round_half_even_def)

lemma round_half_even_le:
  assumes "y \<le> of_int N"
  shows "round_half_even y \<le> N"
proof -
  have f: "\<lfloor>y\<rfloor> \<le> N" using assms by (simp add: floor_le_iff)
  show ?thesis
  proof (cases "\<lfloor>y\<rfloor> = N")
    case True
    then have "y - of_int \<lfloor>y\<rfloor> \<le> 0" using assms by simp
    then show ?thesis using True by (simp add: round_half_even_def Let_def)
  next
    case False
    with f have "\<lfloor>y\<rfloor> + 1 \<le> N" by simp
    then show ?thesis by (simp add: round_half_even_def Let_def)
  qed
qed

lemma round_half_even_ge:
  assumes "of_int N \<le> y"
  shows "N \<le> round_half_even y"
proof -
  have "N \<le> \<lfloor>y\<rfloor>" using assms by (simp add: le_floor_iff)
  then show ?thesis by (simp add: round_half_even_def Let_def)
qed

lemma round_half_even_error: "\<bar>of_int (round_half_even y) - y\<bar> \<le> 1 / 2"
proof -
  have "of_int \<lfloor>y\<rfloor> \<le> y" "y < of_int \<lfloor>y\<rfloor> + 1" by simp_all
  then show ?thesis by (auto simp add: round_half_even_def Let_def)
qed

lemma uint_word_of_int_small:
  "0 \<le> k \<Longrightarrow> k < 2 ^ LENGTH('a) \<Longrightarrow> uint (word_of_int k :: 'a::len word) = k"
  by (simp add: uint_word_of_int)

lemma unat_word_of_int_small:
  "0 \<le> k \<Longrightarrow> k < 2 ^ LENGTH('a) \<Longrightarrow> unat (word_of_int k :: 'a::len word) = nat k"
  by (simp add: unat_eq_nat_uint uint_word_of_int)

lemma word_of_int_eq_0_small:
  "0 \<le> k \<Longrightarrow> k < 2 ^ LENGTH('a) \<Longrightarrow> (word_of_int k :: 'a::len word) = 0 \<longleftrightarrow> k = 0"
  by (metis uint_word_of_int_small uint_0_eq word_of_int_0)

lemma valof_encode:
  fixes s :: bool and q n :: int
  defines "c \<equiv> (q - QMIN TYPE(('e::len, 'm::len) ieee)) * 2 ^ LENGTH('m) + n"
  assumes q: "QMIN TYPE(('e, 'm) ieee) \<le> q"
    and n: "0 \<le> n" "n \<le> 2 ^ (LENGTH('m) + 1)"
    and nq: "QMIN TYPE(('e, 'm) ieee) < q \<Longrightarrow> 2 ^ LENGTH('m) \<le> n"
    and c: "c < (2 ^ LENGTH('e) - 1) * 2 ^ LENGTH('m)"
  shows "valof ((s, word_of_int (c div 2 ^ LENGTH('m)), word_of_int (c mod 2 ^ LENGTH('m)))
                 :: ('e, 'm) ieee) =
         (if s then - 1 else 1) * real_of_int n * 2 powi q"
proof -
  define P :: int where "P = 2 ^ LENGTH('m)"
  define d where "d = q - QMIN TYPE(('e, 'm) ieee)"
  have P: "0 < P" by (simp add: P_def)
  have d: "0 \<le> d" using q by (simp add: d_def)
  have cd: "c = d * P + n" by (simp add: c_def d_def P_def)
  have ef: "c div P = d + n div P" using P by (simp add: cd)
  have mf: "c mod P = n mod P" by (simp add: cd)
  have c0: "0 \<le> c" using d n P by (simp add: cd)
  have ef0: "0 \<le> c div P" using c0 P by (simp add: pos_imp_zdiv_nonneg_iff)
  have ef1: "c div P < 2 ^ LENGTH('e) - 1"
  proof (rule ccontr)
    assume "\<not> c div P < 2 ^ LENGTH('e) - 1"
    then have "(2 ^ LENGTH('e) - 1) * P \<le> (c div P) * P"
      using P by (intro mult_right_mono) simp_all
    also have "\<dots> \<le> c"
      using div_mult_mod_eq [of c P] pos_mod_sign [OF P, of c] by linarith
    finally show False using c by (simp add: P_def)
  qed
  have mf0: "0 \<le> c mod P" "c mod P < 2 ^ LENGTH('m)"
    using P by (simp_all add: P_def)
  have "unat (word_of_int (c mod P) :: 'm word) = nat (c mod P)"
    using mf0 by (rule unat_word_of_int_small)
  then have um: "(unsigned (word_of_int (c mod P) :: 'm word) :: real) = real_of_int (c mod P)"
    using mf0(1) by (metis of_nat_unat of_nat_nat)
  have ue: "uint (word_of_int (c div P) :: 'e word) = c div P"
    using ef0 ef1 by (intro uint_word_of_int_small) simp_all
  have ze: "(word_of_int (c div P) :: 'e word) = 0 \<longleftrightarrow> c div P = 0"
    using ef0 ef1 by (intro word_of_int_eq_0_small) simp_all
  have n2: "n \<le> 2 * P" using n(2) by (simp add: P_def)
  have RP: "(2::real) ^ LENGTH('m) = real_of_int P" by (simp add: P_def)
  consider (sub) "n < P" | (norm) "P \<le> n" "n < 2 * P" | (top) "n = 2 * P"
    using n2 by linarith
  then have "(if c div P = 0 then real_of_int (c mod P) * 2 powi QMIN TYPE(('e, 'm) ieee)
              else (real_of_int P + real_of_int (c mod P)) *
                   2 powi (c div P - 1 + QMIN TYPE(('e, 'm) ieee))) =
             real_of_int n * 2 powi q"
  proof cases
    case sub
    then have k: "n div P = 0" "n mod P = n" using n(1) by simp_all
    have "d = 0" using nq sub d by (cases "d = 0") (auto simp: d_def P_def)
    then have "q = QMIN TYPE(('e, 'm) ieee)" by (simp add: d_def)
    then show ?thesis using k \<open>d = 0\<close> by (simp add: ef mf)
  next
    case norm
    then have k: "n div P = 1" "n mod P = n - P"
      by (auto intro: int_div_pos_eq [where r = "n - P"] int_mod_pos_eq [where q = 1])
    have "c div P - 1 + QMIN TYPE(('e, 'm) ieee) = q" by (simp add: ef k d_def)
    moreover have "c div P \<noteq> 0" using d by (simp add: ef k)
    ultimately show ?thesis by (simp add: mf k)
  next
    case top
    then have k: "n div P = 2" "n mod P = 0" using P by simp_all
    have e: "c div P - 1 + QMIN TYPE(('e, 'm) ieee) = q + 1" by (simp add: ef k d_def)
    have "c div P \<noteq> 0" using d by (simp add: ef k)
    then show ?thesis by (simp add: mf k e top power_int_add)
  qed
  then show ?thesis
    by (simp add: valof_def sign_def exponent_def mantissa_def ze ue um RP P_def [symmetric]
        del: of_int_power split: if_splits)
qed

lemma quantum_ge_QMIN: "QMIN T \<le> quantum T x"
  by (simp add: quantum_def)

lemma fround_significand_bounds:
  fixes x :: real
  assumes x: "0 < x"
  defines "q \<equiv> quantum TYPE(('e::len, 'm::len) ieee) x"
  defines "n \<equiv> round_half_even (x / 2 powi q)"
  shows "0 \<le> n" and "n \<le> 2 ^ (LENGTH('m) + 1)"
    and "QMIN TYPE(('e, 'm) ieee) < q \<Longrightarrow> 2 ^ LENGTH('m) \<le> n"
proof -
  note b = floor_log2_bounds [OF x]
  have "of_int 0 \<le> x / 2 powi q" using x by simp
  then show "0 \<le> n" unfolding n_def by (rule round_half_even_ge)
  have "floor_log2 x - int LENGTH('m) \<le> q" by (simp add: q_def quantum_def)
  then have "floor_log2 x + 1 \<le> q + (int LENGTH('m) + 1)" by simp
  then have "(2::real) powi (floor_log2 x + 1) \<le> 2 powi (q + (int LENGTH('m) + 1))"
    by (simp only: two_powi_le_iff)
  with b(2) have "x < 2 powi (q + (int LENGTH('m) + 1))" by (rule less_le_trans)
  then have "x / 2 powi q < 2 powi (int LENGTH('m) + 1)"
    by (simp add: two_powi_add divide_less_eq mult.commute)
  also have "\<dots> = of_int (2 ^ (LENGTH('m) + 1))"
    by (simp add: power_int_add)
  finally have "x / 2 powi q \<le> of_int (2 ^ (LENGTH('m) + 1))" by simp
  then show "n \<le> 2 ^ (LENGTH('m) + 1)" unfolding n_def by (rule round_half_even_le)
  assume "QMIN TYPE(('e, 'm) ieee) < q"
  then have qe: "q = floor_log2 x - int LENGTH('m)" by (simp add: q_def quantum_def max_def split: if_splits)
  have "(2::real) powi (q + int LENGTH('m)) \<le> x" using b(1) by (simp add: qe)
  then have "2 powi (int LENGTH('m)) \<le> x / 2 powi q"
    by (simp add: two_powi_add le_divide_eq mult.commute)
  then have "of_int (2 ^ LENGTH('m)) \<le> x / 2 powi q" by simp
  then show "2 ^ LENGTH('m) \<le> n" unfolding n_def by (rule round_half_even_ge)
qed

text \<open>The code of a rounded value stays below the code of infinity when the value is
  below \<open>2\<close> to the exponent bias.\<close>

lemma fround_no_overflow:
  fixes x :: real
  assumes x: "0 < x" and e: "floor_log2 x < EXP_COMP TYPE('e::len)" and E: "2 \<le> LENGTH('e)"
  defines "q \<equiv> quantum TYPE(('e, 'm::len) ieee) x"
  defines "n \<equiv> round_half_even (x / 2 powi q)"
  shows "(q - QMIN TYPE(('e, 'm) ieee)) * 2 ^ LENGTH('m) + n < (2 ^ LENGTH('e) - 1) * 2 ^ LENGTH('m)"
proof -
  note nb = fround_significand_bounds [OF x, where ?'e = 'e and ?'m = 'm]
  have "(2::int) ^ LENGTH('e) = 2 * 2 ^ (LENGTH('e) - 1)"
    using E by (cases "LENGTH('e)") simp_all
  then have B: "2 * EXP_COMP TYPE('e) = 2 ^ LENGTH('e) - 2" by (simp add: EXP_COMP_def)
  have "(2::int) ^ 1 \<le> 2 ^ (LENGTH('e) - 1)" using E by (intro power_increasing) simp_all
  then have B1: "1 \<le> EXP_COMP TYPE('e)" by (simp add: EXP_COMP_def)
  have "q - QMIN TYPE(('e, 'm) ieee) \<le> 2 ^ LENGTH('e) - 4"
    using e B B1 by (simp add: q_def quantum_def QMIN_def max_def)
  then have "(q - QMIN TYPE(('e, 'm) ieee)) * 2 ^ LENGTH('m) \<le> (2 ^ LENGTH('e) - 4) * 2 ^ LENGTH('m)"
    by (intro mult_right_mono) simp_all
  moreover have "n \<le> 2 * 2 ^ LENGTH('m)" using nb(2) by (simp add: n_def q_def)
  ultimately have "(q - QMIN TYPE(('e, 'm) ieee)) * 2 ^ LENGTH('m) + n \<le>
      (2 ^ LENGTH('e) - 2) * 2 ^ LENGTH('m)"
    by (simp add: algebra_simps)
  also have "\<dots> < (2 ^ LENGTH('e) - 1) * 2 ^ LENGTH('m)"
    by (intro mult_strict_right_mono) simp_all
  finally show ?thesis .
qed

lemma valof_fround:
  fixes x :: real
  assumes x: "0 < x" and e: "floor_log2 x < EXP_COMP TYPE('e::len)" and E: "2 \<le> LENGTH('e)"
  shows "valof (fround s x :: ('e, 'm::len) ieee) =
           (if s then - 1 else 1) *
           real_of_int (round_half_even (x / 2 powi quantum TYPE(('e, 'm) ieee) x)) *
           2 powi quantum TYPE(('e, 'm) ieee) x"
proof -
  define q where "q = quantum TYPE(('e, 'm) ieee) x"
  define n where "n = round_half_even (x / 2 powi q)"
  have qm: "QMIN TYPE(('e, 'm) ieee) \<le> q" by (simp add: q_def quantum_ge_QMIN)
  have n0: "0 \<le> n" and n1: "n \<le> 2 ^ (LENGTH('m) + 1)"
    and n2: "QMIN TYPE(('e, 'm) ieee) < q \<Longrightarrow> 2 ^ LENGTH('m) \<le> n"
    using fround_significand_bounds [OF x, where ?'e = 'e and ?'m = 'm]
    by (simp_all add: q_def n_def)
  have ov: "(q - QMIN TYPE(('e, 'm) ieee)) * 2 ^ LENGTH('m) + n < (2 ^ LENGTH('e) - 1) * 2 ^ LENGTH('m)"
    using fround_no_overflow [OF x e E, where ?'m = 'm] by (simp add: q_def n_def)
  have "fround s x = ((s, word_of_int (((q - QMIN TYPE(('e, 'm) ieee)) * 2 ^ LENGTH('m) + n) div 2 ^ LENGTH('m)),
      word_of_int (((q - QMIN TYPE(('e, 'm) ieee)) * 2 ^ LENGTH('m) + n) mod 2 ^ LENGTH('m))) :: ('e, 'm) ieee)"
    using ov by (simp add: fround_def Let_def q_def [symmetric] n_def [symmetric])
  then show ?thesis
    using valof_encode [of q n s, where ?'e = 'e and ?'m = 'm, OF qm n0 n1 n2 ov]
    by (simp add: q_def [symmetric] n_def [symmetric])
qed

lemma fround_finite:
  fixes x :: real
  assumes x: "0 < x" and e: "floor_log2 x < EXP_COMP TYPE('e::len)" and E: "2 \<le> LENGTH('e)"
  shows "(fround s x :: ('e, 'm::len) ieee) =
     (s,
      word_of_int (((quantum TYPE(('e, 'm) ieee) x - QMIN TYPE(('e, 'm) ieee)) * 2 ^ LENGTH('m) +
         round_half_even (x / 2 powi quantum TYPE(('e, 'm) ieee) x)) div 2 ^ LENGTH('m)),
      word_of_int (((quantum TYPE(('e, 'm) ieee) x - QMIN TYPE(('e, 'm) ieee)) * 2 ^ LENGTH('m) +
         round_half_even (x / 2 powi quantum TYPE(('e, 'm) ieee) x)) mod 2 ^ LENGTH('m)))"
  using fround_no_overflow [OF x e E, where ?'m = 'm]
  by (simp add: fround_def Let_def)

lemma sign_fround: "sign (fround s x) = s"
  by (simp add: fround_def Let_def sign_def infinity_def)

lemma two_powi_quotient:
  assumes "q \<le> z"
  shows "real_of_int j * 2 powi z / 2 powi q = real_of_int (j * 2 ^ nat (z - q))"
proof -
  have "(2::real) powi z = 2 powi q * 2 powi (z - q)"
    by (simp add: two_powi_add [symmetric])
  moreover have "(2::real) powi (z - q) = 2 ^ nat (z - q)"
    using assms by (simp add: power_int_def)
  ultimately show ?thesis by simp
qed

lemma quantum_le_exact:
  fixes x :: real
  assumes j: "0 < j" "j < 2 ^ (LENGTH('m::len) + 1)"
    and z: "QMIN TYPE(('e::len, 'm) ieee) \<le> z"
    and x: "x = real_of_int j * 2 powi z"
  shows "quantum TYPE(('e, 'm) ieee) x \<le> z"
proof -
  have x0: "0 < x" using j by (simp add: x)
  have "real_of_int j < 2 ^ (LENGTH('m) + 1)" using j(2) by (metis of_int_less_numeral_power_cancel_iff)
  then have "x < 2 ^ (LENGTH('m) + 1) * 2 powi z" by (simp add: x)
  also have "\<dots> = 2 powi (int LENGTH('m) + 1 + z)"
    by (simp add: power_int_add)
  finally have "x < 2 powi (int LENGTH('m) + 1 + z)" .
  with floor_log2_bounds(1) [OF x0]
  have "2 powi floor_log2 x < (2::real) powi (int LENGTH('m) + 1 + z)"
    by (rule le_less_trans)
  then have "floor_log2 x < int LENGTH('m) + 1 + z" by (simp only: two_powi_less_iff)
  then show ?thesis using z by (simp add: quantum_def)
qed

text \<open>A value with at most \<open>M + 1\<close> significant bits above the smallest quantum is
  rounded to itself.\<close>

lemma fround_exact:
  fixes x :: real
  assumes j: "0 < j" "j < 2 ^ (LENGTH('m::len) + 1)"
    and z: "QMIN TYPE(('e::len, 'm) ieee) \<le> z"
    and x: "x = real_of_int j * 2 powi z"
    and e: "floor_log2 x < EXP_COMP TYPE('e)" and E: "2 \<le> LENGTH('e)"
  shows "valof (fround s x :: ('e, 'm) ieee) = (if s then - 1 else 1) * x"
proof -
  define q where "q = quantum TYPE(('e, 'm) ieee) x"
  have x0: "0 < x" using j by (simp add: x)
  have qz: "q \<le> z" unfolding q_def using j z x by (rule quantum_le_exact)
  have xq: "x / 2 powi q = real_of_int (j * 2 ^ nat (z - q))"
    unfolding x using qz by (rule two_powi_quotient)
  have "real_of_int (round_half_even (x / 2 powi q)) = x / 2 powi q"
    by (simp only: xq round_half_even_of_int)
  then have "real_of_int (round_half_even (x / 2 powi q)) * 2 powi q = x"
    by simp
  then show ?thesis
    using valof_fround [OF x0 e E, of s, where ?'m = 'm]
    by (simp add: q_def [symmetric] mult.assoc)
qed

text \<open>In the normal range, its exponent field is the biased exponent of the value.\<close>

lemma fround_exact_exponent:
  fixes x :: real
  assumes j: "0 < j" "j < 2 ^ (LENGTH('m::len) + 1)"
    and z: "QMIN TYPE(('e::len, 'm) ieee) \<le> z"
    and x: "x = real_of_int j * 2 powi z"
    and e: "floor_log2 x < EXP_COMP TYPE('e)" and E: "2 \<le> LENGTH('e)"
    and n: "1 - EXP_COMP TYPE('e) \<le> floor_log2 x"
  shows "uint (exponent (fround s x :: ('e, 'm) ieee)) = floor_log2 x + EXP_COMP TYPE('e)"
proof -
  define q where "q = quantum TYPE(('e, 'm) ieee) x"
  define P :: int where "P = 2 ^ LENGTH('m)"
  define n where "n = round_half_even (x / 2 powi q)"
  have P: "0 < P" by (simp add: P_def)
  have x0: "0 < x" using j by (simp add: x)
  have qz: "q \<le> z" unfolding q_def using j z x by (rule quantum_le_exact)
  have qe: "q = floor_log2 x - int LENGTH('m)"
    using n by (simp add: q_def quantum_def QMIN_def)
  have xq: "x / 2 powi q = real_of_int (j * 2 ^ nat (z - q))"
    unfolding x using qz by (rule two_powi_quotient)
  have nx: "real_of_int n = x / 2 powi q" by (simp only: n_def xq round_half_even_of_int)
  note b = floor_log2_bounds [OF x0]
  have "(2::real) powi (q + int LENGTH('m)) \<le> x" using b(1) by (simp add: qe)
  then have "2 powi (int LENGTH('m)) \<le> x / 2 powi q"
    by (simp add: two_powi_add le_divide_eq mult.commute)
  then have "real_of_int P \<le> real_of_int n" by (simp add: nx P_def)
  then have n1: "P \<le> n" by (simp only: of_int_le_iff)
  have "x < 2 powi (q + (int LENGTH('m) + 1))" using b(2) by (simp add: qe add.assoc)
  then have "x / 2 powi q < 2 powi (int LENGTH('m) + 1)"
    by (simp add: two_powi_add divide_less_eq mult.commute)
  then have "real_of_int n < real_of_int (2 * P)" by (simp add: nx P_def power_int_add)
  then have n2: "n < 2 * P" by (simp only: of_int_less_iff)
  have k: "n div P = 1" using n1 n2 by (auto intro: int_div_pos_eq [where r = "n - P"])
  define c where "c = (q - QMIN TYPE(('e, 'm) ieee)) * P + n"
  have cd: "c div P = floor_log2 x + EXP_COMP TYPE('e)"
    using P by (simp add: c_def k qe QMIN_def)
  have "(2::int) ^ LENGTH('e) = 2 * 2 ^ (LENGTH('e) - 1)"
    using E by (cases "LENGTH('e)") simp_all
  then have B: "2 * EXP_COMP TYPE('e) = 2 ^ LENGTH('e) - 2" by (simp add: EXP_COMP_def)
  have "(2::int) ^ 1 \<le> 2 ^ (LENGTH('e) - 1)" using E by (intro power_increasing) simp_all
  then have B1: "1 \<le> EXP_COMP TYPE('e)" by (simp add: EXP_COMP_def)
  have r: "0 \<le> c div P" "c div P < 2 ^ LENGTH('e)"
    using n e B B1 by (simp_all add: cd)
  have "exponent (fround s x :: ('e, 'm) ieee) = word_of_int (c div P)"
    by (simp add: fround_finite [OF x0 e E] exponent_def c_def P_def q_def n_def)
  then have "uint (exponent (fround s x :: ('e, 'm) ieee)) = c div P"
    using r by (simp only: uint_word_of_int_small)
  then show ?thesis by (simp only: cd)
qed

subsection \<open>Normal numbers and their exponent field\<close>

lemma uint_real_mantissa_bounds:
  fixes w :: "'m::len word"
  shows "0 \<le> (unsigned w :: real)" and "(unsigned w :: real) < 2 ^ LENGTH('m)"
proof -
  have r: "(unsigned w :: real) = real (unat w)" by (simp only: of_nat_unat)
  show "0 \<le> (unsigned w :: real)" unfolding r by (rule of_nat_0_le_iff)
  have "unat w < 2 ^ LENGTH('m)" by (rule unsigned_less)
  then have "real (unat w) < real (2 ^ LENGTH('m))" by (simp only: of_nat_less_iff)
  then show "(unsigned w :: real) < 2 ^ LENGTH('m)" by simp
qed


lemma triple_collapse: "(sign d, exponent d, mantissa d) = d"
  by (simp add: sign_def exponent_def mantissa_def)





subsection \<open>The draw minus one half\<close>

lemma valof_fneg: "valof (fneg x) = - valof x"
  by (simp add: valof_def fneg_def sign_def exponent_def mantissa_def)


lemma floor_log2_less:
  assumes "0 < x" "x < 2 powi b"
  shows "floor_log2 x < b"
proof -
  have "2 powi floor_log2 x < (2::real) powi b"
    using floor_log2_bounds(1) [OF assms(1)] assms(2) by (rule le_less_trans)
  then show ?thesis by (simp only: two_powi_less_iff)
qed

lemma floor_log2_ge:
  assumes "0 < x" "2 powi a \<le> x"
  shows "a \<le> floor_log2 x"
proof -
  have "2 powi a < (2::real) powi (floor_log2 x + 1)"
    using assms(2) floor_log2_bounds(2) [OF assms(1)] by (rule le_less_trans)
  then have "a < floor_log2 x + 1" by (simp only: two_powi_less_iff)
  then show ?thesis by simp
qed

lemma uint_minus_one: "uint (- 1 :: 'e::len word) = 2 ^ LENGTH('e) - 1"
  by (simp add: unsigned_minus_1_eq_mask mask_eq_exp_minus_1)

lemma FPCLASSIFY_normal_iff:
  "FPCLASSIFY (x :: ('e::len, 'm::len) ieee) = FP_NORMAL \<longleftrightarrow>
     0 < uint (exponent x) \<and> uint (exponent x) < 2 ^ LENGTH('e) - 1"
proof -
  have a: "exponent x = 0 \<longleftrightarrow> uint (exponent x) = 0" by (metis uint_0_eq word_uint_eq_iff)
  have b: "exponent x = - 1 \<longleftrightarrow> uint (exponent x) = 2 ^ LENGTH('e) - 1"
    by (metis uint_minus_one word_uint_eq_iff)
  have c: "uint (exponent x) \<le> 2 ^ LENGTH('e) - 1"
    using uint_bounded [of "exponent x"] by simp
  have d: "0 \<le> uint (exponent x)" by simp
  have d': "uint (exponent x) \<noteq> 0 \<longleftrightarrow> 0 < uint (exponent x)" using d by linarith
  have c': "uint (exponent x) \<noteq> 2 ^ LENGTH('e) - 1 \<longleftrightarrow> uint (exponent x) < 2 ^ LENGTH('e) - 1"
    using c by linarith
  show ?thesis
    unfolding FPCLASSIFY_def a b by (auto simp add: d' c' split: if_splits)
qed




subsection \<open>The noise and its effect on a sum\<close>








section \<open>Narrowing a result of the working precision\<close>

text \<open>
  The drivers compute at a format of more than twice the precision of the operands and
  narrow the result. The lemmas of this section relate the narrowed result to the
  operation at the width of the operands, bound the error of a narrowing, and evaluate
  the inexact functions on a platform whose generator returns a constant draw.
\<close>

lemma EXP_COMP_double:
  assumes "2 \<le> LENGTH('e::len)"
  shows "2 * EXP_COMP TYPE('e) = 2 ^ LENGTH('e) - 2" and "1 \<le> EXP_COMP TYPE('e)"
proof -
  have "(2::int) ^ LENGTH('e) = 2 * 2 ^ (LENGTH('e) - 1)"
    using assms by (cases "LENGTH('e)") simp_all
  then show "2 * EXP_COMP TYPE('e) = 2 ^ LENGTH('e) - 2" by (simp add: EXP_COMP_def)
  have "(2::int) ^ 1 \<le> 2 ^ (LENGTH('e) - 1)" using assms by (intro power_increasing) simp_all
  then show "1 \<le> EXP_COMP TYPE('e)" by (simp add: EXP_COMP_def)
qed

text \<open>Every finite value is an integer of less than \<open>M + 1\<close> bits times a power of two of
  the exponent range.\<close>

lemma finite_value_rep:
  fixes a :: "('e::len, 'm::len) ieee"
  assumes fin: "exponent a \<noteq> - 1" and E: "2 \<le> LENGTH('e)"
  obtains j z where "\<bar>valof a\<bar> = real_of_int j * 2 powi z" and "0 \<le> j" and "j < 2 ^ (LENGTH('m) + 1)"
    and "QMIN TYPE(('e, 'm) ieee) \<le> z" and "z \<le> EXP_COMP TYPE('e) - int LENGTH('m)"
    and "j = 0 \<longleftrightarrow> FPCLASSIFY a = FP_ZERO"
proof (cases "exponent a = 0")
  case True
  define j where "j = uint (mantissa a)"
  have rj: "real_of_int j = unsigned (mantissa a)" by (simp add: j_def)
  have "0 \<le> (unsigned (mantissa a) :: real)" by (rule uint_real_mantissa_bounds)
  then have "\<bar>valof a\<bar> = real_of_int j * 2 powi QMIN TYPE(('e, 'm) ieee)"
    using True by (simp add: valof_def abs_mult rj)
  moreover have "0 \<le> j" by (simp add: j_def)
  moreover have "j < 2 ^ LENGTH('m)" unfolding j_def by (rule uint_bounded)
  then have "j < 2 ^ (LENGTH('m) + 1)"
    using zero_less_power [of "2::int" "LENGTH('m)"] by (simp del: zero_less_power)
  moreover have "QMIN TYPE(('e, 'm) ieee) \<le> EXP_COMP TYPE('e) - int LENGTH('m)"
    using EXP_COMP_double(2) [OF E] by (simp add: QMIN_def)
  moreover have "j = 0 \<longleftrightarrow> FPCLASSIFY a = FP_ZERO"
    using True by (simp add: FPCLASSIFY_def j_def uint_0_iff)
  ultimately show ?thesis using that [of j "QMIN TYPE(('e, 'm) ieee)"] by simp
next
  case False
  define j where "j = 2 ^ LENGTH('m) + uint (mantissa a)"
  define z where "z = uint (exponent a) - 1 + QMIN TYPE(('e, 'm) ieee)"
  have m: "0 \<le> uint (mantissa a)" "uint (mantissa a) < 2 ^ LENGTH('m)"
    by (simp_all add: uint_bounded)
  have rj: "real_of_int j = 2 ^ LENGTH('m) + unsigned (mantissa a)" by (simp add: j_def)
  have "0 \<le> (unsigned (mantissa a) :: real)" by (rule uint_real_mantissa_bounds)
  then have v: "\<bar>valof a\<bar> = real_of_int j * 2 powi z"
    using False by (simp add: valof_def abs_mult rj z_def)
  have P: "(0::int) < 2 ^ LENGTH('m)" by simp
  have pw: "(2::int) ^ (LENGTH('m) + 1) = 2 * 2 ^ LENGTH('m)" by simp
  have m0: "0 \<le> uint (mantissa a)" by simp
  have j: "0 \<le> j" "j < 2 ^ (LENGTH('m) + 1)" "j \<noteq> 0"
    unfolding j_def pw using m0 m(2) P by linarith+
  have "0 < uint (exponent a)" using False by (simp add: word_greater_zero_iff [symmetric] word_less_def)
  then have z1: "QMIN TYPE(('e, 'm) ieee) \<le> z" by (simp add: z_def)
  have "uint (exponent a) \<noteq> 2 ^ LENGTH('e) - 1"
    using fin by (metis uint_minus_one word_uint_eq_iff)
  moreover have "uint (exponent a) < 2 ^ LENGTH('e)" by (rule uint_bounded)
  ultimately have "uint (exponent a) \<le> 2 ^ LENGTH('e) - 2" by linarith
  then have z2: "z \<le> EXP_COMP TYPE('e) - int LENGTH('m)"
    using EXP_COMP_double(1) [OF E] by (simp add: z_def QMIN_def)
  have c: "j = 0 \<longleftrightarrow> FPCLASSIFY a = FP_ZERO"
    using False j(3) by (simp add: FPCLASSIFY_def)
  show ?thesis using that [of j z] v j z1 z2 c by simp
qed

lemma valof_sign_abs: "valof a = (if sign a then - 1 else 1) * \<bar>valof a\<bar>"
proof -
  have "0 \<le> (unsigned (mantissa a) :: real)" by (rule uint_real_mantissa_bounds)
  then show ?thesis by (simp add: valof_def abs_mult)
qed

lemma finite_iff: "exponent a \<noteq> - 1 \<longleftrightarrow> \<not> is_nan a \<and> \<not> is_inf a"
  by (simp add: is_nan_def is_inf_def FPCLASSIFY_def)

lemma is_zero_valof:
  fixes a :: "('e::len, 'm::len) ieee"
  assumes "exponent a \<noteq> - 1"
  shows "is_zero a \<longleftrightarrow> valof a = 0"
proof -
  have m: "0 \<le> (unsigned (mantissa a) :: real)" by (rule uint_real_mantissa_bounds)
  have "(unsigned (mantissa a) :: real) = real_of_int (uint (mantissa a))" by simp
  then have u: "(unsigned (mantissa a) :: real) = 0 \<longleftrightarrow> mantissa a = 0"
    by (simp only: of_int_eq_0_iff uint_0_iff)
  have "(2::real) ^ LENGTH('m) + unsigned (mantissa a) \<noteq> 0"
    using m by (simp add: add_nonneg_eq_0_iff)
  then show ?thesis using assms u by (simp add: is_zero_def FPCLASSIFY_def valof_def)
qed

lemma rep_bounds:
  fixes x :: real
  assumes x: "x = real_of_int j * 2 powi z" and j: "0 < j" "j < 2 ^ k"
  shows "0 < x" and "2 powi z \<le> x" and "x < 2 powi (z + int k)"
    and "z \<le> floor_log2 x" and "floor_log2 x < z + int k"
proof -
  have "real_of_int 1 \<le> real_of_int j" using j(1) by (simp only: of_int_le_iff)
  then have "1 * 2 powi z \<le> real_of_int j * 2 powi z" by (intro mult_right_mono) simp_all
  then show l: "2 powi z \<le> x" by (simp add: x)
  have "(0::real) < 2 powi z" by simp
  with l show x0: "0 < x" by linarith
  have "real_of_int j < real_of_int (2 ^ k)" using j(2) by (simp only: of_int_less_iff)
  then have "real_of_int j * 2 powi z < 2 ^ k * 2 powi z" by (intro mult_strict_right_mono) simp_all
  also have "\<dots> = 2 powi (z + int k)" by (simp add: power_int_add)
  finally show u: "x < 2 powi (z + int k)" by (simp add: x)
  show "z \<le> floor_log2 x" using x0 l by (rule floor_log2_ge)
  show "floor_log2 x < z + int k" using x0 u by (rule floor_log2_less)
qed

lemma valof_signed_zero [simp]: "valof (signed_zero s) = 0"
  by (simp add: valof_def signed_zero_def exponent_def mantissa_def)

lemma exponent_signed_zero [simp]: "exponent (signed_zero s) = 0"
  by (simp add: signed_zero_def exponent_def)

lemma is_zero_signed_zero [simp]: "is_zero (signed_zero s)"
  by (simp add: is_zero_def FPCLASSIFY_signed_zero)

text \<open>Widening a finite value is exact, when the wide format holds every value of the
  narrow one as a normal number.\<close>

lemma fconvert_finite:
  fixes a :: "('e::len, 'm::len) ieee"
  assumes fin: "exponent a \<noteq> - 1" and E: "2 \<le> LENGTH('e)" and F: "2 \<le> LENGTH('f::len)"
    and M: "LENGTH('m) \<le> LENGTH('n::len)"
    and lo: "1 - EXP_COMP TYPE('f) \<le> QMIN TYPE(('e, 'm) ieee)"
    and hi: "EXP_COMP TYPE('e) < EXP_COMP TYPE('f)"
  shows "valof (fconvert a :: ('f, 'n) ieee) = valof a"
    and "sign (fconvert a :: ('f, 'n) ieee) = sign a"
    and "exponent (fconvert a :: ('f, 'n) ieee) \<noteq> - 1"
    and "is_zero (fconvert a :: ('f, 'n) ieee) \<longleftrightarrow> is_zero a"
proof -
  have c: "FPCLASSIFY a \<noteq> FP_NAN" "FPCLASSIFY a \<noteq> FP_INFINITE"
    using fin by (simp_all add: FPCLASSIFY_def)
  have "valof (fconvert a :: ('f, 'n) ieee) = valof a \<and>
      sign (fconvert a :: ('f, 'n) ieee) = sign a \<and>
      exponent (fconvert a :: ('f, 'n) ieee) \<noteq> - 1 \<and>
      (is_zero (fconvert a :: ('f, 'n) ieee) \<longleftrightarrow> is_zero a)"
  proof (cases "FPCLASSIFY a = FP_ZERO")
    case True
    then have f: "(fconvert a :: ('f, 'n) ieee) = signed_zero (sign a)" by (simp add: fconvert_def)
    have "valof a = 0" using True fin by (simp add: is_zero_valof [symmetric] is_zero_def)
    moreover have "(0 :: 'f word) \<noteq> - 1" by (metis minus_one_neq_zero_word)
    ultimately show ?thesis using True by (simp add: f is_zero_def FPCLASSIFY_signed_zero)
  next
    case False
    then have f: "(fconvert a :: ('f, 'n) ieee) = fround (sign a) \<bar>valof a\<bar>"
      using c by (cases "FPCLASSIFY a") (simp_all add: fconvert_def)
    obtain j z where r: "\<bar>valof a\<bar> = real_of_int j * 2 powi z" "0 \<le> j" "j < 2 ^ (LENGTH('m) + 1)"
      "QMIN TYPE(('e, 'm) ieee) \<le> z" "z \<le> EXP_COMP TYPE('e) - int LENGTH('m)"
      "j = 0 \<longleftrightarrow> FPCLASSIFY a = FP_ZERO"
      using finite_value_rep [OF fin E] by blast
    have j0: "0 < j" using r(2) r(6) False by (cases "j = 0") simp_all
    note b = rep_bounds [OF r(1) j0 r(3)]
    have "(2::int) ^ (LENGTH('m) + 1) \<le> 2 ^ (LENGTH('n) + 1)" using M by (intro power_increasing) simp_all
    then have j2: "j < 2 ^ (LENGTH('n) + 1)" using r(3) by linarith
    have z: "QMIN TYPE(('f, 'n) ieee) \<le> z" using lo r(4) by (simp add: QMIN_def [where ?'e = 'f])
    have e: "floor_log2 \<bar>valof a\<bar> < EXP_COMP TYPE('f)" using b(5) r(5) hi by simp
    have n: "1 - EXP_COMP TYPE('f) \<le> floor_log2 \<bar>valof a\<bar>" using b(4) r(4) lo by simp
    have v: "valof (fconvert a :: ('f, 'n) ieee) = valof a"
      unfolding f fround_exact [OF j0 j2 z r(1) e F] by (rule valof_sign_abs [symmetric])
    have u: "uint (exponent (fconvert a :: ('f, 'n) ieee)) = floor_log2 \<bar>valof a\<bar> + EXP_COMP TYPE('f)"
      unfolding f by (rule fround_exact_exponent [OF j0 j2 z r(1) e F n])
    have cn: "FPCLASSIFY (fconvert a :: ('f, 'n) ieee) = FP_NORMAL"
      unfolding FPCLASSIFY_normal_iff u using e n EXP_COMP_double(1) [OF F] by simp
    then have "exponent (fconvert a :: ('f, 'n) ieee) \<noteq> - 1"
      by (auto simp add: FPCLASSIFY_def split: if_splits)
    then show ?thesis using v cn False by (simp add: f sign_fround is_zero_def)
  qed
  then show "valof (fconvert a :: ('f, 'n) ieee) = valof a"
    and "sign (fconvert a :: ('f, 'n) ieee) = sign a"
    and "exponent (fconvert a :: ('f, 'n) ieee) \<noteq> - 1"
    and "is_zero (fconvert a :: ('f, 'n) ieee) \<longleftrightarrow> is_zero a"
    by simp_all
qed

lemma fround_cong:
  assumes "(quantum TYPE(('e::len, 'm::len) ieee) x - QMIN TYPE(('e, 'm) ieee)) * 2 ^ LENGTH('m) +
             round_half_even (x / 2 powi quantum TYPE(('e, 'm) ieee) x) =
           (quantum TYPE(('e, 'm) ieee) y - QMIN TYPE(('e, 'm) ieee)) * 2 ^ LENGTH('m) +
             round_half_even (y / 2 powi quantum TYPE(('e, 'm) ieee) y)"
  shows "(fround s x :: ('e, 'm) ieee) = fround s y"
  unfolding fround_def Let_def assms ..

lemma round_half_even_nearest:
  assumes "\<bar>t - real_of_int N\<bar> < 1 / 2"
  shows "round_half_even t = N"
proof (cases "real_of_int N \<le> t")
  case True
  have "t < real_of_int N + 1" using assms by linarith
  with True have f: "\<lfloor>t\<rfloor> = N" by (intro floor_unique)
  have "t - real_of_int N < 1 / 2" using assms by linarith
  then show ?thesis by (simp add: round_half_even_def Let_def f)
next
  case False
  have "real_of_int N - 1 \<le> t" "t < real_of_int N - 1 + 1" using assms False by linarith+
  then have "real_of_int (N - 1) \<le> t" "t < real_of_int (N - 1) + 1" by simp_all
  then have f: "\<lfloor>t\<rfloor> = N - 1" by (intro floor_unique)
  have "1 / 2 < t - (real_of_int N - 1)" using assms by linarith
  then have "1 / 2 < t - real_of_int (N - 1)" by simp
  then have "\<not> t - real_of_int (N - 1) < 1 / 2" by linarith
  then show ?thesis using \<open>1 / 2 < t - real_of_int (N - 1)\<close> by (simp add: round_half_even_def Let_def f)
qed

lemma round_half_even_stable:
  assumes d: "\<bar>ty - tx\<bar> \<le> \<delta>" and \<delta>: "\<delta> < 1 / 2"
    and far: "\<delta> < \<bar>tx - (real_of_int \<lfloor>tx\<rfloor> + 1 / 2)\<bar>"
  shows "round_half_even ty = round_half_even tx"
proof -
  define f where "f = \<lfloor>tx\<rfloor>"
  have b: "real_of_int f \<le> tx" "tx < real_of_int f + 1" by (simp_all add: f_def)
  have far': "\<delta> < \<bar>tx - (real_of_int f + 1 / 2)\<bar>" using far by (simp add: f_def)
  show ?thesis
  proof (cases "tx < real_of_int f + 1 / 2")
    case True
    then have "tx - real_of_int f < 1 / 2" by linarith
    then have x: "round_half_even tx = f" by (simp add: round_half_even_def Let_def f_def)
    have "\<bar>ty - real_of_int f\<bar> < 1 / 2" using True far' d \<delta> b by linarith
    then show ?thesis unfolding x by (rule round_half_even_nearest)
  next
    case False
    have "0 \<le> \<delta>" using d by linarith
    then have g: "real_of_int f + 1 / 2 < tx" using False far' by linarith
    then have "\<not> tx - real_of_int f < 1 / 2" "1 / 2 < tx - real_of_int f" by linarith+
    then have x: "round_half_even tx = f + 1" by (simp add: round_half_even_def Let_def f_def)
    have "\<bar>ty - (real_of_int f + 1)\<bar> < 1 / 2" using g far' d \<delta> b by linarith
    then have "\<bar>ty - real_of_int (f + 1)\<bar> < 1 / 2" by simp
    then show ?thesis unfolding x by (rule round_half_even_nearest)
  qed
qed

text \<open>
  Rounding to a wide format and then to a narrow one gives the rounding to the narrow
  format, as long as the value is farther from the midpoint of its two narrow neighbours
  than half a unit in the last place of the wide format.
\<close>

lemma abs_diff_scaled:
  fixes p :: real
  assumes "0 < p"
  shows "\<bar>a - c * p\<bar> / p = \<bar>a / p - c\<bar>"
proof -
  have "(a - c * p) / p = a / p - c" using assms by (simp add: diff_divide_distrib)
  then have "\<bar>a / p - c\<bar> = \<bar>a - c * p\<bar> / \<bar>p\<bar>" by (simp only: abs_divide [symmetric])
  then show ?thesis using assms by simp
qed

lemma double_round:
  fixes x :: real
  assumes x0: "0 < x"
    and pn: "1 - EXP_COMP TYPE('f::len) < floor_log2 x" and po: "floor_log2 x < EXP_COMP TYPE('f)"
    and F: "2 \<le> LENGTH('f)" and M: "LENGTH('m::len) + 2 \<le> LENGTH('n::len)"
    and far: "2 powi (floor_log2 x - int LENGTH('n) - 1) <
              \<bar>x - (real_of_int \<lfloor>x / 2 powi quantum TYPE(('e::len, 'm) ieee) x\<rfloor> + 1 / 2) *
                   2 powi quantum TYPE(('e, 'm) ieee) x\<bar>"
  shows "(fround s \<bar>valof (fround s' x :: ('f, 'n) ieee)\<bar> :: ('e, 'm) ieee) = fround s x"
proof -
  define ex where "ex = floor_log2 x"
  define Qp where "Qp = quantum TYPE(('f, 'n) ieee) x"
  define Qq where "Qq = quantum TYPE(('e, 'm) ieee) x"
  define n where "n = round_half_even (x / 2 powi Qp)"
  define y where "y = \<bar>valof (fround s' x :: ('f, 'n) ieee)\<bar>"
  define P :: int where "P = 2 ^ LENGTH('m)"
  have Qp: "Qp = ex - int LENGTH('n)" using pn by (simp add: Qp_def quantum_def QMIN_def ex_def)
  have Qpm: "QMIN TYPE(('f, 'n) ieee) < Qp" using pn by (simp add: Qp QMIN_def ex_def)
  have Qq: "ex - int LENGTH('m) \<le> Qq" by (simp add: Qq_def quantum_def ex_def)
  have QpQq: "Qp - 1 - Qq < - 1" using Qq M by (simp add: Qp)
  have n0: "0 \<le> n" and n1: "n \<le> 2 ^ (LENGTH('n) + 1)" and n2: "2 ^ LENGTH('n) \<le> n"
    using fround_significand_bounds [OF x0, where ?'e = 'f and ?'m = 'n] Qpm
    by (simp_all add: n_def Qp_def)
  have "valof (fround s' x :: ('f, 'n) ieee) = (if s' then - 1 else 1) * real_of_int n * 2 powi Qp"
    using valof_fround [OF x0 po F, where ?'m = 'n] by (simp add: n_def Qp_def)
  then have y: "y = real_of_int n * 2 powi Qp" using n0 by (simp add: y_def abs_mult)
  have "\<bar>real_of_int n - x / 2 powi Qp\<bar> \<le> 1 / 2" unfolding n_def by (rule round_half_even_error)
  then have "\<bar>real_of_int n - x / 2 powi Qp\<bar> * 2 powi Qp \<le> 1 / 2 * 2 powi Qp"
    by (intro mult_right_mono) simp_all
  moreover have "\<bar>real_of_int n - x / 2 powi Qp\<bar> * 2 powi Qp = \<bar>y - x\<bar>"
  proof -
    have e1: "(real_of_int n - x / 2 powi Qp) * 2 powi Qp = y - x" by (simp add: y field_simps)
    have "\<bar>real_of_int n - x / 2 powi Qp\<bar> * 2 powi Qp =
        \<bar>(real_of_int n - x / 2 powi Qp) * 2 powi Qp\<bar>" by (simp add: abs_mult)
    then show ?thesis by (simp only: e1)
  qed
  moreover have "1 / 2 * (2::real) powi Qp = 2 powi (Qp - 1)" by (simp add: power_int_diff)
  ultimately have err: "\<bar>y - x\<bar> \<le> 2 powi (Qp - 1)" by simp
  have "real_of_int (2 ^ LENGTH('n)) \<le> real_of_int n" using n2 by (simp only: of_int_le_iff)
  then have "2 ^ LENGTH('n) * 2 powi Qp \<le> real_of_int n * 2 powi Qp"
    by (intro mult_right_mono) simp_all
  moreover have "2 ^ LENGTH('n) * (2::real) powi Qp = 2 powi ex" by (simp add: Qp power_int_diff)
  ultimately have ylo: "2 powi ex \<le> y" by (simp add: y)
  then have y0: "0 < y" using two_powi_pos [of ex] by linarith
  have "real_of_int n \<le> real_of_int (2 ^ (LENGTH('n) + 1))" using n1 by (simp only: of_int_le_iff)
  then have "real_of_int n * 2 powi Qp \<le> real_of_int (2 ^ (LENGTH('n) + 1)) * 2 powi Qp"
    by (intro mult_right_mono) simp_all
  also have "real_of_int (2 ^ (LENGTH('n) + 1)) * (2::real) powi Qp = 2 powi (ex + 1)"
    by (simp add: Qp power_int_diff power_int_add)
  finally have yhi: "y \<le> 2 powi (ex + 1)" by (simp only: y)
  note xb = floor_log2_bounds [OF x0, folded ex_def]
  have q0: "(0::real) < 2 powi Qq" by simp
  have dl: "(2::real) powi (Qp - 1 - Qq) < 1 / 2"
  proof -
    have "(2::real) powi (Qp - 1 - Qq) < 2 powi (- 1)" using QpQq by (simp only: two_powi_less_iff)
    then show ?thesis by simp
  qed
  have code: "(quantum TYPE(('e, 'm) ieee) y - QMIN TYPE(('e, 'm) ieee)) * 2 ^ LENGTH('m) +
        round_half_even (y / 2 powi quantum TYPE(('e, 'm) ieee) y) =
      (quantum TYPE(('e, 'm) ieee) x - QMIN TYPE(('e, 'm) ieee)) * 2 ^ LENGTH('m) +
        round_half_even (x / 2 powi quantum TYPE(('e, 'm) ieee) x)"
  proof (cases "quantum TYPE(('e, 'm) ieee) y = Qq")
    case True
    have "\<bar>y / 2 powi Qq - x / 2 powi Qq\<bar> = \<bar>y - x\<bar> / 2 powi Qq"
      by (simp add: diff_divide_distrib [symmetric])
    also have "\<dots> \<le> 2 powi (Qp - 1) / 2 powi Qq" using err by (intro divide_right_mono) simp_all
    also have "\<dots> = 2 powi (Qp - 1 - Qq)" by (simp add: power_int_diff)
    finally have d: "\<bar>y / 2 powi Qq - x / 2 powi Qq\<bar> \<le> 2 powi (Qp - 1 - Qq)" .
    have "2 powi (Qp - 1) / 2 powi Qq <
        \<bar>x - (real_of_int \<lfloor>x / 2 powi Qq\<rfloor> + 1 / 2) * 2 powi Qq\<bar> / 2 powi Qq"
      using far by (intro divide_strict_right_mono) (simp_all add: Qp ex_def Qq_def)
    moreover have "\<bar>x - (real_of_int \<lfloor>x / 2 powi Qq\<rfloor> + 1 / 2) * 2 powi Qq\<bar> / 2 powi Qq =
        \<bar>x / 2 powi Qq - (real_of_int \<lfloor>x / 2 powi Qq\<rfloor> + 1 / 2)\<bar>"
      by (rule abs_diff_scaled [OF q0])
    moreover have "(2::real) powi (Qp - 1) / 2 powi Qq = 2 powi (Qp - 1 - Qq)"
      by (simp add: power_int_diff)
    ultimately have f: "2 powi (Qp - 1 - Qq) <
        \<bar>x / 2 powi Qq - (real_of_int \<lfloor>x / 2 powi Qq\<rfloor> + 1 / 2)\<bar>" by simp
    have "round_half_even (y / 2 powi Qq) = round_half_even (x / 2 powi Qq)"
      using d dl f by (rule round_half_even_stable)
    then show ?thesis by (simp add: True Qq_def [symmetric])
  next
    case False
    have ye: "y = 2 powi (ex + 1)"
    proof (rule ccontr)
      assume "y \<noteq> 2 powi (ex + 1)"
      then have "y < 2 powi (ex + 1)" using yhi by simp
      then have "floor_log2 y = ex" using ylo by (intro floor_log2_unique)
      then show False using False by (simp add: quantum_def Qq_def ex_def)
    qed
    have fy: "floor_log2 y = ex + 1" unfolding ye by (intro floor_log2_unique) simp_all
    have qy: "quantum TYPE(('e, 'm) ieee) y = Qq + 1" and qx: "Qq = ex - int LENGTH('m)"
      using False by (simp_all add: quantum_def fy Qq_def ex_def [symmetric] max_def split: if_splits)
    have "y / 2 powi (Qq + 1) = 2 powi (int LENGTH('m))"
      by (simp add: ye qx power_int_diff power_int_add)
    also have "\<dots> = real_of_int P" by (simp add: P_def)
    finally have ry: "round_half_even (y / 2 powi (Qq + 1)) = P" by (simp only: round_half_even_of_int)
    have "2 powi (ex + 1) - x \<le> 2 powi (Qp - 1)" using err by (simp add: ye abs_le_iff)
    then have "(2 powi (ex + 1) - x) / 2 powi Qq \<le> 2 powi (Qp - 1) / 2 powi Qq"
      by (intro divide_right_mono) simp_all
    moreover have "(2::real) powi (Qp - 1) / 2 powi Qq = 2 powi (Qp - 1 - Qq)"
      by (simp add: power_int_diff)
    moreover have dd: "(2 powi (ex + 1) - x) / 2 powi Qq = real_of_int (2 * P) - x / 2 powi Qq"
    proof -
      have "(2::real) powi (ex + 1) / 2 powi Qq = 2 powi (ex + 1 - Qq)" by (simp only: two_powi_diff)
      also have "\<dots> = 2 powi int (LENGTH('m) + 1)" by (simp add: qx)
      also have "\<dots> = 2 ^ (LENGTH('m) + 1)" by (rule power_int_of_nat)
      also have "\<dots> = real_of_int (2 * P)" by (simp add: P_def)
      finally show ?thesis by (simp only: diff_divide_distrib)
    qed
    ultimately have u: "real_of_int (2 * P) - x / 2 powi Qq < 1 / 2" using dl by linarith
    have "0 < (2 powi (ex + 1) - x) / 2 powi Qq" using xb(2) by simp
    then have "0 < real_of_int (2 * P) - x / 2 powi Qq" by (simp only: dd)
    then have "\<bar>x / 2 powi Qq - real_of_int (2 * P)\<bar> < 1 / 2" using u by linarith
    then have rx: "round_half_even (x / 2 powi Qq) = 2 * P" by (rule round_half_even_nearest)
    have "(Qq + 1 - QMIN TYPE(('e, 'm) ieee)) * 2 ^ LENGTH('m) + P =
        (Qq - QMIN TYPE(('e, 'm) ieee)) * 2 ^ LENGTH('m) + 2 * P"
      by (simp add: P_def algebra_simps)
    then show ?thesis by (simp only: qy ry rx Qq_def [symmetric])
  qed
  show ?thesis unfolding y_def [symmetric] by (rule fround_cong [OF code])
qed

lemma double_round_exact:
  fixes x :: real
  assumes j: "0 < j" "j < 2 ^ (LENGTH('n::len) + 1)"
    and z: "QMIN TYPE(('f::len, 'n) ieee) \<le> z"
    and x: "x = real_of_int j * 2 powi z"
    and e: "floor_log2 x < EXP_COMP TYPE('f)" and F: "2 \<le> LENGTH('f)"
  shows "(fround s \<bar>valof (fround s' x :: ('f, 'n) ieee)\<bar> :: ('e::len, 'm::len) ieee) = fround s x"
proof -
  have "0 < x" using j(1) by (simp add: x)
  then have "\<bar>valof (fround s' x :: ('f, 'n) ieee)\<bar> = x"
    unfolding fround_exact [OF j z x e F] by simp
  then show ?thesis by simp
qed

text \<open>Above the smallest normal binade and below overflow, a rounded value is normal.\<close>

lemma fround_normal:
  fixes x :: real
  assumes x0: "0 < x"
    and pn: "1 - EXP_COMP TYPE('f::len) < floor_log2 x" and po: "floor_log2 x < EXP_COMP TYPE('f)"
    and F: "2 \<le> LENGTH('f)"
  shows "FPCLASSIFY (fround s x :: ('f, 'n::len) ieee) = FP_NORMAL"
proof -
  define q where "q = quantum TYPE(('f, 'n) ieee) x"
  define n where "n = round_half_even (x / 2 powi q)"
  define P :: int where "P = 2 ^ LENGTH('n)"
  define c where "c = (q - QMIN TYPE(('f, 'n) ieee)) * P + n"
  have P: "0 < P" by (simp add: P_def)
  have qm: "QMIN TYPE(('f, 'n) ieee) < q" using pn by (simp add: q_def quantum_def QMIN_def)
  have n0: "0 \<le> n" and n2: "P \<le> n"
    using fround_significand_bounds [OF x0, where ?'e = 'f and ?'m = 'n] qm
    by (simp_all add: n_def q_def P_def)
  have ov: "c < (2 ^ LENGTH('f) - 1) * P"
    using fround_no_overflow [OF x0 po F, where ?'m = 'n] by (simp add: c_def q_def n_def P_def)
  have "1 * P + P \<le> (q - QMIN TYPE(('f, 'n) ieee)) * P + n"
    using qm n2 P by (intro add_mono mult_right_mono) simp_all
  then have "2 * P \<le> c" by (simp add: c_def)
  then have "2 * P div P \<le> c div P" by (intro zdiv_mono1 P)
  then have lo: "0 < c div P" using P by simp
  have hi: "c div P < 2 ^ LENGTH('f) - 1"
  proof (rule ccontr)
    assume "\<not> c div P < 2 ^ LENGTH('f) - 1"
    then have "(2 ^ LENGTH('f) - 1) * P \<le> (c div P) * P"
      using P by (intro mult_right_mono) simp_all
    also have "\<dots> \<le> c"
      using div_mult_mod_eq [of c P] pos_mod_sign [OF P, of c] by linarith
    finally show False using ov by simp
  qed
  have "exponent (fround s x :: ('f, 'n) ieee) = word_of_int (c div P)"
    by (simp add: fround_finite [OF x0 po F] exponent_def c_def P_def q_def n_def)
  moreover have "uint (word_of_int (c div P) :: 'f word) = c div P"
    using lo hi by (intro uint_word_of_int_small) simp_all
  ultimately show ?thesis using lo hi by (simp add: FPCLASSIFY_normal_iff)
qed

lemma multiple_ge:
  fixes v :: real
  assumes "v = real_of_int i * 2 powi k" "v \<noteq> 0"
  shows "2 powi k \<le> \<bar>v\<bar>"
proof -
  have "i \<noteq> 0" using assms by auto
  then have "1 \<le> \<bar>i\<bar>" by simp
  then have "real_of_int 1 \<le> real_of_int \<bar>i\<bar>" by (simp only: of_int_le_iff)
  then have "1 * 2 powi k \<le> real_of_int \<bar>i\<bar> * 2 powi k" by (intro mult_right_mono) simp_all
  then show ?thesis by (simp add: assms(1) abs_mult)
qed

lemma rescale:
  assumes "k \<le> z"
  shows "real_of_int j * 2 powi z = real_of_int (j * 2 ^ nat (z - k)) * 2 powi k"
  using two_powi_quotient [OF assms, of j] by (simp add: field_simps)

lemma near_integer_far_from_half:
  assumes "\<bar>t - real_of_int w\<bar> \<le> \<epsilon>" "\<epsilon> < 1 / 2"
  shows "1 / 2 - \<epsilon> \<le> \<bar>t - (real_of_int \<lfloor>t\<rfloor> + 1 / 2)\<bar>"
proof (cases "real_of_int w \<le> t")
  case True
  have "t < real_of_int w + 1" using assms by linarith
  with True have f: "\<lfloor>t\<rfloor> = w" by (intro floor_unique)
  show ?thesis unfolding f using assms True by linarith
next
  case False
  have "real_of_int w - 1 \<le> t" "t < real_of_int w - 1 + 1" using assms False by linarith+
  then have "real_of_int (w - 1) \<le> t" "t < real_of_int (w - 1) + 1" by simp_all
  then have f: "\<lfloor>t\<rfloor> = w - 1" by (intro floor_unique)
  show ?thesis unfolding f of_int_diff of_int_1 using assms False by linarith
qed

text \<open>A sum with a term below the last place of the wide format is far from the
  midpoints of the narrow format.\<close>

lemma add_far:
  fixes va vb x :: real
  assumes a: "va = real_of_int ia * 2 powi za" "\<bar>ia\<bar> < 2 ^ (LENGTH('m::len) + 1)"
      "QMIN TYPE(('e::len, 'm) ieee) \<le> za"
    and b: "vb = real_of_int ib * 2 powi zb" "\<bar>ib\<bar> < 2 ^ (LENGTH('m) + 1)"
    and x: "x = \<bar>va + vb\<bar>" "0 < x"
    and zb: "zb < floor_log2 x - int LENGTH('n::len)"
    and M: "2 * LENGTH('m) + 3 \<le> LENGTH('n)"
  shows "2 powi (floor_log2 x - int LENGTH('n) - 1) <
         \<bar>x - (real_of_int \<lfloor>x / 2 powi quantum TYPE(('e, 'm) ieee) x\<rfloor> + 1 / 2) *
              2 powi quantum TYPE(('e, 'm) ieee) x\<bar>"
proof -
  define ex where "ex = floor_log2 x"
  define Mq where "Mq = int LENGTH('m)"
  define Mp where "Mp = int LENGTH('n)"
  define Qq where "Qq = quantum TYPE(('e, 'm) ieee) x"
  define \<alpha> where "\<alpha> = \<bar>va\<bar>"
  define \<beta> where "\<beta> = \<bar>vb\<bar>"
  have MM: "2 * Mq + 3 \<le> Mp" using M by (simp add: Mq_def Mp_def)
  have zb': "zb < ex - Mp" using zb by (simp add: ex_def Mp_def)
  note xb = floor_log2_bounds [OF x(2), folded ex_def]
  have \<alpha>: "\<alpha> = real_of_int \<bar>ia\<bar> * 2 powi za" by (simp add: \<alpha>_def a(1) abs_mult)
  have \<beta>: "\<beta> = real_of_int \<bar>ib\<bar> * 2 powi zb" by (simp add: \<beta>_def b(1) abs_mult)
  have "real_of_int \<bar>ib\<bar> < real_of_int (2 ^ (LENGTH('m) + 1))" using b(2) by (simp only: of_int_less_iff)
  then have "\<beta> < real_of_int (2 ^ (LENGTH('m) + 1)) * 2 powi zb"
    unfolding \<beta> by (intro mult_strict_right_mono) simp_all
  also have "real_of_int (2 ^ (LENGTH('m) + 1)) * 2 powi zb = 2 powi (zb + Mq + 1)"
    by (simp add: Mq_def power_int_add)
  also have "\<dots> \<le> 2 powi (ex - Mq - 3)" using zb' MM by simp
  finally have \<beta>s: "\<beta> < 2 powi (ex - Mq - 3)" .
  have \<beta>0: "0 \<le> \<beta>" by (simp add: \<beta>_def)
  have "real_of_int \<bar>ia\<bar> < real_of_int (2 ^ (LENGTH('m) + 1))" using a(2) by (simp only: of_int_less_iff)
  moreover have "\<alpha> \<noteq> 0 \<Longrightarrow> real_of_int \<bar>ia\<bar> \<noteq> 0" by (auto simp add: \<alpha>)
  ultimately have \<alpha>u: "\<alpha> < 2 powi (za + Mq + 1)"
  proof -
    have "\<alpha> \<le> real_of_int \<bar>ia\<bar> * 2 powi za" by (simp add: \<alpha>)
    also have "\<dots> < real_of_int (2 ^ (LENGTH('m) + 1)) * 2 powi za"
      using \<open>real_of_int \<bar>ia\<bar> < real_of_int (2 ^ (LENGTH('m) + 1))\<close>
      by (intro mult_strict_right_mono) simp_all
    also have "\<dots> = 2 powi (za + Mq + 1)" by (simp add: Mq_def power_int_add)
    finally show ?thesis .
  qed
  have d: "\<bar>x - \<alpha>\<bar> \<le> \<beta>"
    unfolding x(1) \<alpha>_def \<beta>_def using abs_triangle_ineq3 [of "va + vb" va] by simp
  have za: "ex - Mq \<le> za"
  proof (rule ccontr)
    assume "\<not> ex - Mq \<le> za"
    then have c: "za \<le> ex - Mq - 1" by simp
    have "(2::real) powi (ex - Mq - 3) \<le> 2 powi (ex - 1) / 2"
    proof -
      have "(2::real) powi (ex - Mq - 3) \<le> 2 powi (ex - 2)" by (simp add: Mq_def)
      also have "\<dots> = 2 powi (ex - 1) / 2" by (simp add: power_int_diff)
      finally show ?thesis .
    qed
    moreover have "(2::real) powi ex = 2 * 2 powi (ex - 1)" by (simp add: power_int_diff)
    ultimately have "2 powi (ex - 1) < \<alpha>" using d \<beta>s xb(1) two_powi_pos [of "ex - 1"] by linarith
    then have "(2::real) powi (ex - 1) < 2 powi (za + Mq + 1)" using \<alpha>u by linarith
    then have "ex - 1 < za + Mq + 1" by (simp only: two_powi_less_iff)
    then have ze: "za = ex - Mq - 1" using c by simp
    have "(2::real) powi (za + Mq + 1) = 2 powi ex" by (simp add: ze)
    then have l: "\<alpha> < 2 powi ex" using \<alpha>u by simp
    have "za \<le> ex" using c by (simp add: Mq_def)
    then have "(2::real) powi ex = real_of_int (1 * 2 ^ nat (ex - za)) * 2 powi za"
      using rescale [of za ex 1] by simp
    then have "2 powi ex - \<alpha> = real_of_int (1 * 2 ^ nat (ex - za) - \<bar>ia\<bar>) * 2 powi za"
      by (simp add: \<alpha> algebra_simps)
    moreover have "2 powi ex - \<alpha> \<noteq> 0" using l by simp
    ultimately have "2 powi za \<le> \<bar>2 powi ex - \<alpha>\<bar>" by (rule multiple_ge)
    then have "2 powi za \<le> \<beta>" using l d xb(1) by linarith
    moreover have "(2::real) powi (ex - Mq - 3) < 2 powi za" by (simp add: ze)
    ultimately show False using \<beta>s by linarith
  qed
  have Qq: "Qq \<le> za" "ex - Mq \<le> Qq"
    using za a(3) by (simp_all add: Qq_def quantum_def ex_def Mq_def)
  define w where "w = \<bar>ia\<bar> * 2 ^ nat (za - Qq)"
  have \<alpha>w: "\<alpha> = real_of_int w * 2 powi Qq" unfolding \<alpha> w_def using Qq(1) by (rule rescale)
  have q0: "(0::real) < 2 powi Qq" by simp
  have "\<bar>x / 2 powi Qq - real_of_int w\<bar> = \<bar>x - real_of_int w * 2 powi Qq\<bar> / 2 powi Qq"
    by (rule abs_diff_scaled [OF q0, symmetric])
  also have "\<dots> \<le> \<beta> / 2 powi Qq" using d by (intro divide_right_mono) (simp_all add: \<alpha>w)
  finally have t1: "\<bar>x / 2 powi Qq - real_of_int w\<bar> \<le> \<beta> / 2 powi Qq" .
  have "\<beta> / 2 powi Qq < 2 powi (ex - Mq - 3) / 2 powi Qq"
    using \<beta>s by (intro divide_strict_right_mono) simp_all
  also have "\<dots> = 2 powi (ex - Mq - 3 - Qq)" by (simp only: two_powi_diff)
  also have "\<dots> \<le> 2 powi (- 3)"
  proof -
    have "ex - Mq - 3 - Qq \<le> - 3" using Qq(2) by simp
    then show ?thesis by (simp only: two_powi_le_iff)
  qed
  finally have t2: "\<beta> / 2 powi Qq < 1 / 8" by simp
  then have "\<beta> / 2 powi Qq < 1 / 2" by linarith
  with t1 have "1 / 2 - \<beta> / 2 powi Qq \<le> \<bar>x / 2 powi Qq - (real_of_int \<lfloor>x / 2 powi Qq\<rfloor> + 1 / 2)\<bar>"
    by (rule near_integer_far_from_half)
  then have "1 / 4 < \<bar>x / 2 powi Qq - (real_of_int \<lfloor>x / 2 powi Qq\<rfloor> + 1 / 2)\<bar>"
    using t2 by linarith
  then have "1 / 4 < \<bar>x - (real_of_int \<lfloor>x / 2 powi Qq\<rfloor> + 1 / 2) * 2 powi Qq\<bar> / 2 powi Qq"
    by (simp only: abs_diff_scaled [OF q0])
  then have "1 / 4 * 2 powi Qq < \<bar>x - (real_of_int \<lfloor>x / 2 powi Qq\<rfloor> + 1 / 2) * 2 powi Qq\<bar>"
    using q0 by (simp only: pos_less_divide_eq)
  moreover have "1 / 4 * (2::real) powi Qq = 2 powi (Qq - 2)" by (simp add: power_int_diff)
  moreover have "(2::real) powi (ex - Mp - 1) \<le> 2 powi (Qq - 2)"
  proof -
    have "0 \<le> Mq" by (simp add: Mq_def)
    then have "ex - Mp - 1 \<le> Qq - 2" using Qq(2) MM by linarith
    then show ?thesis by (simp only: two_powi_le_iff)
  qed
  ultimately have "2 powi (ex - Mp - 1) <
      \<bar>x - (real_of_int \<lfloor>x / 2 powi Qq\<rfloor> + 1 / 2) * 2 powi Qq\<bar>" by linarith
  then show ?thesis by (simp only: ex_def Mp_def Qq_def)
qed

lemma int_less_of_real_less:
  fixes J :: int
  assumes "real_of_int J * 2 powi q < 2 powi (q + int k)"
  shows "J < 2 ^ k"
proof -
  have "real_of_int J * 2 powi q < real_of_int (2 ^ k) * 2 powi q"
    using assms by (simp add: power_int_add mult.commute)
  then have "real_of_int J < real_of_int (2 ^ k)" by (simp only: mult_less_cancel_right_pos two_powi_pos)
  then show ?thesis by (simp only: of_int_less_iff)
qed

lemma magnitude_bound:
  fixes v :: real
  assumes "v = real_of_int i * 2 powi z" "\<bar>i\<bar> < 2 ^ k"
  shows "\<bar>v\<bar> < 2 powi (z + int k)"
proof -
  have "real_of_int \<bar>i\<bar> < real_of_int (2 ^ k)" using assms(2) by (simp only: of_int_less_iff)
  then have "real_of_int \<bar>i\<bar> * 2 powi z < real_of_int (2 ^ k) * 2 powi z"
    by (intro mult_strict_right_mono) simp_all
  also have "\<dots> = 2 powi (z + int k)" by (simp add: power_int_add)
  finally show ?thesis by (simp add: assms(1) abs_mult)
qed

text \<open>Sums of two finite values of the narrow format.\<close>

lemma double_round_add:
  fixes va vb :: real
  assumes a: "va = real_of_int ia * 2 powi za" "\<bar>ia\<bar> < 2 ^ (LENGTH('m::len) + 1)"
      "QMIN TYPE(('e::len, 'm) ieee) \<le> za" "za \<le> EXP_COMP TYPE('e) - int LENGTH('m)"
    and b: "vb = real_of_int ib * 2 powi zb" "\<bar>ib\<bar> < 2 ^ (LENGTH('m) + 1)"
      "QMIN TYPE(('e, 'm) ieee) \<le> zb" "zb \<le> EXP_COMP TYPE('e) - int LENGTH('m)"
    and nz: "va + vb \<noteq> 0"
    and Fm: "2 * LENGTH('m) + 3 \<le> LENGTH('n::len)"
    and Fe: "2 * EXP_COMP TYPE('e) + 2 * int LENGTH('m) + 2 \<le> EXP_COMP TYPE('f::len)"
    and E: "2 \<le> LENGTH('e)" and F: "2 \<le> LENGTH('f)"
  shows "(fround s \<bar>valof (fround s' \<bar>va + vb\<bar> :: ('f, 'n) ieee)\<bar> :: ('e, 'm) ieee) =
         fround s \<bar>va + vb\<bar>"
    and "FPCLASSIFY (fround s' \<bar>va + vb\<bar> :: ('f, 'n) ieee) = FP_NORMAL"
proof -
  define x where "x = \<bar>va + vb\<bar>"
  define ex where "ex = floor_log2 x"
  define Qp where "Qp = ex - int LENGTH('n)"
  have x0: "0 < x" using nz by (simp add: x_def)
  note xb = floor_log2_bounds [OF x0, folded ex_def]
  note B = EXP_COMP_double [OF E]
  define k where "k = min za zb"
  have k: "k \<le> za" "k \<le> zb" "QMIN TYPE(('e, 'm) ieee) \<le> k" using a(3) b(3) by (simp_all add: k_def)
  have "va + vb = real_of_int (ia * 2 ^ nat (za - k) + ib * 2 ^ nat (zb - k)) * 2 powi k"
    unfolding a(1) b(1) rescale [OF k(1), of ia] rescale [OF k(2), of ib]
    by (simp only: of_int_add distrib_right)
  then have "2 powi k \<le> \<bar>va + vb\<bar>" using nz by (rule multiple_ge)
  then have "k \<le> ex" unfolding ex_def using x0 by (intro floor_log2_ge) (simp_all add: x_def)
  then have lo: "QMIN TYPE(('e, 'm) ieee) \<le> ex" using k(3) by simp
  have pn: "1 - EXP_COMP TYPE('f) < ex" using lo Fe B(2) by (simp add: QMIN_def)
  have "\<bar>va\<bar> < 2 powi (za + int (LENGTH('m) + 1))" using a(1,2) by (rule magnitude_bound)
  moreover have "(2::real) powi (za + int (LENGTH('m) + 1)) \<le> 2 powi (EXP_COMP TYPE('e) + 1)"
    using a(4) by simp
  moreover have "\<bar>vb\<bar> < 2 powi (zb + int (LENGTH('m) + 1))" using b(1,2) by (rule magnitude_bound)
  moreover have "(2::real) powi (zb + int (LENGTH('m) + 1)) \<le> 2 powi (EXP_COMP TYPE('e) + 1)"
    using b(4) by simp
  moreover have "x \<le> \<bar>va\<bar> + \<bar>vb\<bar>" by (simp add: x_def)
  moreover have "(2::real) powi (EXP_COMP TYPE('e) + 2) = 2 * 2 powi (EXP_COMP TYPE('e) + 1)"
    by (simp add: power_int_add)
  ultimately have "x < 2 powi (EXP_COMP TYPE('e) + 2)" by linarith
  then have "ex < EXP_COMP TYPE('e) + 2" unfolding ex_def using x0 by (intro floor_log2_less)
  then have po: "ex < EXP_COMP TYPE('f)" using Fe B(2) by simp
  have M2: "LENGTH('m) + 2 \<le> LENGTH('n)" using Fm by simp
  have "(fround s \<bar>valof (fround s' x :: ('f, 'n) ieee)\<bar> :: ('e, 'm) ieee) = fround s x"
  proof (cases "Qp \<le> za \<and> Qp \<le> zb")
    case True
    define J where "J = ia * 2 ^ nat (za - Qp) + ib * 2 ^ nat (zb - Qp)"
    have ra: "real_of_int ia * 2 powi za = real_of_int (ia * 2 ^ nat (za - Qp)) * 2 powi Qp"
      using True by (intro rescale) simp
    have rb: "real_of_int ib * 2 powi zb = real_of_int (ib * 2 ^ nat (zb - Qp)) * 2 powi Qp"
      using True by (intro rescale) simp
    have "va + vb = real_of_int J * 2 powi Qp"
      unfolding a(1) b(1) ra rb J_def by (simp only: of_int_add distrib_right)
    then have xJ: "x = real_of_int \<bar>J\<bar> * 2 powi Qp" by (simp add: x_def abs_mult)
    have "J \<noteq> 0" using x0 xJ by auto
    then have J0: "0 < \<bar>J\<bar>" by simp
    have "Qp + int (LENGTH('n) + 1) = ex + 1" by (simp add: Qp_def)
    then have "real_of_int \<bar>J\<bar> * 2 powi Qp < 2 powi (Qp + int (LENGTH('n) + 1))"
      using xb(2) by (simp only: xJ [symmetric])
    then have J1: "\<bar>J\<bar> < 2 ^ (LENGTH('n) + 1)" by (rule int_less_of_real_less)
    have z: "QMIN TYPE(('f, 'n) ieee) \<le> Qp" using pn by (simp add: QMIN_def Qp_def)
    show ?thesis
      by (rule double_round_exact [OF J0 J1 z xJ po [unfolded ex_def] F])
  next
    case False
    have far: "2 powi (floor_log2 x - int LENGTH('n) - 1) <
         \<bar>x - (real_of_int \<lfloor>x / 2 powi quantum TYPE(('e, 'm) ieee) x\<rfloor> + 1 / 2) *
              2 powi quantum TYPE(('e, 'm) ieee) x\<bar>"
    proof (cases "zb < Qp")
      case True
      show ?thesis
        by (rule add_far [OF a(1,2,3) b(1,2) x_def x0 True [unfolded Qp_def ex_def] Fm])
    next
      case F2: False
      then have za: "za < floor_log2 x - int LENGTH('n)" using False by (simp add: Qp_def ex_def)
      have x': "x = \<bar>vb + va\<bar>" by (simp add: x_def add.commute)
      show ?thesis
        by (rule add_far [OF b(1,2,3) a(1,2) x' x0 za Fm])
    qed
    show ?thesis
      by (rule double_round [OF x0 pn [unfolded ex_def] po [unfolded ex_def] F M2 far])
  qed
  then show "(fround s \<bar>valof (fround s' \<bar>va + vb\<bar> :: ('f, 'n) ieee)\<bar> :: ('e, 'm) ieee) =
         fround s \<bar>va + vb\<bar>" by (simp only: x_def)
  have "FPCLASSIFY (fround s' x :: ('f, 'n) ieee) = FP_NORMAL"
    by (rule fround_normal [OF x0 pn [unfolded ex_def] po [unfolded ex_def] F])
  then show "FPCLASSIFY (fround s' \<bar>va + vb\<bar> :: ('f, 'n) ieee) = FP_NORMAL"
    by (simp only: x_def)
qed

text \<open>Products: the product of two narrow values is a value of the wide format.\<close>

lemma double_round_mul:
  fixes \<alpha> \<beta> :: real
  assumes a: "\<alpha> = real_of_int ja * 2 powi za" "0 < ja" "ja < 2 ^ (LENGTH('m::len) + 1)"
      "QMIN TYPE(('e::len, 'm) ieee) \<le> za" "za \<le> EXP_COMP TYPE('e) - int LENGTH('m)"
    and b: "\<beta> = real_of_int jb * 2 powi zb" "0 < jb" "jb < 2 ^ (LENGTH('m) + 1)"
      "QMIN TYPE(('e, 'm) ieee) \<le> zb" "zb \<le> EXP_COMP TYPE('e) - int LENGTH('m)"
    and Fm: "2 * LENGTH('m) + 3 \<le> LENGTH('n::len)"
    and Fe: "2 * EXP_COMP TYPE('e) + 2 * int LENGTH('m) + 2 \<le> EXP_COMP TYPE('f::len)"
    and E: "2 \<le> LENGTH('e)" and F: "2 \<le> LENGTH('f)"
  shows "(fround s \<bar>valof (fround s' (\<alpha> * \<beta>) :: ('f, 'n) ieee)\<bar> :: ('e, 'm) ieee) =
         fround s (\<alpha> * \<beta>)"
    and "FPCLASSIFY (fround s' (\<alpha> * \<beta>) :: ('f, 'n) ieee) = FP_NORMAL"
proof -
  note B = EXP_COMP_double [OF E]
  have x: "\<alpha> * \<beta> = real_of_int (ja * jb) * 2 powi (za + zb)"
    unfolding a(1) b(1) two_powi_add by simp
  have j0: "0 < ja * jb" using a(2) b(2) by simp
  have "ja * jb < 2 ^ (LENGTH('m) + 1) * 2 ^ (LENGTH('m) + 1)"
    using a(2,3) b(2,3) by (intro mult_strict_mono) simp_all
  also have "\<dots> = 2 ^ ((LENGTH('m) + 1) + (LENGTH('m) + 1))" by (rule power_add [symmetric])
  also have "(LENGTH('m) + 1) + (LENGTH('m) + 1) = 2 * LENGTH('m) + 2" by simp
  finally have j1: "ja * jb < 2 ^ (2 * LENGTH('m) + 2)" .
  have "(2::int) ^ (2 * LENGTH('m) + 2) \<le> 2 ^ (LENGTH('n) + 1)"
    using Fm by (intro power_increasing) simp_all
  then have j2: "ja * jb < 2 ^ (LENGTH('n) + 1)" using j1 by linarith
  have z: "QMIN TYPE(('f, 'n) ieee) \<le> za + zb"
    using a(4) b(4) Fe Fm by (simp add: QMIN_def)
  have "floor_log2 (\<alpha> * \<beta>) < za + zb + int (2 * LENGTH('m) + 2)"
    by (rule rep_bounds(5) [OF x j0 j1])
  then have e: "floor_log2 (\<alpha> * \<beta>) < EXP_COMP TYPE('f)" using a(5) b(5) Fe by simp
  show "(fround s \<bar>valof (fround s' (\<alpha> * \<beta>) :: ('f, 'n) ieee)\<bar> :: ('e, 'm) ieee) =
         fround s (\<alpha> * \<beta>)"
    by (rule double_round_exact [OF j0 j2 z x e F])
  have "za + zb \<le> floor_log2 (\<alpha> * \<beta>)" by (rule rep_bounds(4) [OF x j0 j1])
  then have pn: "1 - EXP_COMP TYPE('f) < floor_log2 (\<alpha> * \<beta>)"
    using a(4) b(4) Fe by (simp add: QMIN_def)
  have "0 < \<alpha> * \<beta>" by (rule rep_bounds(1) [OF x j0 j1])
  then show "FPCLASSIFY (fround s' (\<alpha> * \<beta>) :: ('f, 'n) ieee) = FP_NORMAL"
    using pn e F by (rule fround_normal)
qed

text \<open>Quotients: a quotient of two narrow values is either a midpoint of the narrow
  format, which the wide format holds, or far from every midpoint.\<close>

lemma double_round_div:
  fixes \<alpha> \<beta> :: real
  assumes a: "\<alpha> = real_of_int ja * 2 powi za" "0 < ja" "ja < 2 ^ (LENGTH('m::len) + 1)"
      "QMIN TYPE(('e::len, 'm) ieee) \<le> za" "za \<le> EXP_COMP TYPE('e) - int LENGTH('m)"
    and b: "\<beta> = real_of_int jb * 2 powi zb" "0 < jb" "jb < 2 ^ (LENGTH('m) + 1)"
      "QMIN TYPE(('e, 'm) ieee) \<le> zb" "zb \<le> EXP_COMP TYPE('e) - int LENGTH('m)"
    and Fm: "2 * LENGTH('m) + 3 \<le> LENGTH('n::len)"
    and Fe: "2 * EXP_COMP TYPE('e) + 2 * int LENGTH('m) + 2 \<le> EXP_COMP TYPE('f::len)"
    and E: "2 \<le> LENGTH('e)" and F: "2 \<le> LENGTH('f)"
  shows "(fround s \<bar>valof (fround s' (\<alpha> / \<beta>) :: ('f, 'n) ieee)\<bar> :: ('e, 'm) ieee) =
         fround s (\<alpha> / \<beta>)"
    and "FPCLASSIFY (fround s' (\<alpha> / \<beta>) :: ('f, 'n) ieee) = FP_NORMAL"
proof -
  define x where "x = \<alpha> / \<beta>"
  define ex where "ex = floor_log2 x"
  define Mq where "Mq = int LENGTH('m)"
  define Mp where "Mp = int LENGTH('n)"
  define Qq where "Qq = quantum TYPE(('e, 'm) ieee) x"
  define N where "N = \<lfloor>x / 2 powi Qq\<rfloor>"
  define m where "m = (real_of_int N + 1 / 2) * 2 powi Qq"
  note B = EXP_COMP_double [OF E]
  note ab = rep_bounds [OF a(1,2,3)]
  note bb = rep_bounds [OF b(1,2,3)]
  have MM: "2 * Mq + 3 \<le> Mp" "0 \<le> Mq" using Fm by (simp_all add: Mq_def Mp_def)
  have x0: "0 < x" using ab(1) bb(1) by (simp add: x_def)
  note xb = floor_log2_bounds [OF x0, folded ex_def]
  have eq: "zb + int (LENGTH('m) + 1) = zb + Mq + 1" "za + int (LENGTH('m) + 1) = za + Mq + 1"
    by (simp_all add: Mq_def)
  have \<beta>u: "\<beta> < 2 powi (zb + Mq + 1)" using bb(3) by (simp only: eq)
  have \<alpha>u: "\<alpha> < 2 powi (za + Mq + 1)" using ab(3) by (simp only: eq)
  have "x < 2 powi (za + Mq + 1) / 2 powi zb"
  proof -
    have "x \<le> \<alpha> / 2 powi zb" unfolding x_def using bb(1,2) ab(1)
      by (intro divide_left_mono mult_pos_pos) simp_all
    also have "\<dots> < 2 powi (za + Mq + 1) / 2 powi zb"
      using \<alpha>u by (intro divide_strict_right_mono) simp_all
    finally show ?thesis .
  qed
  then have "x < 2 powi (za + Mq + 1 - zb)" by (simp only: two_powi_diff)
  then have "ex < za + Mq + 1 - zb" unfolding ex_def using x0 by (intro floor_log2_less)
  then have eu: "ex \<le> za - zb + Mq" by simp
  have "2 powi za / 2 powi (zb + Mq + 1) \<le> x"
  proof -
    have "2 powi za / 2 powi (zb + Mq + 1) \<le> \<alpha> / 2 powi (zb + Mq + 1)"
      using ab(2) by (intro divide_right_mono) simp_all
    also have "\<dots> \<le> \<alpha> / \<beta>" using \<beta>u bb(1) ab(1)
      by (intro divide_left_mono mult_pos_pos) simp_all
    finally show ?thesis by (simp only: x_def)
  qed
  then have "2 powi (za - (zb + Mq + 1)) \<le> x" by (simp only: two_powi_diff)
  then have el: "za - (zb + Mq + 1) \<le> ex" unfolding ex_def using x0 by (intro floor_log2_ge)
  have pn: "1 - EXP_COMP TYPE('f) < ex"
    using el a(4) b(5) Fe B(2) by (simp add: QMIN_def Mq_def)
  have po: "ex < EXP_COMP TYPE('f)"
    using eu a(5) b(4) Fe B(2) by (simp add: QMIN_def Mq_def)
  have Qq: "ex - Mq \<le> Qq" "QMIN TYPE(('e, 'm) ieee) \<le> Qq"
    by (simp_all add: Qq_def quantum_def ex_def Mq_def)
  have M2: "LENGTH('m) + 2 \<le> LENGTH('n)" using Fm by simp
  have m: "m = real_of_int (2 * N + 1) * 2 powi (Qq - 1)"
    by (simp add: m_def power_int_diff field_simps)
  have "(fround s \<bar>valof (fround s' x :: ('f, 'n) ieee)\<bar> :: ('e, 'm) ieee) = fround s x"
  proof (cases "x = m")
    case True
    then have xm: "x = real_of_int (2 * N + 1) * 2 powi (Qq - 1)" by (simp only: m)
    have j0: "0 < 2 * N + 1"
    proof (rule ccontr)
      assume "\<not> 0 < 2 * N + 1"
      then have "2 * N + 1 \<le> 0" by simp
      then have "real_of_int (2 * N + 1) \<le> real_of_int 0" by (simp only: of_int_le_iff)
      then have "real_of_int (2 * N + 1) * 2 powi (Qq - 1) \<le> 0"
        by (intro mult_nonpos_nonneg) simp_all
      then show False using x0 xm by simp
    qed
    have e1: "Qq - 1 + int (LENGTH('n) + 1) = Qq + Mp" by (simp add: Mp_def)
    have "ex + 1 \<le> Qq + Mp" using Qq(1) MM by linarith
    then have le: "(2::real) powi (ex + 1) \<le> 2 powi (Qq + Mp)" by (simp only: two_powi_le_iff)
    have "real_of_int (2 * N + 1) * 2 powi (Qq - 1) = x" by (simp only: xm)
    also have "x < 2 powi (ex + 1)" by (rule xb(2))
    also note le
    also have "(2::real) powi (Qq + Mp) = 2 powi (Qq - 1 + int (LENGTH('n) + 1))" by (simp only: e1)
    finally have "real_of_int (2 * N + 1) * 2 powi (Qq - 1) < 2 powi (Qq - 1 + int (LENGTH('n) + 1))" .
    then have j1: "2 * N + 1 < 2 ^ (LENGTH('n) + 1)" by (rule int_less_of_real_less)
    have z: "QMIN TYPE(('f, 'n) ieee) \<le> Qq - 1"
      using Qq(2) Fe Fm B(2) by (simp add: QMIN_def)
    show ?thesis
      by (rule double_round_exact [OF j0 j1 z xm po [unfolded ex_def] F])
  next
    case False
    define k where "k = min za (Qq - 1 + zb)"
    have k: "k \<le> za" "k \<le> Qq - 1 + zb" by (simp_all add: k_def)
    have "m * \<beta> = real_of_int ((2 * N + 1) * jb) * 2 powi (Qq - 1 + zb)"
      unfolding m b(1) two_powi_add by simp
    also have "\<dots> = real_of_int ((2 * N + 1) * jb * 2 ^ nat (Qq - 1 + zb - k)) * 2 powi k"
      using k(2) by (rule rescale)
    finally have mb: "m * \<beta> = real_of_int ((2 * N + 1) * jb * 2 ^ nat (Qq - 1 + zb - k)) * 2 powi k" .
    have al: "\<alpha> = real_of_int (ja * 2 ^ nat (za - k)) * 2 powi k"
      unfolding a(1) using k(1) by (rule rescale)
    have d: "\<alpha> - m * \<beta> =
        real_of_int (ja * 2 ^ nat (za - k) - (2 * N + 1) * jb * 2 ^ nat (Qq - 1 + zb - k)) * 2 powi k"
      unfolding mb by (subst al) (simp only: of_int_diff left_diff_distrib)
    have xm: "x - m = (\<alpha> - m * \<beta>) / \<beta>" using bb(1) by (simp add: x_def diff_divide_distrib)
    then have "\<alpha> - m * \<beta> \<noteq> 0" using False by auto
    with d have "2 powi k \<le> \<bar>\<alpha> - m * \<beta>\<bar>" by (rule multiple_ge)
    then have "2 powi k / \<beta> \<le> \<bar>\<alpha> - m * \<beta>\<bar> / \<beta>" using bb(1) by (intro divide_right_mono) simp_all
    moreover have "\<bar>\<alpha> - m * \<beta>\<bar> / \<beta> = \<bar>x - m\<bar>" using bb(1) by (simp add: xm abs_divide)
    moreover have "2 powi k / 2 powi (zb + Mq + 1) < 2 powi k / \<beta>"
      using \<beta>u bb(1) by (intro divide_strict_left_mono mult_pos_pos) simp_all
    moreover have "(2::real) powi k / 2 powi (zb + Mq + 1) = 2 powi (k - (zb + Mq + 1))"
      by (simp only: two_powi_diff)
    moreover have "(2::real) powi (ex - Mp - 1) \<le> 2 powi (k - (zb + Mq + 1))"
    proof -
      have "ex - Mp - 1 \<le> za - (zb + Mq + 1)" using eu MM by linarith
      moreover have "ex - Mp - 1 \<le> Qq - 1 + zb - (zb + Mq + 1)" using Qq(1) MM by linarith
      ultimately have "ex - Mp - 1 \<le> k - (zb + Mq + 1)" by (simp add: k_def min_def)
      then show ?thesis by (simp only: two_powi_le_iff)
    qed
    ultimately have "2 powi (ex - Mp - 1) < \<bar>x - m\<bar>" by linarith
    then have far: "2 powi (floor_log2 x - int LENGTH('n) - 1) <
         \<bar>x - (real_of_int \<lfloor>x / 2 powi quantum TYPE(('e, 'm) ieee) x\<rfloor> + 1 / 2) *
              2 powi quantum TYPE(('e, 'm) ieee) x\<bar>"
      by (simp only: ex_def Mp_def m_def N_def Qq_def)
    show ?thesis
      by (rule double_round [OF x0 pn [unfolded ex_def] po [unfolded ex_def] F M2 far])
  qed
  then show "(fround s \<bar>valof (fround s' (\<alpha> / \<beta>) :: ('f, 'n) ieee)\<bar> :: ('e, 'm) ieee) =
         fround s (\<alpha> / \<beta>)" by (simp only: x_def)
  have "FPCLASSIFY (fround s' x :: ('f, 'n) ieee) = FP_NORMAL"
    by (rule fround_normal [OF x0 pn [unfolded ex_def] po [unfolded ex_def] F])
  then show "FPCLASSIFY (fround s' (\<alpha> / \<beta>) :: ('f, 'n) ieee) = FP_NORMAL"
    by (simp only: x_def)
qed

lemma signed_value_rep:
  fixes a :: "('e::len, 'm::len) ieee"
  assumes fin: "exponent a \<noteq> - 1" and E: "2 \<le> LENGTH('e)"
  obtains i z where "valof a = real_of_int i * 2 powi z" and "\<bar>i\<bar> < 2 ^ (LENGTH('m) + 1)"
    and "QMIN TYPE(('e, 'm) ieee) \<le> z" and "z \<le> EXP_COMP TYPE('e) - int LENGTH('m)"
proof -
  obtain j z where r: "\<bar>valof a\<bar> = real_of_int j * 2 powi z" "0 \<le> j" "j < 2 ^ (LENGTH('m) + 1)"
    "QMIN TYPE(('e, 'm) ieee) \<le> z" "z \<le> EXP_COMP TYPE('e) - int LENGTH('m)"
    using finite_value_rep [OF fin E] by blast
  define i where "i = (if sign a then - j else j)"
  have "valof a = real_of_int i * 2 powi z"
    by (subst valof_sign_abs) (simp add: r(1) i_def)
  moreover have "\<bar>i\<bar> < 2 ^ (LENGTH('m) + 1)" using r(2,3) by (simp add: i_def)
  ultimately show ?thesis using that r(4,5) by blast
qed

lemma positive_value_rep:
  fixes a :: "('e::len, 'm::len) ieee"
  assumes fin: "exponent a \<noteq> - 1" and nz: "\<not> is_zero a" and E: "2 \<le> LENGTH('e)"
  obtains j z where "\<bar>valof a\<bar> = real_of_int j * 2 powi z" and "0 < j" and "j < 2 ^ (LENGTH('m) + 1)"
    and "QMIN TYPE(('e, 'm) ieee) \<le> z" and "z \<le> EXP_COMP TYPE('e) - int LENGTH('m)"
proof -
  obtain j z where r: "\<bar>valof a\<bar> = real_of_int j * 2 powi z" "0 \<le> j" "j < 2 ^ (LENGTH('m) + 1)"
    "QMIN TYPE(('e, 'm) ieee) \<le> z" "z \<le> EXP_COMP TYPE('e) - int LENGTH('m)"
    "j = 0 \<longleftrightarrow> FPCLASSIFY a = FP_ZERO"
    using finite_value_rep [OF fin E] by blast
  have "j \<noteq> 0" using r(6) nz by (simp add: is_zero_def)
  then have "0 < j" using r(2) by simp
  then show ?thesis using that r(1,3,4,5) by blast
qed

lemma fconvert_normal:
  fixes W :: "('f::len, 'n::len) ieee"
  assumes "FPCLASSIFY W = FP_NORMAL"
  shows "(fconvert W :: ('e::len, 'm::len) ieee) = fround (sign W) \<bar>valof W\<bar>"
  using assms by (simp add: fconvert_def)

lemma fconvert_infinity:
  "(fconvert (infinity s :: ('f::len, 'n::len) ieee) :: ('e::len, 'm::len) ieee) = infinity s"
  by (simp add: fconvert_def FPCLASSIFY_infinity) (simp add: infinity_def sign_def)

text \<open>The sum at the wide format of two values that stand for finite narrow values,
  narrowed, is the sum at the narrow format.\<close>

lemma narrow_fadd_core:
  fixes A B :: "('f::len, 'n::len) ieee" and a b :: "('e::len, 'm::len) ieee"
  assumes fA: "exponent A \<noteq> - 1" and fB: "exponent B \<noteq> - 1"
    and fa: "exponent a \<noteq> - 1" and fb: "exponent b \<noteq> - 1"
    and vA: "valof A = valof a" and vB: "valof B = valof b"
    and sA: "sign A = sign a" and sB: "sign B = sign b"
    and Fm: "2 * LENGTH('m) + 3 \<le> LENGTH('n)"
    and Fe: "2 * EXP_COMP TYPE('e) + 2 * int LENGTH('m) + 2 \<le> EXP_COMP TYPE('f)"
    and E: "2 \<le> LENGTH('e)" and F: "2 \<le> LENGTH('f)"
  shows "(fconvert (fadd A B) :: ('e, 'm) ieee) = fadd a b"
proof -
  define s where "s = valof a + valof b"
  have wide: "fadd A B = (if s = 0 then signed_zero (sign a \<and> sign b) else fround (s < 0) \<bar>s\<bar>)"
    using fA fB by (simp add: fadd_def finite_iff vA vB sA sB s_def Let_def)
  have narrow: "fadd a b = (if s = 0 then signed_zero (sign a \<and> sign b) else fround (s < 0) \<bar>s\<bar>)"
    using fa fb by (simp add: fadd_def finite_iff s_def Let_def)
  show ?thesis
  proof (cases "s = 0")
    case True
    then show ?thesis by (simp add: wide narrow fconvert_signed_zero)
  next
    case False
    obtain ia za where a: "valof a = real_of_int ia * 2 powi za" "\<bar>ia\<bar> < 2 ^ (LENGTH('m) + 1)"
      "QMIN TYPE(('e, 'm) ieee) \<le> za" "za \<le> EXP_COMP TYPE('e) - int LENGTH('m)"
      using signed_value_rep [OF fa E] by blast
    obtain ib zb where b: "valof b = real_of_int ib * 2 powi zb" "\<bar>ib\<bar> < 2 ^ (LENGTH('m) + 1)"
      "QMIN TYPE(('e, 'm) ieee) \<le> zb" "zb \<le> EXP_COMP TYPE('e) - int LENGTH('m)"
      using signed_value_rep [OF fb E] by blast
    have nz: "valof a + valof b \<noteq> 0" using False by (simp add: s_def)
    note d1 = double_round_add(1) [OF a b nz Fm Fe E F, where s = "s < 0" and s' = "s < 0",
        folded s_def]
    note d2 = double_round_add(2) [OF a b nz Fm Fe E F, where s' = "s < 0", folded s_def]
    have "(fconvert (fround (s < 0) \<bar>s\<bar> :: ('f, 'n) ieee) :: ('e, 'm) ieee) =
        fround (s < 0) \<bar>valof (fround (s < 0) \<bar>s\<bar> :: ('f, 'n) ieee)\<bar>"
      by (simp add: fconvert_normal [OF d2] sign_fround)
    then show ?thesis using False by (simp add: wide narrow d1)
  qed
qed

lemma widen_finite:
  fixes a :: "('e::len, 'm::len) ieee"
  assumes fin: "exponent a \<noteq> - 1"
    and Fm: "2 * LENGTH('m) + 3 \<le> LENGTH('n::len)"
    and Fe: "2 * EXP_COMP TYPE('e) + 2 * int LENGTH('m) + 2 \<le> EXP_COMP TYPE('f::len)"
    and E: "2 \<le> LENGTH('e)" and F: "2 \<le> LENGTH('f)"
  shows "valof (fconvert a :: ('f, 'n) ieee) = valof a"
    and "sign (fconvert a :: ('f, 'n) ieee) = sign a"
    and "exponent (fconvert a :: ('f, 'n) ieee) \<noteq> - 1"
    and "is_zero (fconvert a :: ('f, 'n) ieee) \<longleftrightarrow> is_zero a"
proof -
  note B = EXP_COMP_double [OF E]
  have M: "LENGTH('m) \<le> LENGTH('n)" using Fm by simp
  have lo: "1 - EXP_COMP TYPE('f) \<le> QMIN TYPE(('e, 'm) ieee)" using Fe B(2) by (simp add: QMIN_def)
  have hi: "EXP_COMP TYPE('e) < EXP_COMP TYPE('f)" using Fe B(2) by simp
  note f = fconvert_finite [OF fin E F M lo hi]
  show "valof (fconvert a :: ('f, 'n) ieee) = valof a" by (rule f(1))
  show "sign (fconvert a :: ('f, 'n) ieee) = sign a" by (rule f(2))
  show "exponent (fconvert a :: ('f, 'n) ieee) \<noteq> - 1" by (rule f(3))
  show "is_zero (fconvert a :: ('f, 'n) ieee) \<longleftrightarrow> is_zero a" by (rule f(4))
qed

lemma finiteD:
  assumes "exponent a \<noteq> - 1"
  shows "\<not> is_nan a" and "\<not> is_inf a"
  using assms by (simp_all add: finite_iff)

lemma exponent_fneg [simp]: "exponent (fneg x) = exponent x"
  by (simp add: fneg_def exponent_def)

lemma sign_fneg [simp]: "sign (fneg x) = (\<not> sign x)"
  by (simp add: fneg_def sign_def)

text \<open>The four operations on finite operands: computing at the wide format and
  narrowing gives the result of the narrow format, bit for bit.\<close>

lemma narrow_fadd_widen:
  fixes a b :: "('e::len, 'm::len) ieee"
  assumes fa: "exponent a \<noteq> - 1" and fb: "exponent b \<noteq> - 1"
    and Fm: "2 * LENGTH('m) + 3 \<le> LENGTH('n::len)"
    and Fe: "2 * EXP_COMP TYPE('e) + 2 * int LENGTH('m) + 2 \<le> EXP_COMP TYPE('f::len)"
    and E: "2 \<le> LENGTH('e)" and F: "2 \<le> LENGTH('f)"
  shows "(fconvert (fadd (fconvert a :: ('f, 'n) ieee) (fconvert b)) :: ('e, 'm) ieee) = fadd a b"
proof -
  note wa = widen_finite [OF fa Fm Fe E F]
  note wb = widen_finite [OF fb Fm Fe E F]
  show ?thesis
    by (rule narrow_fadd_core [OF wa(3) wb(3) fa fb wa(1) wb(1) wa(2) wb(2) Fm Fe E F])
qed

lemma narrow_fsub_widen:
  fixes a b :: "('e::len, 'm::len) ieee"
  assumes fa: "exponent a \<noteq> - 1" and fb: "exponent b \<noteq> - 1"
    and Fm: "2 * LENGTH('m) + 3 \<le> LENGTH('n::len)"
    and Fe: "2 * EXP_COMP TYPE('e) + 2 * int LENGTH('m) + 2 \<le> EXP_COMP TYPE('f::len)"
    and E: "2 \<le> LENGTH('e)" and F: "2 \<le> LENGTH('f)"
  shows "(fconvert (fsub (fconvert a :: ('f, 'n) ieee) (fconvert b)) :: ('e, 'm) ieee) = fsub a b"
proof -
  note wa = widen_finite [OF fa Fm Fe E F]
  note wb = widen_finite [OF fb Fm Fe E F]
  have w: "fsub (fconvert a :: ('f, 'n) ieee) (fconvert b) = fadd (fconvert a) (fneg (fconvert b))"
    by (simp add: fsub_def finiteD [OF wa(3)] finiteD [OF wb(3)])
  have n: "fsub a b = fadd a (fneg b)" by (simp add: fsub_def finiteD [OF fa] finiteD [OF fb])
  have 1: "exponent (fneg (fconvert b :: ('f, 'n) ieee)) \<noteq> - 1" using wb(3) by simp
  have 2: "exponent (fneg b) \<noteq> - 1" using fb by simp
  have 3: "valof (fneg (fconvert b :: ('f, 'n) ieee)) = valof (fneg b)" by (simp add: valof_fneg wb(1))
  have 4: "sign (fneg (fconvert b :: ('f, 'n) ieee)) = sign (fneg b)" by (simp add: wb(2))
  show ?thesis
    unfolding w n
    by (rule narrow_fadd_core [OF wa(3) 1 fa 2 wa(1) 3 wa(2) 4 Fm Fe E F])
qed

lemma narrow_fmul_widen:
  fixes a b :: "('e::len, 'm::len) ieee"
  assumes fa: "exponent a \<noteq> - 1" and fb: "exponent b \<noteq> - 1"
    and Fm: "2 * LENGTH('m) + 3 \<le> LENGTH('n::len)"
    and Fe: "2 * EXP_COMP TYPE('e) + 2 * int LENGTH('m) + 2 \<le> EXP_COMP TYPE('f::len)"
    and E: "2 \<le> LENGTH('e)" and F: "2 \<le> LENGTH('f)"
  shows "(fconvert (fmul (fconvert a :: ('f, 'n) ieee) (fconvert b)) :: ('e, 'm) ieee) = fmul a b"
proof -
  note wa = widen_finite [OF fa Fm Fe E F]
  note wb = widen_finite [OF fb Fm Fe E F]
  define \<sigma> where "\<sigma> = (sign a \<noteq> sign b)"
  define x where "x = \<bar>valof a\<bar> * \<bar>valof b\<bar>"
  have wide: "fmul (fconvert a :: ('f, 'n) ieee) (fconvert b) =
      (if is_zero a \<or> is_zero b then signed_zero \<sigma> else fround \<sigma> x)"
    by (simp add: fmul_def finiteD [OF wa(3)] finiteD [OF wb(3)] wa(1,2,4) wb(1,2,4) \<sigma>_def x_def)
  have narrow: "fmul a b = (if is_zero a \<or> is_zero b then signed_zero \<sigma> else fround \<sigma> x)"
    by (simp add: fmul_def finiteD [OF fa] finiteD [OF fb] \<sigma>_def x_def)
  show ?thesis
  proof (cases "is_zero a \<or> is_zero b")
    case True
    then show ?thesis by (simp add: wide narrow fconvert_signed_zero)
  next
    case False
    obtain ja za where a: "\<bar>valof a\<bar> = real_of_int ja * 2 powi za" "0 < ja" "ja < 2 ^ (LENGTH('m) + 1)"
      "QMIN TYPE(('e, 'm) ieee) \<le> za" "za \<le> EXP_COMP TYPE('e) - int LENGTH('m)"
      using positive_value_rep [OF fa _ E] False by blast
    obtain jb zb where b: "\<bar>valof b\<bar> = real_of_int jb * 2 powi zb" "0 < jb" "jb < 2 ^ (LENGTH('m) + 1)"
      "QMIN TYPE(('e, 'm) ieee) \<le> zb" "zb \<le> EXP_COMP TYPE('e) - int LENGTH('m)"
      using positive_value_rep [OF fb _ E] False by blast
    note d1 = double_round_mul(1) [OF a b Fm Fe E F, where s = \<sigma> and s' = \<sigma>, folded x_def]
    note d2 = double_round_mul(2) [OF a b Fm Fe E F, where s' = \<sigma>, folded x_def]
    have "(fconvert (fround \<sigma> x :: ('f, 'n) ieee) :: ('e, 'm) ieee) =
        fround \<sigma> \<bar>valof (fround \<sigma> x :: ('f, 'n) ieee)\<bar>"
      by (simp add: fconvert_normal [OF d2] sign_fround)
    then show ?thesis using False by (simp add: wide narrow d1)
  qed
qed

lemma narrow_fdiv_widen:
  fixes a b :: "('e::len, 'm::len) ieee"
  assumes fa: "exponent a \<noteq> - 1" and fb: "exponent b \<noteq> - 1"
    and Fm: "2 * LENGTH('m) + 3 \<le> LENGTH('n::len)"
    and Fe: "2 * EXP_COMP TYPE('e) + 2 * int LENGTH('m) + 2 \<le> EXP_COMP TYPE('f::len)"
    and E: "2 \<le> LENGTH('e)" and F: "2 \<le> LENGTH('f)"
    and nan: "(fconvert (default_nan :: ('f, 'n) ieee) :: ('e, 'm) ieee) = default_nan"
  shows "(fconvert (fdiv (fconvert a :: ('f, 'n) ieee) (fconvert b)) :: ('e, 'm) ieee) = fdiv a b"
proof -
  note wa = widen_finite [OF fa Fm Fe E F]
  note wb = widen_finite [OF fb Fm Fe E F]
  define \<sigma> where "\<sigma> = (sign a \<noteq> sign b)"
  define x where "x = \<bar>valof a\<bar> / \<bar>valof b\<bar>"
  have wide: "fdiv (fconvert a :: ('f, 'n) ieee) (fconvert b) =
      (if is_zero a \<and> is_zero b then default_nan
       else if is_zero b then infinity \<sigma>
       else if is_zero a then signed_zero \<sigma>
       else fround \<sigma> x)"
    by (simp add: fdiv_def finiteD [OF wa(3)] finiteD [OF wb(3)] wa(1,2,4) wb(1,2,4) \<sigma>_def x_def)
  have narrow: "fdiv a b =
      (if is_zero a \<and> is_zero b then default_nan
       else if is_zero b then infinity \<sigma>
       else if is_zero a then signed_zero \<sigma>
       else fround \<sigma> x)"
    by (simp add: fdiv_def finiteD [OF fa] finiteD [OF fb] \<sigma>_def x_def)
  show ?thesis
  proof (cases "is_zero a \<or> is_zero b")
    case True
    then show ?thesis by (auto simp add: wide narrow fconvert_signed_zero fconvert_infinity nan)
  next
    case False
    obtain ja za where a: "\<bar>valof a\<bar> = real_of_int ja * 2 powi za" "0 < ja" "ja < 2 ^ (LENGTH('m) + 1)"
      "QMIN TYPE(('e, 'm) ieee) \<le> za" "za \<le> EXP_COMP TYPE('e) - int LENGTH('m)"
      using positive_value_rep [OF fa _ E] False by blast
    obtain jb zb where b: "\<bar>valof b\<bar> = real_of_int jb * 2 powi zb" "0 < jb" "jb < 2 ^ (LENGTH('m) + 1)"
      "QMIN TYPE(('e, 'm) ieee) \<le> zb" "zb \<le> EXP_COMP TYPE('e) - int LENGTH('m)"
      using positive_value_rep [OF fb _ E] False by blast
    note d1 = double_round_div(1) [OF a b Fm Fe E F, where s = \<sigma> and s' = \<sigma>, folded x_def]
    note d2 = double_round_div(2) [OF a b Fm Fe E F, where s' = \<sigma>, folded x_def]
    have "(fconvert (fround \<sigma> x :: ('f, 'n) ieee) :: ('e, 'm) ieee) =
        fround \<sigma> \<bar>valof (fround \<sigma> x :: ('f, 'n) ieee)\<bar>"
      by (simp add: fconvert_normal [OF d2] sign_fround)
    then show ?thesis using False by (simp add: wide narrow d1)
  qed
qed



lemma nan_round_trip32:
  fixes m :: "52 word"
  shows "(ucast (drop_bit 29 (push_bit 29 (ucast ((ucast (drop_bit 29 m) :: 23 word) OR quiet_bit) :: 52 word) OR quiet_bit)) :: 23 word) OR quiet_bit =
         (ucast (drop_bit 29 m) :: 23 word) OR quiet_bit"
  by (rule bit_word_eqI) (auto simp add: bit_simps quiet_bit_def)

lemma nan_round_trip64:
  fixes m :: "112 word"
  shows "(ucast (drop_bit 60 (push_bit 60 (ucast ((ucast (drop_bit 60 m) :: 52 word) OR quiet_bit) :: 112 word) OR quiet_bit)) :: 52 word) OR quiet_bit =
         (ucast (drop_bit 60 m) :: 52 word) OR quiet_bit"
  by (rule bit_word_eqI) (auto simp add: bit_simps quiet_bit_def)

text \<open>A finite value other than zero is the rounding of its own magnitude.\<close>

lemma fround_valof:
  fixes r :: "('e::len, 'm::len) ieee"
  assumes fin: "exponent r \<noteq> - 1" and nz: "\<not> is_zero r"
  shows "fround (sign r) \<bar>valof r\<bar> = r"
proof -
  define P :: int where "P = 2 ^ LENGTH('m)"
  define x where "x = \<bar>valof r\<bar>"
  have P: "0 < P" by (simp add: P_def)
  have m: "0 \<le> uint (mantissa r)" "uint (mantissa r) < P"
    by (simp_all add: P_def uint_bounded)
  have um: "(unsigned (mantissa r) :: real) = real_of_int (uint (mantissa r))" by simp
  have m0: "0 \<le> (unsigned (mantissa r) :: real)" by (rule uint_real_mantissa_bounds)
  have e1: "uint (exponent r) < 2 ^ LENGTH('e) - 1"
  proof -
    have "uint (exponent r) \<noteq> 2 ^ LENGTH('e) - 1"
      using fin by (metis uint_minus_one word_uint_eq_iff)
    moreover have "uint (exponent r) < 2 ^ LENGTH('e)" by (rule uint_bounded)
    ultimately show ?thesis by linarith
  qed
  have "fround (sign r) x = (sign r, exponent r, mantissa r)"
  proof (cases "exponent r = 0")
    case True
    have mz: "mantissa r \<noteq> 0" using nz True by (auto simp add: is_zero_def FPCLASSIFY_def split: if_splits)
    then have j0: "0 < uint (mantissa r)" using m(1) by (simp add: uint_0_iff order_less_le)
    have xr: "x = real_of_int (uint (mantissa r)) * 2 powi QMIN TYPE(('e, 'm) ieee)"
      using True m0 by (simp add: x_def valof_def abs_mult)
    have j1: "uint (mantissa r) < 2 ^ LENGTH('m)" using m(2) by (simp add: P_def)
    have "floor_log2 x < QMIN TYPE(('e, 'm) ieee) + int LENGTH('m)"
      by (rule rep_bounds(5) [OF xr j0 j1])
    then have q: "quantum TYPE(('e, 'm) ieee) x = QMIN TYPE(('e, 'm) ieee)"
      by (simp add: quantum_def)
    have "x / 2 powi QMIN TYPE(('e, 'm) ieee) = real_of_int (uint (mantissa r))"
      by (simp add: xr)
    then have n: "round_half_even (x / 2 powi QMIN TYPE(('e, 'm) ieee)) = uint (mantissa r)"
      by (simp only: round_half_even_of_int)
    have "(1::int) < 2 ^ LENGTH('e)" by (rule one_less_power) simp_all
    then have "(1::int) \<le> 2 ^ LENGTH('e) - 1" by linarith
    then have "1 * P \<le> (2 ^ LENGTH('e) - 1) * P"
      using P by (intro mult_right_mono) simp_all
    then have "\<not> (2 ^ LENGTH('e) - 1) * P \<le> uint (mantissa r)"
      using m(2) by linarith
    then have ov: "\<not> (2 ^ LENGTH('e) - 1) * 2 ^ LENGTH('m) \<le> uint (mantissa r)"
      unfolding P_def .
    have dm: "uint (mantissa r) div 2 ^ LENGTH('m) = 0" "uint (mantissa r) mod 2 ^ LENGTH('m) = uint (mantissa r)"
      using m by (simp_all add: P_def)
    show ?thesis using True ov by (simp add: fround_def Let_def q n dm)
  next
    case False
    define j where "j = P + uint (mantissa r)"
    define z where "z = uint (exponent r) - 1 + QMIN TYPE(('e, 'm) ieee)"
    have e0: "0 < uint (exponent r)" using False by (simp add: word_greater_zero_iff [symmetric] word_less_def)
    have xr: "x = real_of_int j * 2 powi z"
      using False m0 by (simp add: x_def valof_def abs_mult j_def z_def P_def)
    have j0: "0 < j" unfolding j_def using m(1) P by linarith
    have "j < 2 * P" unfolding j_def using m(2) by linarith
    then have j1: "j < 2 ^ (LENGTH('m) + 1)" by (simp add: P_def)
    have x0: "0 < x" by (rule rep_bounds(1) [OF xr j0 j1])
    have "real_of_int P \<le> real_of_int j" using m(1) by (simp only: of_int_le_iff) (simp add: j_def)
    then have "real_of_int P * 2 powi z \<le> real_of_int j * 2 powi z"
      by (intro mult_right_mono) simp_all
    moreover have "real_of_int P * 2 powi z = 2 powi (z + int LENGTH('m))"
      by (simp add: P_def power_int_add)
    ultimately have lo: "2 powi (z + int LENGTH('m)) \<le> x" by (simp add: xr)
    have hi0: "x < 2 powi (z + int (LENGTH('m) + 1))" by (rule rep_bounds(3) [OF xr j0 j1])
    have "z + int (LENGTH('m) + 1) = z + int LENGTH('m) + 1" by simp
    then have hi: "x < 2 powi (z + int LENGTH('m) + 1)" using hi0 by (simp only:)
    have fl: "floor_log2 x = z + int LENGTH('m)" using lo hi by (rule floor_log2_unique)
    have q: "quantum TYPE(('e, 'm) ieee) x = z" using e0 by (simp add: quantum_def fl z_def)
    have "x / 2 powi z = real_of_int j" by (simp add: xr)
    then have n: "round_half_even (x / 2 powi z) = j" by (simp only: round_half_even_of_int)
    have c: "(z - QMIN TYPE(('e, 'm) ieee)) * P + j = uint (exponent r) * P + uint (mantissa r)"
      by (simp add: z_def j_def algebra_simps)
    have "uint (exponent r) * P + uint (mantissa r) < (uint (exponent r) + 1) * P"
      using m(2) by (simp add: algebra_simps)
    also have "\<dots> \<le> (2 ^ LENGTH('e) - 1) * P" using e1 P by (intro mult_right_mono) simp_all
    finally have ov: "\<not> (2 ^ LENGTH('e) - 1) * P \<le> uint (exponent r) * P + uint (mantissa r)" by simp
    have dm: "(uint (exponent r) * P + uint (mantissa r)) div P = uint (exponent r)"
      "(uint (exponent r) * P + uint (mantissa r)) mod P = uint (mantissa r)"
      "uint (mantissa r) mod P = uint (mantissa r)"
      using m P by simp_all
    show ?thesis
      using ov by (simp add: fround_def Let_def q n P_def [symmetric] c dm)
  qed
  then show ?thesis by (simp add: x_def triple_collapse)
qed

lemma fround_not_nan:
  assumes "0 < x"
  shows "\<not> is_nan (fround s x :: ('e::len, 'm::len) ieee)"
proof -
  define q where "q = quantum TYPE(('e, 'm) ieee) x"
  define n where "n = round_half_even (x / 2 powi q)"
  define P :: int where "P = 2 ^ LENGTH('m)"
  define c where "c = (q - QMIN TYPE(('e, 'm) ieee)) * P + n"
  have P: "0 < P" by (simp add: P_def)
  have n0: "0 \<le> n"
    using fround_significand_bounds(1) [OF assms, where ?'e = 'e and ?'m = 'm]
    by (simp add: n_def q_def)
  have "0 \<le> (q - QMIN TYPE(('e, 'm) ieee)) * P"
    using P by (intro mult_nonneg_nonneg) (simp_all add: q_def quantum_ge_QMIN)
  then have c0: "0 \<le> c" using n0 by (simp add: c_def)
  show ?thesis
  proof (cases "(2 ^ LENGTH('e) - 1) * P \<le> c")
    case True
    then show ?thesis
      by (simp add: fround_def Let_def q_def [symmetric] n_def [symmetric] P_def [symmetric]
          c_def [symmetric] is_nan_def FPCLASSIFY_infinity)
  next
    case False
    have f: "(fround s x :: ('e, 'm) ieee) = (s, word_of_int (c div P), word_of_int (c mod P))"
      using False
      by (simp add: fround_def Let_def q_def [symmetric] n_def [symmetric] P_def [symmetric]
          c_def [symmetric])
    have lo: "0 \<le> c div P" using c0 P by (simp add: pos_imp_zdiv_nonneg_iff)
    have hi: "c div P < 2 ^ LENGTH('e) - 1"
    proof (rule ccontr)
      assume "\<not> c div P < 2 ^ LENGTH('e) - 1"
      then have "(2 ^ LENGTH('e) - 1) * P \<le> (c div P) * P"
        using P by (intro mult_right_mono) simp_all
      also have "\<dots> \<le> c"
        using div_mult_mod_eq [of c P] pos_mod_sign [OF P, of c] by linarith
      finally show False using False by simp
    qed
    have "uint (word_of_int (c div P) :: 'e word) = c div P"
      using lo hi by (intro uint_word_of_int_small) simp_all
    then have "uint (word_of_int (c div P) :: 'e word) \<noteq> 2 ^ LENGTH('e) - 1" using hi by simp
    then have "(word_of_int (c div P) :: 'e word) \<noteq> - 1" by (metis uint_minus_one)
    then show ?thesis by (simp add: f is_nan_def FPCLASSIFY_def exponent_def)
  qed
qed

lemma fconvert_not_nan:
  fixes X :: "('f::len, 'n::len) ieee"
  assumes "\<not> is_nan X"
  shows "\<not> is_nan (fconvert X :: ('e::len, 'm::len) ieee)"
proof (cases "FPCLASSIFY X")
  case FP_NAN
  then show ?thesis using assms by (simp add: is_nan_def)
next
  case FP_INFINITE
  then show ?thesis by (simp add: fconvert_def is_nan_def FPCLASSIFY_infinity)
next
  case FP_ZERO
  then show ?thesis by (simp add: fconvert_def is_nan_def FPCLASSIFY_signed_zero)
next
  case FP_NORMAL
  then have "exponent X \<noteq> - 1" "\<not> is_zero X"
    by (auto simp add: FPCLASSIFY_def is_zero_def split: if_splits)
  then have "0 < \<bar>valof X\<bar>" by (simp add: is_zero_valof)
  then show ?thesis using FP_NORMAL by (simp add: fconvert_def fround_not_nan)
next
  case FP_SUBNORMAL
  then have "exponent X \<noteq> - 1" "\<not> is_zero X"
    using minus_one_neq_zero_word [where ?'e = 'f]
    by (auto simp add: FPCLASSIFY_def is_zero_def split: if_splits)
  then have "0 < \<bar>valof X\<bar>" by (simp add: is_zero_valof)
  then show ?thesis using FP_SUBNORMAL by (simp add: fconvert_def fround_not_nan)
qed

text \<open>Widening and narrowing back gives the value itself, NaNs apart.\<close>

lemma round_trip:
  fixes r :: "('e::len, 'm::len) ieee"
  assumes nn: "\<not> is_nan r"
    and Fm: "2 * LENGTH('m) + 3 \<le> LENGTH('n::len)"
    and Fe: "2 * EXP_COMP TYPE('e) + 2 * int LENGTH('m) + 2 \<le> EXP_COMP TYPE('f::len)"
    and E: "2 \<le> LENGTH('e)" and F: "2 \<le> LENGTH('f)"
  shows "(fconvert (fconvert r :: ('f, 'n) ieee) :: ('e, 'm) ieee) = r"
proof (cases "FPCLASSIFY r = FP_INFINITE \<or> FPCLASSIFY r = FP_ZERO")
  case True
  then show ?thesis
  proof
    assume c: "FPCLASSIFY r = FP_INFINITE"
    then have "exponent r = - 1" "mantissa r = 0" by (auto simp add: FPCLASSIFY_def split: if_splits)
    then have "r = infinity (sign r)"
      by (simp add: infinity_def sign_def exponent_def mantissa_def prod_eq_iff)
    moreover have "(fconvert r :: ('f, 'n) ieee) = infinity (sign r)" using c by (simp add: fconvert_def)
    ultimately show ?thesis by (simp add: fconvert_infinity)
  next
    assume c: "FPCLASSIFY r = FP_ZERO"
    then have "exponent r = 0" "mantissa r = 0" by (auto simp add: FPCLASSIFY_def split: if_splits)
    then have "r = signed_zero (sign r)"
      by (simp add: signed_zero_def sign_def exponent_def mantissa_def prod_eq_iff)
    moreover have "(fconvert r :: ('f, 'n) ieee) = signed_zero (sign r)" using c by (simp add: fconvert_def)
    ultimately show ?thesis by (simp add: fconvert_signed_zero)
  qed
next
  case False
  then have fin: "exponent r \<noteq> - 1" and nz: "\<not> is_zero r"
    using nn by (auto simp add: is_nan_def is_zero_def FPCLASSIFY_def split: if_splits)
  note w = widen_finite [OF fin Fm Fe E F]
  define X :: "('f, 'n) ieee" where "X = fconvert r"
  have c: "FPCLASSIFY X = FP_NORMAL \<or> FPCLASSIFY X = FP_SUBNORMAL"
    using w(3) w(4) nz by (auto simp add: X_def is_zero_def FPCLASSIFY_def split: if_splits)
  then have "(fconvert X :: ('e, 'm) ieee) = fround (sign X) \<bar>valof X\<bar>"
    by (auto simp add: fconvert_def)
  then show ?thesis by (simp add: X_def w(1) w(2) fround_valof [OF fin nz])
qed

text \<open>Narrowing, widening and narrowing again gives the first narrowing: the result of
  the driver with \<open>ftz\<close> is the flushed narrowed value itself.\<close>

lemma narrow_round_trip32:
  fixes X :: binary64
  shows "(fconvert (fconvert (fconvert X :: binary32) :: binary64) :: binary32) = fconvert X"
proof (cases "is_nan X")
  case True
  then have c: "FPCLASSIFY X = FP_NAN" by (simp add: is_nan_def)
  define r :: binary32 where "r = (sign X, - 1, ucast (drop_bit 29 (mantissa X)) OR quiet_bit)"
  define w :: binary64 where "w = (sign X, - 1, push_bit 29 (ucast (mantissa r)) OR quiet_bit)"
  have r: "(fconvert X :: binary32) = r" using c by (simp add: fconvert_def r_def)
  have cr: "FPCLASSIFY r = FP_NAN"
    by (simp add: r_def FPCLASSIFY_def exponent_def mantissa_def or_quiet_bit_nonzero)
  have w: "(fconvert r :: binary64) = w"
    using cr by (simp add: fconvert_def w_def) (simp add: r_def sign_def)
  have cw: "FPCLASSIFY w = FP_NAN"
    by (simp add: w_def FPCLASSIFY_def exponent_def mantissa_def or_quiet_bit_nonzero)
  have "(fconvert w :: binary32) = (sign w, - 1, ucast (drop_bit 29 (mantissa w)) OR quiet_bit)"
    using cw by (simp add: fconvert_def)
  also have "\<dots> = r"
    by (simp only: w_def r_def sign_def mantissa_def fst_conv snd_conv nan_round_trip32)
  finally show ?thesis by (simp add: r w)
next
  case False
  then have "\<not> is_nan (fconvert X :: binary32)" by (rule fconvert_not_nan)
  then show ?thesis by (rule round_trip) (simp_all add: EXP_COMP_def)
qed

lemma narrow_round_trip64:
  fixes X :: binary128
  shows "(fconvert (fconvert (fconvert X :: binary64) :: binary128) :: binary64) = fconvert X"
proof (cases "is_nan X")
  case True
  then have c: "FPCLASSIFY X = FP_NAN" by (simp add: is_nan_def)
  define r :: binary64 where "r = (sign X, - 1, ucast (drop_bit 60 (mantissa X)) OR quiet_bit)"
  define w :: binary128 where "w = (sign X, - 1, push_bit 60 (ucast (mantissa r)) OR quiet_bit)"
  have r: "(fconvert X :: binary64) = r" using c by (simp add: fconvert_def r_def)
  have cr: "FPCLASSIFY r = FP_NAN"
    by (simp add: r_def FPCLASSIFY_def exponent_def mantissa_def or_quiet_bit_nonzero)
  have w: "(fconvert r :: binary128) = w"
    using cr by (simp add: fconvert_def w_def) (simp add: r_def sign_def)
  have cw: "FPCLASSIFY w = FP_NAN"
    by (simp add: w_def FPCLASSIFY_def exponent_def mantissa_def or_quiet_bit_nonzero)
  have "(fconvert w :: binary64) = (sign w, - 1, ucast (drop_bit 60 (mantissa w)) OR quiet_bit)"
    using cw by (simp add: fconvert_def)
  also have "\<dots> = r"
    by (simp only: w_def r_def sign_def mantissa_def fst_conv snd_conv nan_round_trip64)
  finally show ?thesis by (simp add: r w)
next
  case False
  then have "\<not> is_nan (fconvert X :: binary64)" by (rule fconvert_not_nan)
  then show ?thesis by (rule round_trip) (simp_all add: EXP_COMP_def)
qed

lemma FTZ_round_trip32:
  fixes X :: binary64
  shows "(fconvert (fconvert (FTZ (fconvert X :: binary32)) :: binary64) :: binary32) =
           FTZ (fconvert X)"
  by (simp add: FTZ_def fconvert_signed_zero narrow_round_trip32)

lemma FTZ_round_trip64:
  fixes X :: binary128
  shows "(fconvert (fconvert (FTZ (fconvert X :: binary64)) :: binary128) :: binary64) =
           FTZ (fconvert X)"
  by (simp add: FTZ_def fconvert_signed_zero narrow_round_trip64)

text \<open>The driver with the two flags written out: the operands are flushed at their own
  width, before the widening; the result is flushed at the width of the operands, after
  the narrowing.\<close>

lemma MCA_BINARY_OP_flags:
  fixes A B :: "('e::len, 'm::len) ieee"
    and IB :: "platform \<Rightarrow> globals \<Rightarrow> ('f::len, 'n::len) ieee \<Rightarrow> t_context \<Rightarrow> rng_state_t \<Rightarrow>
      ('f, 'n) ieee \<times> rng_state_t"
  assumes rt: "\<And>X :: ('f, 'n) ieee.
      (fconvert (fconvert (FTZ (fconvert X :: ('e, 'm) ieee)) :: ('f, 'n) ieee) :: ('e, 'm) ieee) =
        FTZ (fconvert X)"
  shows "MCA_BINARY_OP IB env g A B OP CTX rng =
     (let a0 = (if daz CTX \<and> FPCLASSIFY A = FP_SUBNORMAL then signed_zero (sign A) else A);
          b0 = (if daz CTX \<and> FPCLASSIFY B = FP_SUBNORMAL then signed_zero (sign B) else B);
          pre = (MCALIB_MODE g = mcamode_pb \<or> MCALIB_MODE g = mcamode_mca);
          post = (MCALIB_MODE g = mcamode_rr \<or> MCALIB_MODE g = mcamode_mca);
          A1 = (if pre then IB env g (fconvert a0) CTX rng else (fconvert a0, rng));
          B1 = (if pre then IB env g (fconvert b0) CTX (snd A1) else (fconvert b0, snd A1))
      in map_sum id
           (\<lambda>R. let R1 = (if post then IB env g R CTX (snd B1) else (R, snd B1));
                    r = (fconvert (fst R1) :: ('e, 'm) ieee)
                in (if ftz CTX \<and> FPCLASSIFY r = FP_SUBNORMAL then signed_zero (sign r) else r,
                    snd R1))
           (PERFORM_BIN_OP OP (fst A1) (fst B1)))"
proof -
  have h: "MCA_BINARY_OP IB env g A B OP CTX rng =
     (let A0 = (fconvert (if daz CTX then DAZ A else A) :: ('f, 'n) ieee);
          B0 = (fconvert (if daz CTX then DAZ B else B) :: ('f, 'n) ieee);
          pre = (MCALIB_MODE g = mcamode_pb \<or> MCALIB_MODE g = mcamode_mca);
          post = (MCALIB_MODE g = mcamode_rr \<or> MCALIB_MODE g = mcamode_mca);
          A1 = (if pre then IB env g A0 CTX rng else (A0, rng));
          B1 = (if pre then IB env g B0 CTX (snd A1) else (B0, snd A1))
      in map_sum id
           (\<lambda>R. let R1 = (if post then IB env g R CTX (snd B1) else (R, snd B1))
                in (if ftz CTX then FTZ (fconvert (fst R1)) else fconvert (fst R1), snd R1))
           (PERFORM_BIN_OP OP (fst A1) (fst B1)))"
    unfolding MCA_BINARY_OP_def
    by (cases "daz CTX"; cases "ftz CTX")
      (simp_all add: Let_def split_beta rt split: sum.splits)
  show ?thesis
    unfolding h
    by (cases "daz CTX"; cases "ftz CTX") (simp_all add: Let_def DAZ_def FTZ_def)
qed

text \<open>A subnormal value is normal at the working precision, with the same value.\<close>

lemma widen_subnormal:
  fixes a :: "('e::len, 'm::len) ieee"
  assumes sub: "FPCLASSIFY a = FP_SUBNORMAL"
    and Fm: "2 * LENGTH('m) + 3 \<le> LENGTH('n::len)"
    and Fe: "2 * EXP_COMP TYPE('e) + 2 * int LENGTH('m) + 2 \<le> EXP_COMP TYPE('f::len)"
    and E: "2 \<le> LENGTH('e)" and F: "2 \<le> LENGTH('f)"
  shows "valof (fconvert a :: ('f, 'n) ieee) = valof a"
    and "FPCLASSIFY (fconvert a :: ('f, 'n) ieee) = FP_NORMAL"
proof -
  have e0: "exponent a = 0" and m0: "mantissa a \<noteq> 0"
    using sub by (auto simp add: FPCLASSIFY_def split: if_splits)
  have fin: "exponent a \<noteq> - 1" using e0 by simp
  show "valof (fconvert a :: ('f, 'n) ieee) = valof a"
    by (rule widen_finite(1) [OF fin Fm Fe E F])
  define j where "j = uint (mantissa a)"
  define x where "x = \<bar>valof a\<bar>"
  have j0: "0 < j" using m0 by (simp add: j_def uint_0_iff order_less_le)
  have j1: "j < 2 ^ LENGTH('m)" unfolding j_def by (rule uint_bounded)
  have "0 \<le> (unsigned (mantissa a) :: real)" by (rule uint_real_mantissa_bounds)
  then have xr: "x = real_of_int j * 2 powi QMIN TYPE(('e, 'm) ieee)"
    using e0 by (simp add: x_def valof_def abs_mult j_def)
  note b = rep_bounds [OF xr j0 j1]
  note B = EXP_COMP_double [OF E]
  have pn: "1 - EXP_COMP TYPE('f) < floor_log2 x" using b(4) Fe B(2) by (simp add: QMIN_def)
  have po: "floor_log2 x < EXP_COMP TYPE('f)" using b(5) Fe B(2) by (simp add: QMIN_def)
  have "FPCLASSIFY (fround (sign a) x :: ('f, 'n) ieee) = FP_NORMAL"
    by (rule fround_normal [OF b(1) pn po F])
  then show "FPCLASSIFY (fconvert a :: ('f, 'n) ieee) = FP_NORMAL"
    using sub by (simp add: fconvert_def x_def)
qed

lemma narrow_default_nan128: "(fconvert (default_nan :: binary128) :: binary64) = default_nan"
  by (simp add: fp_eval)

lemma add_1e20_one32: "fadd ((False, 193, 0x2D78EC) :: binary32) one = (False, 193, 0x2D78EC)"
  by (simp add: fp_eval)

lemma add_one_one64': "fadd (one :: binary64) one = (False, 1024, 0)"
  by (simp add: fp_eval)

lemma finite_1e20f: "\<not> is_nan ((False, 193, 0x2D78EC) :: binary32)" "\<not> is_inf ((False, 193, 0x2D78EC) :: binary32)"
  by (simp_all add: fp_eval)

lemma finite_one: "\<not> is_nan (one :: binary32)" "\<not> is_inf (one :: binary32)"
  "\<not> is_nan (one :: binary64)" "\<not> is_inf (one :: binary64)"
  by (simp_all add: fp_eval)

text \<open>The operation of the driver on finite operands: binary64 for binary32 operands,
  binary128 for binary64 operands.\<close>

lemma PERFORM_BIN_OP_narrow32:
  fixes a b :: binary32
  assumes "\<not> is_nan a" "\<not> is_inf a" "\<not> is_nan b" "\<not> is_inf b"
  shows "map_sum id (\<lambda>R. (fconvert R :: binary32))
           (PERFORM_BIN_OP op (fconvert a :: binary64) (fconvert b)) = PERFORM_BIN_OP op a b"
proof -
  have fa: "exponent a \<noteq> - 1" and fb: "exponent b \<noteq> - 1" using assms by (simp_all add: finite_iff)
  have Fm: "2 * LENGTH(23) + 3 \<le> LENGTH(52)" by simp
  have Fe: "2 * EXP_COMP TYPE(8) + 2 * int LENGTH(23) + 2 \<le> EXP_COMP TYPE(11)"
    by (simp add: EXP_COMP_def)
  have E: "2 \<le> LENGTH(8)" and F: "2 \<le> LENGTH(11)" by simp_all
  show ?thesis
    by (cases op)
      (simp_all add: PERFORM_BIN_OP_def narrow_fadd_widen [OF fa fb Fm Fe E F]
        narrow_fsub_widen [OF fa fb Fm Fe E F] narrow_fmul_widen [OF fa fb Fm Fe E F]
        narrow_fdiv_widen [OF fa fb Fm Fe E F narrow_default_nan64])
qed

lemma PERFORM_BIN_OP_narrow64:
  fixes a b :: binary64
  assumes "\<not> is_nan a" "\<not> is_inf a" "\<not> is_nan b" "\<not> is_inf b"
  shows "map_sum id (\<lambda>R. (fconvert R :: binary64))
           (PERFORM_BIN_OP op (fconvert a :: binary128) (fconvert b)) = PERFORM_BIN_OP op a b"
proof -
  have fa: "exponent a \<noteq> - 1" and fb: "exponent b \<noteq> - 1" using assms by (simp_all add: finite_iff)
  have Fm: "2 * LENGTH(52) + 3 \<le> LENGTH(112)" by simp
  have Fe: "2 * EXP_COMP TYPE(11) + 2 * int LENGTH(52) + 2 \<le> EXP_COMP TYPE(15)"
    by (simp add: EXP_COMP_def)
  have E: "2 \<le> LENGTH(11)" and F: "2 \<le> LENGTH(15)" by simp_all
  show ?thesis
    by (cases op)
      (simp_all add: PERFORM_BIN_OP_def narrow_fadd_widen [OF fa fb Fm Fe E F]
        narrow_fsub_widen [OF fa fb Fm Fe E F] narrow_fmul_widen [OF fa fb Fm Fe E F]
        narrow_fdiv_widen [OF fa fb Fm Fe E F narrow_default_nan128])
qed

lemma draws_constant_rng_state0 [simp]: "draws_constant u rng_state0"
  by (simp add: draws_constant_def rng_state0_def)

lemma draws_constant_init [simp]:
  "draws_constant u st \<Longrightarrow> draws_constant u (init_rng_state_struct st c s False)"
  by (simp add: draws_constant_def init_rng_state_struct_def)

lemma get_rand_double01_constant:
  assumes "draws_constant u st"
  shows "fst (get_rand_double01 (constant_platform u) st) = u"
    and "draws_constant u (snd (get_rand_double01 (constant_platform u) st))"
    and "random_state_valid (snd (get_rand_double01 (constant_platform u) st))"
  using assms
  by (auto simp add: get_rand_double01_def draws_constant_def constant_platform_def Let_def)

lemma mca_skip_eval_constant:
  assumes "draws_constant u st"
  shows "draws_constant u (snd (mca_skip_eval (constant_platform u) sp st))"
  using assms get_rand_double01_constant(2) [OF assms]
  by (simp add: mca_skip_eval_def split_beta)

lemma noise_binary64_constant:
  assumes "draws_constant u st"
  shows "fst (noise_binary64 (constant_platform u) e st) =
           (sign (fsub u half), exponent (fsub u half) + word_of_int e, mantissa (fsub u half))"
    and "draws_constant u (snd (noise_binary64 (constant_platform u) e st))"
    and "random_state_valid (snd (noise_binary64 (constant_platform u) e st))"
  using get_rand_double01_constant [OF assms]
  by (simp_all add: noise_binary64_def split_beta Let_def)

lemma noise_binary128_constant:
  assumes "draws_constant u st"
  shows "fst (noise_binary128 (constant_platform u) e st) =
           (sign (fsub (fconvert u :: binary128) half),
            exponent (fsub (fconvert u :: binary128) half) + word_of_int e,
            mantissa (fsub (fconvert u :: binary128) half))"
    and "draws_constant u (snd (noise_binary128 (constant_platform u) e st))"
    and "random_state_valid (snd (noise_binary128 (constant_platform u) e st))"
  using get_rand_double01_constant [OF assms]
  by (simp_all add: noise_binary128_def split_beta Let_def)

lemma INEXACT_perturbed:
  assumes "\<not> MUST_NOT_BE_NOISED g X t"
    and "relErr CTX" and "\<not> absErr CTX" and "fle (one :: binary32) (sparsity CTX)"
  shows "INEXACT NOISE env g X t CTX rng =
           (fadd X (fst (NOISE env (GET_EXP_FLT X - (t - 1))
                           (init_rng_state_struct rng (choose_seed CTX) (seed CTX) False))),
            snd (NOISE env (GET_EXP_FLT X - (t - 1))
                   (init_rng_state_struct rng (choose_seed CTX) (seed CTX) False)))"
  using assms
  by (simp add: INEXACT_def Let_def split_beta mca_skip_eval_full)

lemma MCA_BINARY_OP_mca:
  fixes A B :: "('e::len, 'm::len) ieee" and A0 B0 A1 B1 R R1 :: "('f::len, 'n::len) ieee"
    and IB :: "platform \<Rightarrow> globals \<Rightarrow> ('f::len, 'n::len) ieee \<Rightarrow> t_context \<Rightarrow> rng_state_t \<Rightarrow>
      ('f, 'n) ieee \<times> rng_state_t"
  assumes "MCALIB_MODE g = mcamode_mca"
    and "(if daz CTX then fconvert (DAZ A) else fconvert A) = A0"
    and "(if daz CTX then fconvert (DAZ B) else fconvert B) = B0"
    and "IB env g A0 CTX rng = (A1, r1)"
    and "IB env g B0 CTX r1 = (B1, r2)"
    and "PERFORM_BIN_OP OP A1 B1 = Inr R"
    and "IB env g R CTX r2 = (R1, r3)"
  shows "MCA_BINARY_OP IB env g A B OP CTX rng =
          Inr (fconvert (if ftz CTX then fconvert (FTZ (fconvert R1 :: ('e, 'm) ieee)) else R1), r3)"
  using assms by (cases "daz CTX") (simp_all add: MCA_BINARY_OP_def Let_def split_beta)

lemma not_noised_mca:
  assumes "MCALIB_MODE g = mcamode_mca \<or> MCALIB_MODE g = mcamode_pb"
    and "FPCLASSIFY X = FP_NORMAL \<or> FPCLASSIFY X = FP_SUBNORMAL"
  shows "\<not> MUST_NOT_BE_NOISED g X t"
  using assms by (auto simp add: MUST_NOT_BE_NOISED_def)

text \<open>The inexact functions on the constant platform of the draw \<open>0.75\<close>, in the
  default context: the noise is \<open>0.25 * 2\<^sup>e\<close>.\<close>

lemma inexact128_u075:
  assumes dc: "draws_constant u075 st"
    and nn: "\<not> MUST_NOT_BE_NOISED g X (MCALIB_BINARY64_T g)"
  shows "fst (mca_inexact_binary128 (constant_platform u075) g X init_context st) =
           fadd X (False, 16381 + word_of_int (GET_EXP_FLT X - (MCALIB_BINARY64_T g - 1)), 0)"
    and "draws_constant u075 (snd (mca_inexact_binary128 (constant_platform u075) g X init_context st))"
    and "random_state_valid (snd (mca_inexact_binary128 (constant_platform u075) g X init_context st))"
proof -
  let ?st = "init_rng_state_struct st (choose_seed init_context) (seed init_context) False"
  have d: "draws_constant u075 ?st" using dc by simp
  have i: "mca_inexact_binary128 (constant_platform u075) g X init_context st =
      (fadd X (fst (noise_binary128 (constant_platform u075)
                      (GET_EXP_FLT X - (MCALIB_BINARY64_T g - 1)) ?st)),
       snd (noise_binary128 (constant_platform u075)
              (GET_EXP_FLT X - (MCALIB_BINARY64_T g - 1)) ?st))"
    unfolding mca_inexact_binary128_def
    by (rule INEXACT_perturbed [OF nn]) (simp_all add: init_context_sel fle_one_one)
  show "fst (mca_inexact_binary128 (constant_platform u075) g X init_context st) =
           fadd X (False, 16381 + word_of_int (GET_EXP_FLT X - (MCALIB_BINARY64_T g - 1)), 0)"
    by (simp add: i noise_binary128_constant(1) [OF d] widen_u075 sub_u075_half128
        sign_def exponent_def mantissa_def)
  show "draws_constant u075 (snd (mca_inexact_binary128 (constant_platform u075) g X init_context st))"
    by (simp add: i noise_binary128_constant(2) [OF d])
  show "random_state_valid (snd (mca_inexact_binary128 (constant_platform u075) g X init_context st))"
    by (simp add: i noise_binary128_constant(3) [OF d])
qed

lemma inexact64_u075:
  assumes dc: "draws_constant u075 st"
    and nn: "\<not> MUST_NOT_BE_NOISED g X (MCALIB_BINARY32_T g)"
  shows "fst (mca_inexact_binary64 (constant_platform u075) g X init_context st) =
           fadd X (False, 1021 + word_of_int (GET_EXP_FLT X - (MCALIB_BINARY32_T g - 1)), 0)"
    and "draws_constant u075 (snd (mca_inexact_binary64 (constant_platform u075) g X init_context st))"
    and "random_state_valid (snd (mca_inexact_binary64 (constant_platform u075) g X init_context st))"
proof -
  let ?st = "init_rng_state_struct st (choose_seed init_context) (seed init_context) False"
  have d: "draws_constant u075 ?st" using dc by simp
  have i: "mca_inexact_binary64 (constant_platform u075) g X init_context st =
      (fadd X (fst (noise_binary64 (constant_platform u075)
                      (GET_EXP_FLT X - (MCALIB_BINARY32_T g - 1)) ?st)),
       snd (noise_binary64 (constant_platform u075)
              (GET_EXP_FLT X - (MCALIB_BINARY32_T g - 1)) ?st))"
    unfolding mca_inexact_binary64_def
    by (rule INEXACT_perturbed [OF nn]) (simp_all add: init_context_sel fle_one_one)
  show "fst (mca_inexact_binary64 (constant_platform u075) g X init_context st) =
           fadd X (False, 1021 + word_of_int (GET_EXP_FLT X - (MCALIB_BINARY32_T g - 1)), 0)"
    by (simp add: i noise_binary64_constant(1) [OF d] sub_u075_half64
        sign_def exponent_def mantissa_def)
  show "draws_constant u075 (snd (mca_inexact_binary64 (constant_platform u075) g X init_context st))"
    by (simp add: i noise_binary64_constant(2) [OF d])
  show "random_state_valid (snd (mca_inexact_binary64 (constant_platform u075) g X init_context st))"
    by (simp add: i noise_binary64_constant(3) [OF d])
qed

lemma inexact_special_constant:
  assumes dc: "draws_constant u st"
    and "FPCLASSIFY X \<noteq> FP_NORMAL" "FPCLASSIFY X \<noteq> FP_SUBNORMAL"
  shows "fst (INEXACT NOISE env g X t ctx st) = X"
    and "draws_constant u (snd (INEXACT NOISE env g X t ctx st))"
  using assms by (simp_all add: INEXACT_special)

lemma class_1e308: "FPCLASSIFY ((False, 2046, 0x1CCF385EBC8A0) :: binary64) = FP_NORMAL"
  "FPCLASSIFY ((False, 1026, 0x4000000000000) :: binary64) = FP_NORMAL"
  by (simp_all add: fp_eval)

lemma mul_1e308_10: "fmul ((False, 2046, 0x1CCF385EBC8A0) :: binary64) (False, 1026, 0x4000000000000) = infinity False"
  by (simp add: fp_eval)

lemma widen_1e308: "(fconvert ((False, 2046, 0x1CCF385EBC8A0) :: binary64) :: binary128) =
    (False, 17406, 0x1CCF385EBC8A0000000000000000)"
  by (simp add: fp_eval)

lemma widen_10: "(fconvert ((False, 1026, 0x4000000000000) :: binary64) :: binary128) =
    (False, 16386, 0x4000000000000000000000000000)"
  by (simp add: fp_eval)

lemma class_1e308_wide:
  "FPCLASSIFY ((False, 17406, 0x1CCF385EBC8A0000000000000000) :: binary128) = FP_NORMAL"
  "GET_EXP_FLT ((False, 17406, 0x1CCF385EBC8A0000000000000000) :: binary128) = 1023"
  "FPCLASSIFY ((False, 16386, 0x4000000000000000000000000000) :: binary128) = FP_NORMAL"
  "GET_EXP_FLT ((False, 16386, 0x4000000000000000000000000000) :: binary128) = 3"
  "FPCLASSIFY ((False, 17409, 0x640306766BAC89733CE17AF22810) :: binary128) = FP_NORMAL"
  "GET_EXP_FLT ((False, 17409, 0x640306766BAC89733CE17AF22810) :: binary128) = 1026"
  by (simp_all add: GET_EXP_FLT_def fp_eval)

lemma noised_1e308:
  "fadd ((False, 17406, 0x1CCF385EBC8A0000000000000000) :: binary128) (False, 17352, 0) =
     (False, 17406, 0x1CCF385EBC8A0400000000000000)"
  by (simp add: fp_eval)

lemma noised_10:
  "fadd ((False, 16386, 0x4000000000000000000000000000) :: binary128) (False, 16332, 0) =
     (False, 16386, 0x4000000000000400000000000000)"
  by (simp add: fp_eval)

lemma mul_noised_1e308_10:
  "fmul ((False, 17406, 0x1CCF385EBC8A0400000000000000) :: binary128)
        (False, 16386, 0x4000000000000400000000000000) =
     (False, 17409, 0x640306766BAC89733CE17AF22810)"
  by (simp add: fp_eval)

lemma noised_product_1e308_10:
  "fadd ((False, 17409, 0x640306766BAC89733CE17AF22810) :: binary128) (False, 17355, 0) =
     (False, 17409, 0x640306766BAC8D733CE17AF22810)"
  by (simp add: fp_eval)

lemma narrow_product_1e308_10:
  "(fconvert ((False, 17409, 0x640306766BAC8D733CE17AF22810) :: binary128) :: binary64) =
     infinity False"
  by (simp add: fp_eval)


lemma class_min_subnormal64: "FPCLASSIFY ((False, 0, 1) :: binary64) = FP_SUBNORMAL"
  by (simp add: FPCLASSIFY_def exponent_def mantissa_def)

lemma widen_min_subnormal64: "(fconvert ((False, 0, 1) :: binary64) :: binary128) = (False, 15309, 0)"
  by (simp add: fp_eval)

lemma add_min_subnormal_zero64n:
  "fadd ((False, 0, 1) :: binary64) (signed_zero False) = (False, 0, 1)"
  by (simp add: fp_eval)

lemma class_min_subnormal_wide:
  "FPCLASSIFY ((False, 874, 0) :: binary64) = FP_NORMAL"
  "GET_EXP_FLT ((False, 874, 0) :: binary64) = - 149"
  "FPCLASSIFY ((False, 1023, 0) :: binary64) = FP_NORMAL"
  "GET_EXP_FLT ((False, 1023, 0) :: binary64) = 0"
  "FPCLASSIFY ((False, 874, 0x10000004) :: binary64) = FP_NORMAL"
  "GET_EXP_FLT ((False, 874, 0x10000004) :: binary64) = - 149"
  "FPCLASSIFY ((False, 15309, 0) :: binary128) = FP_NORMAL"
  "GET_EXP_FLT ((False, 15309, 0) :: binary128) = - 1074"
  "FPCLASSIFY ((False, 16383, 0) :: binary128) = FP_NORMAL"
  "GET_EXP_FLT ((False, 16383, 0) :: binary128) = 0"
  "FPCLASSIFY ((False, 15309, 0x800000000000010) :: binary128) = FP_NORMAL"
  "GET_EXP_FLT ((False, 15309, 0x800000000000010) :: binary128) = - 1074"
  by (simp_all add: GET_EXP_FLT_def fp_eval)

lemma noised_min_subnormal64:
  "fadd ((False, 874, 0) :: binary64) (False, 849, 0) = (False, 874, 0x8000000)"
  by (simp add: fp_eval)

lemma noised_one64:
  "fadd ((False, 1023, 0) :: binary64) (False, 998, 0) = (False, 1023, 0x8000000)"
  by (simp add: fp_eval)

lemma mul_noised_min_subnormal64:
  "fmul ((False, 874, 0x8000000) :: binary64) (False, 1023, 0x8000000) = (False, 874, 0x10000004)"
  by (simp add: fp_eval)

lemma noised_product_min_subnormal64:
  "fadd ((False, 874, 0x10000004) :: binary64) (False, 849, 0) = (False, 874, 0x18000004)"
  by (simp add: fp_eval)

lemma narrow_product_min_subnormal64:
  "(fconvert ((False, 874, 0x18000004) :: binary64) :: binary32) = (False, 0, 1)"
  by (simp add: fp_eval)

lemma mul_zero_noised_one64:
  "fmul (signed_zero False) ((False, 1023, 0x8000000) :: binary64) = signed_zero False"
  by (simp add: fmul_def is_nan_def is_inf_def is_zero_def FPCLASSIFY_signed_zero)
     (simp add: fp_eval)

lemma noised_min_subnormal128:
  "fadd ((False, 15309, 0) :: binary128) (False, 15255, 0) = (False, 15309, 0x400000000000000)"
  by (simp add: fp_eval)

lemma noised_one128:
  "fadd ((False, 16383, 0) :: binary128) (False, 16329, 0) = (False, 16383, 0x400000000000000)"
  by (simp add: fp_eval)

lemma mul_noised_min_subnormal128:
  "fmul ((False, 15309, 0x400000000000000) :: binary128) (False, 16383, 0x400000000000000) =
     (False, 15309, 0x800000000000010)"
  by (simp add: fp_eval)

lemma noised_product_min_subnormal128:
  "fadd ((False, 15309, 0x800000000000010) :: binary128) (False, 15255, 0) =
     (False, 15309, 0xC00000000000010)"
  by (simp add: fp_eval)

lemma narrow_product_min_subnormal128:
  "(fconvert ((False, 15309, 0xC00000000000010) :: binary128) :: binary64) = (False, 0, 1)"
  by (simp add: fp_eval)

lemma mul_zero_noised_one128:
  "fmul (signed_zero False) ((False, 16383, 0x400000000000000) :: binary128) = signed_zero False"
  by (simp add: fmul_def is_nan_def is_inf_def is_zero_def FPCLASSIFY_signed_zero)
     (simp add: fp_eval)

lemma PERFORM_BIN_OP_map:
  "map_sum id (\<lambda>R. (f (h R), s)) (PERFORM_BIN_OP op A B) =
     map_sum id (\<lambda>r. (f r, s)) (map_sum id h (PERFORM_BIN_OP op A B))"
  by (cases "PERFORM_BIN_OP op A B") simp_all

lemma flushed_finite:
  assumes "\<not> is_nan a" "\<not> is_inf a"
  shows "\<not> is_nan (if d \<and> FPCLASSIFY a = FP_SUBNORMAL then signed_zero (sign a) else a)"
    and "\<not> is_inf (if d \<and> FPCLASSIFY a = FP_SUBNORMAL then signed_zero (sign a) else a)"
  using assms by (simp_all add: is_nan_def is_inf_def FPCLASSIFY_signed_zero)

lemma mca_inexact_flags [simp]:
  "mca_inexact_binary64 env g X (ctx\<lparr>daz := x\<rparr>) st = mca_inexact_binary64 env g X ctx st"
  "mca_inexact_binary64 env g X (ctx\<lparr>ftz := x\<rparr>) st = mca_inexact_binary64 env g X ctx st"
  "mca_inexact_binary128 env g Y (ctx\<lparr>daz := x\<rparr>) st = mca_inexact_binary128 env g Y ctx st"
  "mca_inexact_binary128 env g Y (ctx\<lparr>ftz := x\<rparr>) st = mca_inexact_binary128 env g Y ctx st"
  by (simp_all add: mca_inexact_binary64_def mca_inexact_binary128_def INEXACT_def Let_def
      split_beta)

lemma mca_inexact_zero:
  "mca_inexact_binary64 env g (signed_zero s) ctx st =
     (signed_zero s, init_rng_state_struct st (choose_seed ctx) (seed ctx) False)"
  "mca_inexact_binary128 env g (signed_zero s) ctx st =
     (signed_zero s, init_rng_state_struct st (choose_seed ctx) (seed ctx) False)"
  by (simp_all add: mca_inexact_binary64_def mca_inexact_binary128_def INEXACT_special
      FPCLASSIFY_signed_zero)

text \<open>The three perturbations of the product of the smallest subnormal by one, in the
  default mode with the draw \<open>0.75\<close>.\<close>

lemma inexact64_min_subnormal:
  assumes dc: "draws_constant u075 st"
  shows "fst (mca_inexact_binary64 (constant_platform u075) static_globals (False, 874, 0)
            init_context st) = (False, 874, 0x8000000)"
    and "fst (mca_inexact_binary64 (constant_platform u075) static_globals (False, 1023, 0)
            init_context st) = (False, 1023, 0x8000000)"
    and "fst (mca_inexact_binary64 (constant_platform u075) static_globals (False, 874, 0x10000004)
            init_context st) = (False, 874, 0x18000004)"
    and "draws_constant u075 (snd (mca_inexact_binary64 (constant_platform u075) static_globals
            (False, 874, 0) init_context st))"
    and "draws_constant u075 (snd (mca_inexact_binary64 (constant_platform u075) static_globals
            (False, 1023, 0) init_context st))"
proof -
  have m: "MCALIB_MODE static_globals = mcamode_mca" "MCALIB_BINARY32_T static_globals = 24"
    by (simp_all add: static_globals_sel MCA_MODE_DEFAULT_def)
  have nA: "\<not> MUST_NOT_BE_NOISED static_globals ((False, 874, 0) :: binary64)
      (MCALIB_BINARY32_T static_globals)"
    and nB: "\<not> MUST_NOT_BE_NOISED static_globals ((False, 1023, 0) :: binary64)
      (MCALIB_BINARY32_T static_globals)"
    and nR: "\<not> MUST_NOT_BE_NOISED static_globals ((False, 874, 0x10000004) :: binary64)
      (MCALIB_BINARY32_T static_globals)"
    by (rule not_noised_mca; simp add: m class_min_subnormal_wide)+
  show "fst (mca_inexact_binary64 (constant_platform u075) static_globals (False, 874, 0)
            init_context st) = (False, 874, 0x8000000)"
    by (simp add: inexact64_u075(1) [OF dc nA] m class_min_subnormal_wide noised_min_subnormal64)
  show "fst (mca_inexact_binary64 (constant_platform u075) static_globals (False, 1023, 0)
            init_context st) = (False, 1023, 0x8000000)"
    by (simp add: inexact64_u075(1) [OF dc nB] m class_min_subnormal_wide noised_one64)
  show "fst (mca_inexact_binary64 (constant_platform u075) static_globals (False, 874, 0x10000004)
            init_context st) = (False, 874, 0x18000004)"
    by (simp add: inexact64_u075(1) [OF dc nR] m class_min_subnormal_wide
        noised_product_min_subnormal64)
  show "draws_constant u075 (snd (mca_inexact_binary64 (constant_platform u075) static_globals
            (False, 874, 0) init_context st))"
    by (rule inexact64_u075(2) [OF dc nA])
  show "draws_constant u075 (snd (mca_inexact_binary64 (constant_platform u075) static_globals
            (False, 1023, 0) init_context st))"
    by (rule inexact64_u075(2) [OF dc nB])
qed

lemma inexact128_min_subnormal:
  assumes dc: "draws_constant u075 st"
  shows "fst (mca_inexact_binary128 (constant_platform u075) static_globals (False, 15309, 0)
            init_context st) = (False, 15309, 0x400000000000000)"
    and "fst (mca_inexact_binary128 (constant_platform u075) static_globals (False, 16383, 0)
            init_context st) = (False, 16383, 0x400000000000000)"
    and "fst (mca_inexact_binary128 (constant_platform u075) static_globals
            (False, 15309, 0x800000000000010) init_context st) = (False, 15309, 0xC00000000000010)"
    and "draws_constant u075 (snd (mca_inexact_binary128 (constant_platform u075) static_globals
            (False, 15309, 0) init_context st))"
    and "draws_constant u075 (snd (mca_inexact_binary128 (constant_platform u075) static_globals
            (False, 16383, 0) init_context st))"
proof -
  have m: "MCALIB_MODE static_globals = mcamode_mca" "MCALIB_BINARY64_T static_globals = 53"
    by (simp_all add: static_globals_sel MCA_MODE_DEFAULT_def)
  have nA: "\<not> MUST_NOT_BE_NOISED static_globals ((False, 15309, 0) :: binary128)
      (MCALIB_BINARY64_T static_globals)"
    and nB: "\<not> MUST_NOT_BE_NOISED static_globals ((False, 16383, 0) :: binary128)
      (MCALIB_BINARY64_T static_globals)"
    and nR: "\<not> MUST_NOT_BE_NOISED static_globals ((False, 15309, 0x800000000000010) :: binary128)
      (MCALIB_BINARY64_T static_globals)"
    by (rule not_noised_mca; simp add: m class_min_subnormal_wide)+
  show "fst (mca_inexact_binary128 (constant_platform u075) static_globals (False, 15309, 0)
            init_context st) = (False, 15309, 0x400000000000000)"
    by (simp add: inexact128_u075(1) [OF dc nA] m class_min_subnormal_wide noised_min_subnormal128)
  show "fst (mca_inexact_binary128 (constant_platform u075) static_globals (False, 16383, 0)
            init_context st) = (False, 16383, 0x400000000000000)"
    by (simp add: inexact128_u075(1) [OF dc nB] m class_min_subnormal_wide noised_one128)
  show "fst (mca_inexact_binary128 (constant_platform u075) static_globals
            (False, 15309, 0x800000000000010) init_context st) = (False, 15309, 0xC00000000000010)"
    by (simp add: inexact128_u075(1) [OF dc nR] m class_min_subnormal_wide
        noised_product_min_subnormal128)
  show "draws_constant u075 (snd (mca_inexact_binary128 (constant_platform u075) static_globals
            (False, 15309, 0) init_context st))"
    by (rule inexact128_u075(2) [OF dc nA])
  show "draws_constant u075 (snd (mca_inexact_binary128 (constant_platform u075) static_globals
            (False, 16383, 0) init_context st))"
    by (rule inexact128_u075(2) [OF dc nB])
qed

section \<open>Results\<close>

subsection \<open>Default configuration\<close>

text \<open>
  C10. When \<^verbatim>\<open>interflop_init\<close> runs with no backend option, the effective
  configuration is: mode \<open>mca\<close>, relative error only (\<open>relErr\<close> true, \<open>absErr\<close>
  false), \<open>absErr_exp = 112\<close>, virtual precisions 24 and 53, no chosen seed and
  \<open>seed = 0\<close>, \<open>daz\<close> and \<open>ftz\<close> false, and sparsity 1. In particular the default
  mode is \<open>mca\<close>, not \<open>ieee\<close>.
\<close>

theorem interflop_init_defaults:
  "\<exists>g ctx r.
     interflop_init [] rng_state = Inr (g, ctx, r) \<and>
     MCALIB_MODE g = mcamode_mca \<and> MCALIB_MODE g \<noteq> mcamode_ieee \<and>
     relErr ctx \<and> \<not> absErr ctx \<and> absErr_exp ctx = 112 \<and>
     MCALIB_BINARY32_T g = 24 \<and> MCALIB_BINARY64_T g = 53 \<and>
     \<not> choose_seed ctx \<and> seed ctx = 0 \<and> \<not> daz ctx \<and> \<not> ftz ctx \<and>
     sparsity ctx = (False, 127, 0) \<and> valof (sparsity ctx) = 1"
  by (simp add: interflop_init_def set_mca_precision_binary32_def
      set_mca_precision_binary64_def set_precision_def set_mca_mode_def static_globals_def
      init_context_def MCA_PRECISION_BINARY32_MIN_def MCA_PRECISION_BINARY32_MAX_def
      MCA_PRECISION_BINARY64_MIN_def MCA_PRECISION_BINARY64_MAX_def
      MCA_PRECISION_BINARY32_DEFAULT_def MCA_PRECISION_BINARY64_DEFAULT_def
      MCA_MODE_DEFAULT_def one_def EXP_COMP_def valof_def QMIN_def sign_def exponent_def
      mantissa_def)

subsection \<open>Mode ieee\<close>

text \<open>
  C1 claims that with mode \<open>ieee\<close> the driver returns the native result \<open>a op b\<close>
  for every finite pair of operands. The driver applies \<open>DAZ\<close> and \<open>FTZ\<close> in every
  mode, mode \<open>ieee\<close> included: with \<open>daz\<close> set, the smallest positive subnormal plus
  zero is zero, and the native sum is the subnormal.
\<close>

theorem ieee_mode_identity_counterexample:
  "FPCLASSIFY ((False, 0, 1) :: binary32) = FP_SUBNORMAL \<and>
   FPCLASSIFY (signed_zero False :: binary32) = FP_ZERO \<and>
   map_sum id fst
     (mca_binary32_binary_op (constant_platform half)
        (static_globals\<lparr>MCALIB_MODE := mcamode_ieee\<rparr>) (False, 0, 1) (signed_zero False)
        mca_add (init_context\<lparr>daz := True\<rparr>) rng_state0) = Inr (signed_zero False) \<and>
   PERFORM_BIN_OP mca_add ((False, 0, 1) :: binary32) (signed_zero False) = Inr (False, 0, 1) \<and>
   map_sum id fst
     (mca_binary32_binary_op (constant_platform half)
        (static_globals\<lparr>MCALIB_MODE := mcamode_ieee\<rparr>) (False, 0, 1) (signed_zero False)
        mca_add (init_context\<lparr>daz := True\<rparr>) rng_state0) \<noteq>
   PERFORM_BIN_OP mca_add ((False, 0, 1) :: binary32) (signed_zero False)"
proof -
  have "mca_binary32_binary_op (constant_platform half)
        (static_globals\<lparr>MCALIB_MODE := mcamode_ieee\<rparr>) (False, 0, 1) (signed_zero False)
        mca_add (init_context\<lparr>daz := True\<rparr>) rng_state0 = Inr (signed_zero False, rng_state0)"
    by (simp add: mca_binary32_binary_op_def MCA_BINARY_OP_def PERFORM_BIN_OP_def
        init_context_sel DAZ_min_subnormal32 fconvert_signed_zero add_zero_zero)
  moreover have "signed_zero False \<noteq> ((False, 0, 1) :: binary32)"
    by (simp add: signed_zero_def)
  ultimately show ?thesis
    by (simp add: PERFORM_BIN_OP_def add_min_subnormal_zero32 class_min_subnormal32
        FPCLASSIFY_signed_zero)
qed

text \<open>
  C1, amended. With mode \<open>ieee\<close> and both \<open>daz\<close> and \<open>ftz\<close> off, for every
  finite pair of operands of a given width (binary32 or binary64) and every operator the
  driver returns a result bit-identical to the native IEEE-754 result \<open>a op b\<close> at that
  width, although the operation is carried out at the working precision (binary64 for
  binary32 operands, binary128 for binary64 operands) and then narrowed; the state of the
  generator is returned as it was. \<open>PERFORM_BIN_OP op a b\<close> on the operands themselves is
  the operation at their own width, rounded once.
\<close>

theorem ieee_mode_native_result:
  fixes a b :: binary32 and c d :: binary64
  shows
  "(MCALIB_MODE g = mcamode_ieee \<and> \<not> daz ctx \<and> \<not> ftz ctx \<and>
    \<not> is_nan a \<and> \<not> is_inf a \<and> \<not> is_nan b \<and> \<not> is_inf b \<longrightarrow>
      mca_binary32_binary_op env g a b op ctx rng =
        map_sum id (\<lambda>r. (r, rng)) (PERFORM_BIN_OP op a b)) \<and>
   (MCALIB_MODE g = mcamode_ieee \<and> \<not> daz ctx \<and> \<not> ftz ctx \<and>
    \<not> is_nan c \<and> \<not> is_inf c \<and> \<not> is_nan d \<and> \<not> is_inf d \<longrightarrow>
      mca_binary64_binary_op env g c d op ctx rng =
        map_sum id (\<lambda>r. (r, rng)) (PERFORM_BIN_OP op c d))"
proof (intro conjI impI)
  assume h: "MCALIB_MODE g = mcamode_ieee \<and> \<not> daz ctx \<and> \<not> ftz ctx \<and>
    \<not> is_nan a \<and> \<not> is_inf a \<and> \<not> is_nan b \<and> \<not> is_inf b"
  have n: "map_sum id (\<lambda>R. (fconvert R :: binary32))
      (PERFORM_BIN_OP op (fconvert a :: binary64) (fconvert b)) = PERFORM_BIN_OP op a b"
    using h by (intro PERFORM_BIN_OP_narrow32) simp_all
  have "mca_binary32_binary_op env g a b op ctx rng =
      map_sum id (\<lambda>R. (fconvert R, rng)) (PERFORM_BIN_OP op (fconvert a :: binary64) (fconvert b))"
    using h
    by (auto simp add: mca_binary32_binary_op_def MCA_BINARY_OP_ieee [OF _ refl refl]
        split: sum.splits)
  also have "\<dots> = map_sum id (\<lambda>r. (r, rng))
      (map_sum id (\<lambda>R. (fconvert R :: binary32))
         (PERFORM_BIN_OP op (fconvert a :: binary64) (fconvert b)))"
    by (cases "PERFORM_BIN_OP op (fconvert a :: binary64) (fconvert b)") simp_all
  finally show "mca_binary32_binary_op env g a b op ctx rng =
      map_sum id (\<lambda>r. (r, rng)) (PERFORM_BIN_OP op a b)"
    by (simp only: n)
next
  assume h: "MCALIB_MODE g = mcamode_ieee \<and> \<not> daz ctx \<and> \<not> ftz ctx \<and>
    \<not> is_nan c \<and> \<not> is_inf c \<and> \<not> is_nan d \<and> \<not> is_inf d"
  have n: "map_sum id (\<lambda>R. (fconvert R :: binary64))
      (PERFORM_BIN_OP op (fconvert c :: binary128) (fconvert d)) = PERFORM_BIN_OP op c d"
    using h by (intro PERFORM_BIN_OP_narrow64) simp_all
  have "mca_binary64_binary_op env g c d op ctx rng =
      map_sum id (\<lambda>R. (fconvert R, rng)) (PERFORM_BIN_OP op (fconvert c :: binary128) (fconvert d))"
    using h
    by (auto simp add: mca_binary64_binary_op_def MCA_BINARY_OP_ieee [OF _ refl refl]
        split: sum.splits)
  also have "\<dots> = map_sum id (\<lambda>r. (r, rng))
      (map_sum id (\<lambda>R. (fconvert R :: binary64))
         (PERFORM_BIN_OP op (fconvert c :: binary128) (fconvert d)))"
    by (cases "PERFORM_BIN_OP op (fconvert c :: binary128) (fconvert d)") simp_all
  finally show "mca_binary64_binary_op env g c d op ctx rng =
      map_sum id (\<lambda>r. (r, rng)) (PERFORM_BIN_OP op c d)"
    by (simp only: n)
qed

text \<open>\<open>1e20 + 1.0\<close> in binary32 is \<open>1e20\<close>, through the driver and natively, and
  \<open>1.0 + 1.0\<close> in binary64 is \<open>2.0\<close>.\<close>

theorem ieee_mode_native_result_witness:
  "mca_binary32_binary_op (constant_platform half)
     (static_globals\<lparr>MCALIB_MODE := mcamode_ieee\<rparr>) (False, 193, 0x2D78EC) one mca_add
     init_context rng_state0 = Inr ((False, 193, 0x2D78EC), rng_state0) \<and>
   fadd ((False, 193, 0x2D78EC) :: binary32) one = (False, 193, 0x2D78EC) \<and>
   mca_binary64_binary_op (constant_platform half)
     (static_globals\<lparr>MCALIB_MODE := mcamode_ieee\<rparr>) one one mca_add
     init_context rng_state0 = Inr ((False, 1024, 0), rng_state0) \<and>
   fadd (one :: binary64) one = (False, 1024, 0)"
  using ieee_mode_native_result
    [where g = "static_globals\<lparr>MCALIB_MODE := mcamode_ieee\<rparr>" and ctx = init_context
       and env = "constant_platform half" and rng = rng_state0 and op = mca_add
       and a = "(False, 193, 0x2D78EC)" and b = one and c = one and d = one]
  by (simp add: init_context_sel PERFORM_BIN_OP_def finite_1e20f finite_one add_1e20_one32
      add_one_one64')

subsection \<open>Random rounding of exact results\<close>

text \<open>
  C2. With mode \<open>rr\<close>, for every operand pair and operator whose result computed at
  the working precision is representable in the virtual precision \<open>t\<close> (for example
  \<open>1.0 + 1.0\<close> at \<open>t = 24\<close>), the returned result is the unperturbed one, for every
  seed: it is the working-precision result narrowed, no draw is consumed, and it equals
  what the driver returns in mode \<open>ieee\<close> on the same context, whatever the platform
  and the state of the generator. \<open>R\<close> and \<open>Q\<close> are the results at the working
  precision, computed from the operands as the driver widens them.
\<close>

theorem rr_representable_result_unperturbed:
  fixes a b :: binary32 and R :: binary64 and c d :: binary64 and Q :: binary128
  shows
  "(MCALIB_MODE g = mcamode_rr \<and>
    PERFORM_BIN_OP op
      (if daz ctx then fconvert (DAZ a) else fconvert a)
      (if daz ctx then fconvert (DAZ b) else fconvert b) = Inr R \<and>
    IS_REPRESENTABLE R (MCALIB_BINARY32_T g) \<longrightarrow>
    mca_binary32_binary_op env g a b op ctx rng =
      Inr (fconvert (if ftz ctx then fconvert (FTZ (fconvert R :: binary32)) else R),
           init_rng_state_struct rng (choose_seed ctx) (seed ctx) False) \<and>
    map_sum id fst (mca_binary32_binary_op env g a b op ctx rng) =
      map_sum id fst
        (mca_binary32_binary_op env' (g\<lparr>MCALIB_MODE := mcamode_ieee\<rparr>) a b op ctx rng')) \<and>
   (MCALIB_MODE g = mcamode_rr \<and>
    PERFORM_BIN_OP op
      (if daz ctx then fconvert (DAZ c) else fconvert c)
      (if daz ctx then fconvert (DAZ d) else fconvert d) = Inr Q \<and>
    IS_REPRESENTABLE Q (MCALIB_BINARY64_T g) \<longrightarrow>
    mca_binary64_binary_op env g c d op ctx rng =
      Inr (fconvert (if ftz ctx then fconvert (FTZ (fconvert Q :: binary64)) else Q),
           init_rng_state_struct rng (choose_seed ctx) (seed ctx) False) \<and>
    map_sum id fst (mca_binary64_binary_op env g c d op ctx rng) =
      map_sum id fst
        (mca_binary64_binary_op env' (g\<lparr>MCALIB_MODE := mcamode_ieee\<rparr>) c d op ctx rng'))"
proof (intro conjI impI)
  assume h: "MCALIB_MODE g = mcamode_rr \<and>
    PERFORM_BIN_OP op
      (if daz ctx then fconvert (DAZ a) else fconvert a)
      (if daz ctx then fconvert (DAZ b) else fconvert b) = Inr R \<and>
    IS_REPRESENTABLE R (MCALIB_BINARY32_T g)"
  have i: "mca_inexact_binary64 env g R ctx rng =
      (R, init_rng_state_struct rng (choose_seed ctx) (seed ctx) False)"
    using h by (simp add: mca_inexact_binary64_def INEXACT_rr_representable)
  show e: "mca_binary32_binary_op env g a b op ctx rng =
      Inr (fconvert (if ftz ctx then fconvert (FTZ (fconvert R :: binary32)) else R),
           init_rng_state_struct rng (choose_seed ctx) (seed ctx) False)"
    unfolding mca_binary32_binary_op_def
    using MCA_BINARY_OP_rr_unperturbed [of g ctx a _ b _ op R mca_inexact_binary64 env rng] h i
    by simp
  show "map_sum id fst (mca_binary32_binary_op env g a b op ctx rng) =
      map_sum id fst
        (mca_binary32_binary_op env' (g\<lparr>MCALIB_MODE := mcamode_ieee\<rparr>) a b op ctx rng')"
    unfolding e unfolding mca_binary32_binary_op_def
    using h by (subst MCA_BINARY_OP_ieee [OF _ refl refl]) simp_all
next
  assume h: "MCALIB_MODE g = mcamode_rr \<and>
    PERFORM_BIN_OP op
      (if daz ctx then fconvert (DAZ c) else fconvert c)
      (if daz ctx then fconvert (DAZ d) else fconvert d) = Inr Q \<and>
    IS_REPRESENTABLE Q (MCALIB_BINARY64_T g)"
  have i: "mca_inexact_binary128 env g Q ctx rng =
      (Q, init_rng_state_struct rng (choose_seed ctx) (seed ctx) False)"
    using h by (simp add: mca_inexact_binary128_def INEXACT_rr_representable)
  show e: "mca_binary64_binary_op env g c d op ctx rng =
      Inr (fconvert (if ftz ctx then fconvert (FTZ (fconvert Q :: binary64)) else Q),
           init_rng_state_struct rng (choose_seed ctx) (seed ctx) False)"
    unfolding mca_binary64_binary_op_def
    using MCA_BINARY_OP_rr_unperturbed [of g ctx c _ d _ op Q mca_inexact_binary128 env rng] h i
    by simp
  show "map_sum id fst (mca_binary64_binary_op env g c d op ctx rng) =
      map_sum id fst
        (mca_binary64_binary_op env' (g\<lparr>MCALIB_MODE := mcamode_ieee\<rparr>) c d op ctx rng')"
    unfolding e unfolding mca_binary64_binary_op_def
    using h by (subst MCA_BINARY_OP_ieee [OF _ refl refl]) simp_all
qed

text \<open>The example of the claim: \<open>1.0 + 1.0\<close> is \<open>2.0\<close> in mode \<open>rr\<close> at the
  default virtual precisions, for both operand types.\<close>

theorem rr_representable_result_unperturbed_witness:
  "mca_binary32_binary_op (constant_platform half) (static_globals\<lparr>MCALIB_MODE := mcamode_rr\<rparr>)
     one one mca_add init_context rng_state0 =
     Inr ((False, 128, 0), init_rng_state_struct rng_state0 False 0 False) \<and>
   mca_binary64_binary_op (constant_platform half) (static_globals\<lparr>MCALIB_MODE := mcamode_rr\<rparr>)
     one one mca_add init_context rng_state0 =
     Inr ((False, 1024, 0), init_rng_state_struct rng_state0 False 0 False)"
  using rr_representable_result_unperturbed
    [where g = "static_globals\<lparr>MCALIB_MODE := mcamode_rr\<rparr>" and ctx = init_context
       and a = one and b = one and R = "(False, 1024, 0)" and op = mca_add
       and c = one and d = one and Q = "(False, 16384, 0)"
       and env = "constant_platform half" and rng = rng_state0
       and env' = "constant_platform half" and rng' = rng_state0]
  by (simp add: widen_one32 add_one_one64 narrow_two64 two64_representable_24 widen_one64 add_one_one128 narrow_two128 PERFORM_BIN_OP_def init_context_def static_globals_def
      IS_REPRESENTABLE_def low_bits_zero_def FPCLASSIFY_def exponent_def mantissa_def
      FTZ_def MCA_PRECISION_BINARY32_DEFAULT_def MCA_PRECISION_BINARY64_DEFAULT_def)

subsection \<open>Class preservation\<close>

text \<open>
  C3 claims that noise is never applied to an input or a result of class zero, infinite
  or NaN, and gives \<open>1e308 * 10.0\<close> in binary64 as an example, said to return
  \<open>+\<infinity>\<close> with no noise. The class is tested by the inexact functions on the values
  of the working precision. In the default mode \<open>mca\<close> both operands are normal and are
  perturbed, and their product at binary128 is a normal number, not an infinity, and is
  perturbed as well: with the draw \<open>0.75\<close> the first operand becomes
  \<open>1e308 + 2\<^sup>9\<^sup>6\<^sup>9\<close>, the generator is initialised and drawn from, and the infinity
  appears only when the perturbed product is narrowed to binary64. The native product is
  \<open>+\<infinity>\<close>.
\<close>

theorem overflow_on_narrowing_is_noised:
  "FPCLASSIFY ((False, 2046, 0x1CCF385EBC8A0) :: binary64) = FP_NORMAL \<and>
   FPCLASSIFY ((False, 1026, 0x4000000000000) :: binary64) = FP_NORMAL \<and>
   fmul ((False, 2046, 0x1CCF385EBC8A0) :: binary64) (False, 1026, 0x4000000000000) = infinity False \<and>
   MCALIB_MODE static_globals = mcamode_mca \<and>
   fst (mca_inexact_binary128 (constant_platform u075) static_globals
          (fconvert ((False, 2046, 0x1CCF385EBC8A0) :: binary64)) init_context rng_state0) =
     (False, 17406, 0x1CCF385EBC8A0400000000000000) \<and>
   (fconvert ((False, 2046, 0x1CCF385EBC8A0) :: binary64) :: binary128) \<noteq>
     (False, 17406, 0x1CCF385EBC8A0400000000000000) \<and>
   fmul ((False, 17406, 0x1CCF385EBC8A0400000000000000) :: binary128)
        (False, 16386, 0x4000000000000400000000000000) =
     (False, 17409, 0x640306766BAC89733CE17AF22810) \<and>
   FPCLASSIFY ((False, 17409, 0x640306766BAC89733CE17AF22810) :: binary128) = FP_NORMAL \<and>
   map_sum id (\<lambda>(r, s). (r, random_state_valid s))
     (mca_binary64_binary_op (constant_platform u075) static_globals
        (False, 2046, 0x1CCF385EBC8A0) (False, 1026, 0x4000000000000) mca_mul
        init_context rng_state0) = Inr (infinity False, True) \<and>
   \<not> random_state_valid (init_rng_state_struct rng_state0 (choose_seed init_context)
        (seed init_context) False)"
proof -
  let ?E = "constant_platform u075" and ?g = static_globals
  let ?A0 = "(False, 17406, 0x1CCF385EBC8A0000000000000000) :: binary128"
  let ?B0 = "(False, 16386, 0x4000000000000000000000000000) :: binary128"
  let ?A1 = "(False, 17406, 0x1CCF385EBC8A0400000000000000) :: binary128"
  let ?B1 = "(False, 16386, 0x4000000000000400000000000000) :: binary128"
  let ?R = "(False, 17409, 0x640306766BAC89733CE17AF22810) :: binary128"
  let ?R1 = "(False, 17409, 0x640306766BAC8D733CE17AF22810) :: binary128"
  let ?r1 = "snd (mca_inexact_binary128 ?E ?g ?A0 init_context rng_state0)"
  let ?r2 = "snd (mca_inexact_binary128 ?E ?g ?B0 init_context ?r1)"
  let ?r3 = "snd (mca_inexact_binary128 ?E ?g ?R init_context ?r2)"
  have m: "MCALIB_MODE ?g = mcamode_mca" "MCALIB_BINARY64_T ?g = 53"
    by (simp_all add: static_globals_sel MCA_MODE_DEFAULT_def)
  have nA: "\<not> MUST_NOT_BE_NOISED ?g ?A0 (MCALIB_BINARY64_T ?g)"
    and nB: "\<not> MUST_NOT_BE_NOISED ?g ?B0 (MCALIB_BINARY64_T ?g)"
    and nR: "\<not> MUST_NOT_BE_NOISED ?g ?R (MCALIB_BINARY64_T ?g)"
    by (rule not_noised_mca; simp add: m class_1e308_wide)+
  have a: "fst (mca_inexact_binary128 ?E ?g ?A0 init_context rng_state0) = ?A1"
    by (simp add: inexact128_u075(1) [OF draws_constant_rng_state0 nA] m class_1e308_wide noised_1e308)
  have d1: "draws_constant u075 ?r1"
    by (rule inexact128_u075(2) [OF draws_constant_rng_state0 nA])
  have b: "fst (mca_inexact_binary128 ?E ?g ?B0 init_context ?r1) = ?B1"
    by (simp add: inexact128_u075(1) [OF d1 nB] m class_1e308_wide noised_10)
  have d2: "draws_constant u075 ?r2" by (rule inexact128_u075(2) [OF d1 nB])
  have r: "fst (mca_inexact_binary128 ?E ?g ?R init_context ?r2) = ?R1"
    by (simp add: inexact128_u075(1) [OF d2 nR] m class_1e308_wide noised_product_1e308_10)
  have v: "random_state_valid ?r3" by (rule inexact128_u075(3) [OF d2 nR])
  have "mca_binary64_binary_op ?E ?g (False, 2046, 0x1CCF385EBC8A0) (False, 1026, 0x4000000000000)
      mca_mul init_context rng_state0 = Inr (infinity False, ?r3)"
    unfolding mca_binary64_binary_op_def
    by (subst MCA_BINARY_OP_mca [where ?A0.0 = ?A0 and ?B0.0 = ?B0 and ?A1.0 = ?A1 and ?B1.0 = ?B1
          and R = ?R and ?R1.0 = ?R1 and ?r1.0 = ?r1 and ?r2.0 = ?r2 and ?r3.0 = ?r3])
      (simp_all add: m init_context_sel widen_1e308 widen_10 PERFORM_BIN_OP_def
        mul_noised_1e308_10 narrow_product_1e308_10 prod_eq_iff a b r)
  then have 1: "map_sum id (\<lambda>(r, s). (r, random_state_valid s))
     (mca_binary64_binary_op ?E ?g (False, 2046, 0x1CCF385EBC8A0) (False, 1026, 0x4000000000000)
        mca_mul init_context rng_state0) = Inr (infinity False, True)"
    using v by simp
  have 2: "fst (mca_inexact_binary128 ?E ?g
          (fconvert ((False, 2046, 0x1CCF385EBC8A0) :: binary64)) init_context rng_state0) = ?A1"
    by (simp only: widen_1e308 a)
  have 3: "\<not> random_state_valid (init_rng_state_struct rng_state0 (choose_seed init_context)
        (seed init_context) False)"
    by (simp add: init_rng_state_struct_def rng_state0_def)
  have 4: "(fconvert ((False, 2046, 0x1CCF385EBC8A0) :: binary64) :: binary128) \<noteq> ?A1"
    by (simp add: widen_1e308)
  from 1 2 3 4 m(1) class_1e308 mul_1e308_10 mul_noised_1e308_10 class_1e308_wide(5)
  show ?thesis by (simp only: simp_thms)
qed

text \<open>
  C3, amended. In every mode and error mode, the inexact functions apply no noise to a
  value whose class at the working precision is zero, infinite or NaN: the two inexact
  functions return such a value bit for bit and consume no draw (the generator state only
  records the seed configuration); the fast variant of the user call leaves it untouched;
  and a binary operation whose operands and working-precision result are all of these
  classes returns in every mode what it returns in mode \<open>ieee\<close>. A result that
  becomes infinite only on narrowing is a normal number at the working precision and is
  not covered.
\<close>

theorem special_class_not_noised:
  fixes X :: binary64 and Y :: binary128 and a b :: binary32 and R :: binary64
    and c d :: binary64 and Q :: binary128
  shows
  "(unnoised_class X \<longrightarrow>
      mca_inexact_binary64 env g X ctx rng =
        (X, init_rng_state_struct rng (choose_seed ctx) (seed ctx) False) \<and>
      FAST_INEXACT noise_binary64 env g X t ctx rng = (None, rng)) \<and>
   (unnoised_class Y \<longrightarrow>
      mca_inexact_binary128 env g Y ctx rng =
        (Y, init_rng_state_struct rng (choose_seed ctx) (seed ctx) False) \<and>
      FAST_INEXACT noise_binary128 env g Y t ctx rng = (None, rng) \<and>
      interflop_usercall_inexact env g ctx (FQUAD Y) t rng = (FQUAD Y, rng)) \<and>
   (unnoised_class a \<and> unnoised_class b \<and>
    PERFORM_BIN_OP op (fconvert a) (fconvert b) = Inr R \<and> unnoised_class R \<longrightarrow>
      map_sum id fst (mca_binary32_binary_op env g a b op ctx rng) =
      map_sum id fst
        (mca_binary32_binary_op env' (g\<lparr>MCALIB_MODE := mcamode_ieee\<rparr>) a b op ctx rng')) \<and>
   (unnoised_class c \<and> unnoised_class d \<and>
    PERFORM_BIN_OP op (fconvert c) (fconvert d) = Inr Q \<and> unnoised_class Q \<longrightarrow>
      map_sum id fst (mca_binary64_binary_op env g c d op ctx rng) =
      map_sum id fst
        (mca_binary64_binary_op env' (g\<lparr>MCALIB_MODE := mcamode_ieee\<rparr>) c d op ctx rng'))"
proof (intro conjI impI)
  assume "unnoised_class X"
  then have x: "FPCLASSIFY X \<noteq> FP_NORMAL" "FPCLASSIFY X \<noteq> FP_SUBNORMAL" by auto
  show "mca_inexact_binary64 env g X ctx rng =
        (X, init_rng_state_struct rng (choose_seed ctx) (seed ctx) False)"
    by (simp add: mca_inexact_binary64_def INEXACT_special [OF x])
  show "FAST_INEXACT noise_binary64 env g X t ctx rng = (None, rng)"
    by (rule FAST_INEXACT_special [OF x])
next
  assume "unnoised_class Y"
  then have y: "FPCLASSIFY Y \<noteq> FP_NORMAL" "FPCLASSIFY Y \<noteq> FP_SUBNORMAL" by auto
  show "mca_inexact_binary128 env g Y ctx rng =
        (Y, init_rng_state_struct rng (choose_seed ctx) (seed ctx) False)"
    by (simp add: mca_inexact_binary128_def INEXACT_special [OF y])
  show "FAST_INEXACT noise_binary128 env g Y t ctx rng = (None, rng)"
    by (rule FAST_INEXACT_special [OF y])
  then show "interflop_usercall_inexact env g ctx (FQUAD Y) t rng = (FQUAD Y, rng)"
    by (simp add: interflop_usercall_inexact_def)
next
  assume "unnoised_class a \<and> unnoised_class b \<and>
    PERFORM_BIN_OP op (fconvert a) (fconvert b) = Inr R \<and> unnoised_class R"
  then show "map_sum id fst (mca_binary32_binary_op env g a b op ctx rng) =
      map_sum id fst
        (mca_binary32_binary_op env' (g\<lparr>MCALIB_MODE := mcamode_ieee\<rparr>) a b op ctx rng')"
    using MCA_BINARY_OP_special [of a b op R noise_binary64 MCALIB_BINARY32_T env g ctx rng env' rng']
    by (simp add: mca_binary32_binary_op_def mca_inexact_binary64_def [abs_def])
next
  assume "unnoised_class c \<and> unnoised_class d \<and>
    PERFORM_BIN_OP op (fconvert c) (fconvert d) = Inr Q \<and> unnoised_class Q"
  then show "map_sum id fst (mca_binary64_binary_op env g c d op ctx rng) =
      map_sum id fst
        (mca_binary64_binary_op env' (g\<lparr>MCALIB_MODE := mcamode_ieee\<rparr>) c d op ctx rng')"
    using MCA_BINARY_OP_special [of c d op Q noise_binary128 MCALIB_BINARY64_T env g ctx rng env' rng']
    by (simp add: mca_binary64_binary_op_def mca_inexact_binary128_def [abs_def])
qed

text \<open>An infinite value and a NaN through the inexact functions and the user call,
  \<open>\<infinity> * 0\<close> in binary32 and \<open>0 * -0\<close> in binary64 through the drivers in
  the default mode \<open>mca\<close>.\<close>

theorem special_class_not_noised_witness:
  "mca_inexact_binary64 (constant_platform half) static_globals (infinity False) init_context
     rng_state0 = (infinity False, init_rng_state_struct rng_state0 False 0 False) \<and>
   mca_inexact_binary128 (constant_platform half) static_globals default_nan init_context
     rng_state0 = (default_nan, init_rng_state_struct rng_state0 False 0 False) \<and>
   interflop_usercall_inexact (constant_platform half) static_globals init_context
     (FQUAD default_nan) 0 rng_state0 = (FQUAD default_nan, rng_state0) \<and>
   map_sum id fst
     (mca_binary32_binary_op (constant_platform half) static_globals (infinity False)
        (signed_zero False) mca_mul init_context rng_state0) = Inr default_nan \<and>
   map_sum id fst
     (mca_binary64_binary_op (constant_platform half) static_globals (signed_zero False)
        (signed_zero True) mca_mul init_context rng_state0) = Inr (signed_zero True)"
proof -
  note t = special_class_not_noised
    [where X = "infinity False" and Y = default_nan and a = "infinity False"
       and b = "signed_zero False" and op = mca_mul and R = default_nan
       and c = "signed_zero False" and d = "signed_zero True" and Q = "signed_zero True"
       and env = "constant_platform half" and g = static_globals and ctx = init_context
       and rng = rng_state0 and env' = "constant_platform half" and rng' = rng_state0 and t = 0]
  have p: "PERFORM_BIN_OP mca_mul (fconvert (infinity False :: binary32))
             (fconvert (signed_zero False :: binary32)) = Inr (default_nan :: binary64)"
    "PERFORM_BIN_OP mca_mul (fconvert (signed_zero False :: binary64))
             (fconvert (signed_zero True :: binary64)) = Inr (signed_zero True :: binary128)"
    by (simp_all add: PERFORM_BIN_OP_def mul_inf_zero64 mul_zero_zero128)
  have i: "mca_binary32_binary_op (constant_platform half)
             (static_globals\<lparr>MCALIB_MODE := mcamode_ieee\<rparr>) (infinity False)
             (signed_zero False) mca_mul init_context rng_state0 = Inr (default_nan, rng_state0)"
    "mca_binary64_binary_op (constant_platform half)
             (static_globals\<lparr>MCALIB_MODE := mcamode_ieee\<rparr>) (signed_zero False)
             (signed_zero True) mca_mul init_context rng_state0 =
       Inr (signed_zero True, rng_state0)"
    using p
    by (simp_all add: mca_binary32_binary_op_def mca_binary64_binary_op_def MCA_BINARY_OP_def
        init_context_def narrow_default_nan64 narrow_zero128)
  show ?thesis
    using t p
    by (simp add: i FPCLASSIFY_default_nan FPCLASSIFY_infinity FPCLASSIFY_signed_zero
        init_context_sel)
qed

subsection \<open>The magnitude of the perturbation in mode rr\<close>




subsection \<open>The noise of the draw one half\<close>

text \<open>
  C5 claims that for every draw \<open>u\<close> of the open interval \<open>(0, 1)\<close> the noise
  generator returns exactly \<open>(u - 0.5) * 2\<^sup>e\<close>, also when \<open>u - 0.5\<close> is zero. The
  generator adds \<open>e\<close> to the exponent field of \<open>u - 0.5\<close> whatever its class. The draw
  \<open>0.5\<close> gives the difference \<open>+0\<close>, whose exponent field is \<open>0\<close>: with \<open>e = 1\<close>
  the adjusted field is \<open>1\<close>, in the normal range, and the noise is the smallest normal
  number of the width (\<open>2\<^sup>-\<^sup>1\<^sup>0\<^sup>2\<^sup>2\<close>, respectively \<open>2\<^sup>-\<^sup>1\<^sup>6\<^sup>3\<^sup>8\<^sup>2\<close>) and not
  \<open>(0.5 - 0.5) * 2\<^sup>1 = 0\<close>. With a negative \<open>e\<close> the field wraps around: for
  \<open>e = -23\<close>, the exponent of the noise on a result in \<open>[1, 2)\<close> at the virtual
  precision 24, it becomes \<open>2025\<close> and the noise is \<open>2\<^sup>1\<^sup>0\<^sup>0\<^sup>2\<close>; in mode \<open>rr\<close> the
  single-precision sum \<open>1 + 2\<^sup>-\<^sup>3\<^sup>0\<close> is then returned as \<open>+\<infinity>\<close>.
\<close>

theorem noise_of_draw_one_half:
  "valof (half :: binary64) = 1 / 2 \<and>
   (valof (half :: binary64) - 1 / 2) * 2 powi 1 = 0 \<and>
   fst (noise_binary64 (constant_platform half) 1 rng_state0) = (False, 1, 0) \<and>
   FPCLASSIFY (fst (noise_binary64 (constant_platform half) 1 rng_state0)) = FP_NORMAL \<and>
   valof (fst (noise_binary64 (constant_platform half) 1 rng_state0)) = 2 powi (- 1022) \<and>
   fst (noise_binary128 (constant_platform half) 1 rng_state0) = (False, 1, 0) \<and>
   FPCLASSIFY (fst (noise_binary128 (constant_platform half) 1 rng_state0)) = FP_NORMAL \<and>
   valof (fst (noise_binary128 (constant_platform half) 1 rng_state0)) = 2 powi (- 16382) \<and>
   fst (noise_binary64 (constant_platform half) (- 23) rng_state0) = (False, 2025, 0) \<and>
   valof (fst (noise_binary64 (constant_platform half) (- 23) rng_state0)) = 2 ^ 1002 \<and>
   valof (fadd (fconvert (one :: binary32)) (fconvert ((False, 97, 0) :: binary32)) :: binary64) =
     1 + 1 / 2 ^ 30 \<and>
   map_sum id fst
     (mca_binary32_binary_op (constant_platform half)
        (static_globals\<lparr>MCALIB_MODE := mcamode_rr\<rparr>) one (False, 97, 0) mca_add
        init_context rng_state0) = Inr (infinity False)"
proof -
  have 1: "fst (noise_binary64 (constant_platform half) 1 rng_state0) = (False, 1, 0)"
    by (simp add: noise64_half0)
  have 2: "fst (noise_binary128 (constant_platform half) 1 rng_state0) = (False, 1, 0)"
    by (simp add: noise128_half0)
  have 3: "fst (noise_binary64 (constant_platform half) (- 23) rng_state0) = (False, 2025, 0)"
    by (simp add: noise64_half0)
  have 4: "FPCLASSIFY ((False, 1, 0) :: binary64) = FP_NORMAL"
    "FPCLASSIFY ((False, 1, 0) :: binary128) = FP_NORMAL"
    by (simp_all add: fp_eval)
  have 5: "valof (fadd (fconvert (one :: binary32)) (fconvert ((False, 97, 0) :: binary32)) :: binary64) =
     1 + 1 / 2 ^ 30"
    by (simp only: widen_one32 widen_2m30 add_one_2m30 valof_one_2m30)
  show ?thesis
    unfolding 1 2 3 4 5
    by (simp only: valof_half64 valof_min_normal64 valof_min_normal128 valof_2p1002
        rr_one_2m30_half) simp
qed

subsection \<open>Reproducibility under a chosen seed\<close>

text \<open>
  C6. Two single-threaded runs with the same options, among them a seed, and the same
  sequence of operations produce the same outputs, bit for bit: the outputs of a run are
  the same on any two platforms that have the same generator and give the thread the
  same id, whatever their entropy source (time, process and thread ids of the operating
  system) returns. The options fix the mode, the virtual precisions and the rest of the
  context of both runs.
\<close>

theorem seeded_run_reproducible:
  assumes "generator env1 = generator env2" and "thread_id env1 = thread_id env2"
    and "interflop_init argv rng_state0 = Inr (g, ctx, st)" and "choose_seed ctx"
  shows "run_program env1 argv ops = run_program env2 argv ops"
  using run_ops_determined [OF assms(1,2) interflop_init_determined [OF assms(3,4)]] assms(3)
  by (simp add: run_program_def)

text \<open>Two platforms with different entropy, the option \<^verbatim>\<open>--seed=1\<close>, and an
  addition, a division and a user call.\<close>

theorem seeded_run_reproducible_witness:
  "run_program (constant_platform u075) [(KEY_SEED, ''1'')]
     [float_op one one mca_add, double_op one one mca_div,
      user_call (INTERFLOP_INEXACT_ID (FDOUBLE one) (- 10))] =
   run_program ((constant_platform u075)\<lparr>entropy := 42\<rparr>) [(KEY_SEED, ''1'')]
     [float_op one one mca_add, double_op one one mca_div,
      user_call (INTERFLOP_INEXACT_ID (FDOUBLE one) (- 10))]"
  by (rule seeded_run_reproducible
        [where g = static_globals and ctx = "init_context\<lparr>choose_seed := True, seed := 1\<rparr>"
           and st = "init_rng_state_struct rng_state0 True 1 False"])
     (simp_all add: constant_platform_def interflop_init_seed_1)

subsection \<open>Malformed option values\<close>

text \<open>
  C7 claims that every out-of-range or unparseable value of an option is a fatal error.
  \<^verbatim>\<open>parse_opt\<close> tests only \<^verbatim>\<open>errno\<close> and the sign of the value: it never looks at
  the end pointer, and it does not compare the sparsity with 1. Digits followed by other
  characters are accepted for their digits, a string with no digit at all is accepted as
  0 for the error exponent and the seed, and the sparsity 2 is accepted; initialisation
  succeeds on such options.
\<close>

theorem parse_opt_accepts_malformed_values:
  "parse_opt KEY_ERR_EXP ''12abc'' (g, ctx) = Inr (ARGP_OK, g, ctx\<lparr>absErr_exp := 12\<rparr>) \<and>
   parse_opt KEY_ERR_EXP ''abc'' (g, ctx) = Inr (ARGP_OK, g, ctx\<lparr>absErr_exp := 0\<rparr>) \<and>
   parse_opt KEY_SEED ''xyz'' (g, ctx) = Inr (ARGP_OK, g, ctx\<lparr>choose_seed := True, seed := 0\<rparr>) \<and>
   parse_opt KEY_PREC_B32 ''24abc'' (g, ctx) = Inr (ARGP_OK, g\<lparr>MCALIB_BINARY32_T := 24\<rparr>, ctx) \<and>
   parse_opt KEY_PREC_B64 ''24abc'' (g, ctx) = Inr (ARGP_OK, g\<lparr>MCALIB_BINARY64_T := 24\<rparr>, ctx) \<and>
   parse_opt KEY_SPARSITY ''2'' (g, ctx) = Inr (ARGP_OK, g, ctx\<lparr>sparsity := (False, 128, 0)\<rparr>) \<and>
   valof ((False, 128, 0) :: binary32) = 2 \<and>
   interflop_init [(KEY_ERR_EXP, ''12abc''), (KEY_SPARSITY, ''2'')] rng_state0 =
     Inr (static_globals, init_context\<lparr>absErr_exp := 12, sparsity := (False, 128, 0)\<rparr>,
          init_rng_state_struct rng_state0 False 0 False)"
proof -
  have 1: "parse_opt KEY_ERR_EXP ''12abc'' (g, ctx) = Inr (ARGP_OK, g, ctx\<lparr>absErr_exp := 12\<rparr>)"
    for g ctx
    by (simp add: parse_opt_def strtol_12abc long_to_int_def)
  have 2: "parse_opt KEY_ERR_EXP ''abc'' (g, ctx) = Inr (ARGP_OK, g, ctx\<lparr>absErr_exp := 0\<rparr>)"
    by (simp add: parse_opt_def strtol_abc long_to_int_def)
  have 3: "parse_opt KEY_SEED ''xyz'' (g, ctx) =
      Inr (ARGP_OK, g, ctx\<lparr>choose_seed := True, seed := 0\<rparr>)"
    by (simp add: parse_opt_def strtoull_xyz)
  have 4: "parse_opt KEY_PREC_B32 ''24abc'' (g, ctx) =
      Inr (ARGP_OK, g\<lparr>MCALIB_BINARY32_T := 24\<rparr>, ctx)"
    by (simp add: parse_opt_def strtol_24abc long_to_int_def set_mca_precision_binary32_def
        set_precision_def MCA_PRECISION_BINARY32_MIN_def MCA_PRECISION_BINARY32_MAX_def)
  have 5: "parse_opt KEY_PREC_B64 ''24abc'' (g, ctx) =
      Inr (ARGP_OK, g\<lparr>MCALIB_BINARY64_T := 24\<rparr>, ctx)"
    by (simp add: parse_opt_def strtol_24abc long_to_int_def set_mca_precision_binary64_def
        set_precision_def MCA_PRECISION_BINARY64_MIN_def MCA_PRECISION_BINARY64_MAX_def)
  have 6: "parse_opt KEY_SPARSITY ''2'' (g, ctx) =
      Inr (ARGP_OK, g, ctx\<lparr>sparsity := (False, 128, 0)\<rparr>)" for g ctx
    by (simp add: parse_opt_def strtof_2 two32_not_le_zero)
  have 7: "valof ((False, 128, 0) :: binary32) = 2"
    by (simp add: fp_eval)
  have 8: "interflop_init [(KEY_ERR_EXP, ''12abc''), (KEY_SPARSITY, ''2'')] rng_state0 =
     Inr (static_globals, init_context\<lparr>absErr_exp := 12, sparsity := (False, 128, 0)\<rparr>,
          init_rng_state_struct rng_state0 False 0 False)"
    by (simp add: interflop_init_def 1 6 set_mca_precision_binary32_def
        set_mca_precision_binary64_def set_precision_def set_mca_mode_def static_globals_def
        MCA_PRECISION_BINARY32_MIN_def MCA_PRECISION_BINARY32_MAX_def
        MCA_PRECISION_BINARY64_MIN_def MCA_PRECISION_BINARY64_MAX_def
        MCA_PRECISION_BINARY32_DEFAULT_def MCA_PRECISION_BINARY64_DEFAULT_def
        MCA_MODE_DEFAULT_def init_context_sel)
  from 1 2 3 4 5 6 7 8 show ?thesis by simp
qed

text \<open>The same on the default globals and context.\<close>

theorem parse_opt_accepts_malformed_values_witness:
  "parse_opt KEY_ERR_EXP ''12abc'' (static_globals, init_context) =
     Inr (ARGP_OK, static_globals, init_context\<lparr>absErr_exp := 12\<rparr>) \<and>
   parse_opt KEY_SEED ''xyz'' (static_globals, init_context) =
     Inr (ARGP_OK, static_globals, init_context\<lparr>choose_seed := True, seed := 0\<rparr>) \<and>
   parse_opt KEY_SPARSITY ''2'' (static_globals, init_context) =
     Inr (ARGP_OK, static_globals, init_context\<lparr>sparsity := (False, 128, 0)\<rparr>)"
  using parse_opt_accepts_malformed_values [of static_globals init_context] by simp

subsection \<open>The precision of the user call\<close>

text \<open>
  C8 claims that for each of the three type tags a precision \<open>p \<le> 0\<close> is an offset to
  the configured virtual precision of that type. There is no virtual precision for
  \<^verbatim>\<open>__float128\<close>: for the tag \<^verbatim>\<open>FQUAD\<close> the precision argument is used as it
  is. With the draw \<open>0.75\<close>, the user call on the quad \<open>1.0\<close> with precision
  \<open>-10\<close> gives \<open>513\<close>, the noise being \<open>0.25 * 2\<^sup>1\<^sup>1\<close>; an offset to the virtual
  precision of binary64 would give \<open>1 + 2\<^sup>-\<^sup>4\<^sup>4\<close>, and an offset to that of binary32
  yet another value.
\<close>

theorem usercall_inexact_quad_counterexample:
  "fst (interflop_usercall_inexact (constant_platform u075) static_globals init_context
          (FQUAD one) (- 10) rng_state0) = FQUAD (False, 16392, 0x80000000000000000000000000) \<and>
   valof ((False, 16392, 0x80000000000000000000000000) :: binary128) = 513 \<and>
   fst (FAST_INEXACT noise_binary128 (constant_platform u075) static_globals one
          (MCALIB_BINARY64_T static_globals + (- 10)) init_context rng_state0) =
     Some (False, 16383, 0x100000000000000000) \<and>
   fst (FAST_INEXACT noise_binary128 (constant_platform u075) static_globals one
          (MCALIB_BINARY32_T static_globals + (- 10)) init_context rng_state0) \<noteq>
     Some (False, 16392, 0x80000000000000000000000000)"
proof -
  have 1: "fst (interflop_usercall_inexact (constant_platform u075) static_globals init_context
          (FQUAD one) (- 10) rng_state0) = FQUAD (False, 16392, 0x80000000000000000000000000)"
    using fast_quad_m10
    by (simp add: interflop_usercall_inexact_def split_beta)
  have 2: "valof ((False, 16392, 0x80000000000000000000000000) :: binary128) = 513"
    by (simp add: fp_eval)
  have 3: "fst (FAST_INEXACT noise_binary128 (constant_platform u075) static_globals one
          (MCALIB_BINARY64_T static_globals + (- 10)) init_context rng_state0) =
     Some (False, 16383, 0x100000000000000000)"
    using fast_quad_43 by (simp add: static_globals_sel)
  have n: "fadd (one :: binary128) (False, 16381 + word_of_int (- 13), 0) \<noteq>
      (False, 16392, 0x80000000000000000000000000)"
    by (simp add: fp_eval)
  have 4: "fst (FAST_INEXACT noise_binary128 (constant_platform u075) static_globals one
          (MCALIB_BINARY32_T static_globals + (- 10)) init_context rng_state0) \<noteq>
     Some (False, 16392, 0x80000000000000000000000000)"
    using noise128_u075 [of "- 13" False 0] n
    by (simp add: FAST_INEXACT_def IS_IEEE_MODE_def IS_NOT_NORMAL_OR_SUBNORMAL_def class_one
        GET_EXP_one static_globals_sel init_context_sel split_beta)
  from 1 2 3 4 show ?thesis by simp
qed

text \<open>
  C8, amended. For the tags \<^verbatim>\<open>FFLOAT\<close> and \<^verbatim>\<open>FDOUBLE\<close> a precision \<open>p \<le> 0\<close>
  stands for the virtual precision of binary32, respectively binary64, plus \<open>p\<close>, and
  a precision \<open>p > 0\<close> for itself; for the tag \<^verbatim>\<open>FQUAD\<close> the precision stands for
  itself whatever its sign. The hook applies the fast relative perturbation at that
  precision \<open>t\<close> to the value widened to the working type and stores the result back:
  unless the mode is \<open>ieee\<close> or the value is not normal or subnormal, the value
  becomes the sum of itself and of the noise at the exponent
  \<open>GET_EXP_FLT X - (t - 1)\<close>.
\<close>

theorem usercall_inexact_effective_precision:
  fixes v32 :: binary32 and v64 X64 :: binary64 and v128 X128 :: binary128
  shows
  "interflop_usercall_inexact env g ctx (FFLOAT v32) p rng =
     (case FAST_INEXACT noise_binary64 env g (fconvert v32)
             (if p \<le> 0 then MCALIB_BINARY32_T g + p else p) ctx rng of
        (None, r) \<Rightarrow> (FFLOAT v32, r)
      | (Some x, r) \<Rightarrow> (FFLOAT (fconvert x), r)) \<and>
   interflop_usercall_inexact env g ctx (FDOUBLE v64) p rng =
     (case FAST_INEXACT noise_binary128 env g (fconvert v64)
             (if p \<le> 0 then MCALIB_BINARY64_T g + p else p) ctx rng of
        (None, r) \<Rightarrow> (FDOUBLE v64, r)
      | (Some x, r) \<Rightarrow> (FDOUBLE (fconvert x), r)) \<and>
   interflop_usercall_inexact env g ctx (FQUAD v128) p rng =
     (case FAST_INEXACT noise_binary128 env g v128 p ctx rng of
        (None, r) \<Rightarrow> (FQUAD v128, r)
      | (Some x, r) \<Rightarrow> (FQUAD x, r)) \<and>
   (\<not> IS_IEEE_MODE g \<and> \<not> IS_NOT_NORMAL_OR_SUBNORMAL X64 \<longrightarrow>
      FAST_INEXACT noise_binary64 env g X64 t ctx rng =
        (let (n, r) = noise_binary64 env (GET_EXP_FLT X64 - (t - 1))
                        (init_rng_state_struct rng (choose_seed ctx) (seed ctx) False)
         in (Some (fadd X64 n), r))) \<and>
   (\<not> IS_IEEE_MODE g \<and> \<not> IS_NOT_NORMAL_OR_SUBNORMAL X128 \<longrightarrow>
      FAST_INEXACT noise_binary128 env g X128 t ctx rng =
        (let (n, r) = noise_binary128 env (GET_EXP_FLT X128 - (t - 1))
                        (init_rng_state_struct rng (choose_seed ctx) (seed ctx) False)
         in (Some (fadd X128 n), r)))"
  by (simp add: interflop_usercall_inexact_def FAST_INEXACT_applies)

text \<open>The user call on the double \<open>1.0\<close> with precision \<open>-10\<close> at the default
  virtual precision 53 and the draw \<open>0.75\<close>: the effective precision is 43, the noise
  \<open>0.25 * 2\<^sup>-\<^sup>4\<^sup>2\<close>.\<close>

theorem usercall_inexact_effective_precision_witness:
  "fst (interflop_usercall_inexact (constant_platform u075) static_globals init_context
          (FDOUBLE one) (- 10) rng_state0) = FDOUBLE (False, 1023, 256) \<and>
   valof ((False, 1023, 256) :: binary64) = 1 + 1 / 2 ^ 44 \<and>
   fst (FAST_INEXACT noise_binary128 (constant_platform u075) static_globals one 43
          init_context rng_state0) = Some (False, 16383, 0x100000000000000000)"
proof -
  note t = usercall_inexact_effective_precision
    [where env = "constant_platform u075" and g = static_globals and ctx = init_context
       and ?v64.0 = one and p = "- 10" and rng = rng_state0 and ?X128.0 = one and t = 43
       and ?X64.0 = one]
  have c: "(fconvert (one :: binary64) :: binary128) = one"
    by (simp add: widen_one64) (simp add: one_def EXP_COMP_def)
  have m: "\<not> IS_IEEE_MODE static_globals" "\<not> IS_NOT_NORMAL_OR_SUBNORMAL (one :: binary128)"
    by (simp_all add: IS_IEEE_MODE_def static_globals_sel IS_NOT_NORMAL_OR_SUBNORMAL_def class_one)
  have f: "fst (FAST_INEXACT noise_binary128 (constant_platform u075) static_globals one 43
          init_context rng_state0) = Some (False, 16383, 0x100000000000000000)"
    using t [THEN conjunct2, THEN conjunct2, THEN conjunct2, THEN conjunct2] m
      noise128_u075 [of "- 42" False 0]
    by (simp add: GET_EXP_one init_context_sel split_beta add_one_2m44_128)
  have "fst (interflop_usercall_inexact (constant_platform u075) static_globals init_context
          (FDOUBLE one) (- 10) rng_state0) = FDOUBLE (False, 1023, 256)"
    using f
    by (subst t [THEN conjunct2, THEN conjunct1])
       (simp add: c static_globals_sel narrow_one_2m44 split_beta)
  moreover have "valof ((False, 1023, 256) :: binary64) = 1 + 1 / 2 ^ 44"
    by (simp add: fp_eval)
  ultimately show ?thesis using f by simp
qed

subsection \<open>Denormals-are-zero and flush-to-zero\<close>

text \<open>
  C9. In every mode, the driver is the following computation. With \<open>daz\<close>, each
  operand that is subnormal at its own width (binary32 or binary64) is replaced by the
  zero of its sign; this is done before the widening, hence before any noise, and the
  inexact function returns that zero as it is, without a draw. The operands are widened,
  perturbed in modes \<open>pb\<close> and \<open>mca\<close>, the operation is carried out at the working
  precision, its result is perturbed in modes \<open>rr\<close> and \<open>mca\<close> and narrowed to the
  width of the operands. With \<open>ftz\<close>, a narrowed result that is subnormal at that width
  is returned as the zero of its sign, so that no subnormal is ever returned. With
  \<open>daz\<close> off the operands take part as they are (a subnormal operand is widened to a
  normal number of the same value), and with \<open>ftz\<close> off the narrowed result is returned
  as it is. In mode \<open>ieee\<close> on finite operands this is the native operation at the
  width of the operands on the operands so replaced, with the result so flushed.
\<close>

theorem daz_ftz_flush_subnormals:
  fixes a b r :: binary32 and c d q :: binary64
  shows
  "mca_binary32_binary_op env g a b op ctx rng =
     (let a0 = (if daz ctx \<and> FPCLASSIFY a = FP_SUBNORMAL then signed_zero (sign a) else a);
          b0 = (if daz ctx \<and> FPCLASSIFY b = FP_SUBNORMAL then signed_zero (sign b) else b);
          pre = (MCALIB_MODE g = mcamode_pb \<or> MCALIB_MODE g = mcamode_mca);
          post = (MCALIB_MODE g = mcamode_rr \<or> MCALIB_MODE g = mcamode_mca);
          A1 = (if pre then mca_inexact_binary64 env g (fconvert a0) ctx rng
                else (fconvert a0, rng));
          B1 = (if pre then mca_inexact_binary64 env g (fconvert b0) ctx (snd A1)
                else (fconvert b0, snd A1))
      in map_sum id
           (\<lambda>R. let R1 = (if post then mca_inexact_binary64 env g R ctx (snd B1)
                           else (R, snd B1));
                    r = (fconvert (fst R1) :: binary32)
                in (if ftz ctx \<and> FPCLASSIFY r = FP_SUBNORMAL then signed_zero (sign r) else r,
                    snd R1))
           (PERFORM_BIN_OP op (fst A1) (fst B1))) \<and>
   mca_binary64_binary_op env g c d op ctx rng =
     (let c0 = (if daz ctx \<and> FPCLASSIFY c = FP_SUBNORMAL then signed_zero (sign c) else c);
          d0 = (if daz ctx \<and> FPCLASSIFY d = FP_SUBNORMAL then signed_zero (sign d) else d);
          pre = (MCALIB_MODE g = mcamode_pb \<or> MCALIB_MODE g = mcamode_mca);
          post = (MCALIB_MODE g = mcamode_rr \<or> MCALIB_MODE g = mcamode_mca);
          C1 = (if pre then mca_inexact_binary128 env g (fconvert c0) ctx rng
                else (fconvert c0, rng));
          D1 = (if pre then mca_inexact_binary128 env g (fconvert d0) ctx (snd C1)
                else (fconvert d0, snd C1))
      in map_sum id
           (\<lambda>R. let R1 = (if post then mca_inexact_binary128 env g R ctx (snd D1)
                           else (R, snd D1));
                    r = (fconvert (fst R1) :: binary64)
                in (if ftz ctx \<and> FPCLASSIFY r = FP_SUBNORMAL then signed_zero (sign r) else r,
                    snd R1))
           (PERFORM_BIN_OP op (fst C1) (fst D1))) \<and>
   (MCALIB_MODE g = mcamode_ieee \<and> \<not> is_nan a \<and> \<not> is_inf a \<and> \<not> is_nan b \<and> \<not> is_inf b \<longrightarrow>
      mca_binary32_binary_op env g a b op ctx rng =
        map_sum id
          (\<lambda>r. (if ftz ctx \<and> FPCLASSIFY r = FP_SUBNORMAL then signed_zero (sign r) else r, rng))
          (PERFORM_BIN_OP op
             (if daz ctx \<and> FPCLASSIFY a = FP_SUBNORMAL then signed_zero (sign a) else a)
             (if daz ctx \<and> FPCLASSIFY b = FP_SUBNORMAL then signed_zero (sign b) else b))) \<and>
   (MCALIB_MODE g = mcamode_ieee \<and> \<not> is_nan c \<and> \<not> is_inf c \<and> \<not> is_nan d \<and> \<not> is_inf d \<longrightarrow>
      mca_binary64_binary_op env g c d op ctx rng =
        map_sum id
          (\<lambda>r. (if ftz ctx \<and> FPCLASSIFY r = FP_SUBNORMAL then signed_zero (sign r) else r, rng))
          (PERFORM_BIN_OP op
             (if daz ctx \<and> FPCLASSIFY c = FP_SUBNORMAL then signed_zero (sign c) else c)
             (if daz ctx \<and> FPCLASSIFY d = FP_SUBNORMAL then signed_zero (sign d) else d))) \<and>
   mca_inexact_binary64 env g (fconvert (signed_zero s :: binary32)) ctx rng =
     (signed_zero s, init_rng_state_struct rng (choose_seed ctx) (seed ctx) False) \<and>
   mca_inexact_binary128 env g (fconvert (signed_zero s :: binary64)) ctx rng =
     (signed_zero s, init_rng_state_struct rng (choose_seed ctx) (seed ctx) False) \<and>
   (ftz ctx \<and> mca_binary32_binary_op env g a b op ctx rng = Inr (r, st) \<longrightarrow>
      FPCLASSIFY r \<noteq> FP_SUBNORMAL) \<and>
   (ftz ctx \<and> mca_binary64_binary_op env g c d op ctx rng = Inr (q, st') \<longrightarrow>
      FPCLASSIFY q \<noteq> FP_SUBNORMAL) \<and>
   (FPCLASSIFY a = FP_SUBNORMAL \<longrightarrow>
      valof (fconvert a :: binary64) = valof a \<and> FPCLASSIFY (fconvert a :: binary64) = FP_NORMAL) \<and>
   (FPCLASSIFY c = FP_SUBNORMAL \<longrightarrow>
      valof (fconvert c :: binary128) = valof c \<and> FPCLASSIFY (fconvert c :: binary128) = FP_NORMAL)"
proof -
  note p32 = MCA_BINARY_OP_flags [of mca_inexact_binary64 env g a b op ctx rng,
      OF FTZ_round_trip32, folded mca_binary32_binary_op_def]
  note p64 = MCA_BINARY_OP_flags [of mca_inexact_binary128 env g c d op ctx rng,
      OF FTZ_round_trip64, folded mca_binary64_binary_op_def]
  have i32: "mca_binary32_binary_op env g a b op ctx rng =
        map_sum id
          (\<lambda>r. (if ftz ctx \<and> FPCLASSIFY r = FP_SUBNORMAL then signed_zero (sign r) else r, rng))
          (PERFORM_BIN_OP op
             (if daz ctx \<and> FPCLASSIFY a = FP_SUBNORMAL then signed_zero (sign a) else a)
             (if daz ctx \<and> FPCLASSIFY b = FP_SUBNORMAL then signed_zero (sign b) else b))"
    if h: "MCALIB_MODE g = mcamode_ieee \<and> \<not> is_nan a \<and> \<not> is_inf a \<and> \<not> is_nan b \<and> \<not> is_inf b"
  proof -
    define a0 where "a0 = (if daz ctx \<and> FPCLASSIFY a = FP_SUBNORMAL then signed_zero (sign a) else a)"
    define b0 where "b0 = (if daz ctx \<and> FPCLASSIFY b = FP_SUBNORMAL then signed_zero (sign b) else b)"
    have f: "\<not> is_nan a0" "\<not> is_inf a0" "\<not> is_nan b0" "\<not> is_inf b0"
      using h flushed_finite [of a "daz ctx"] flushed_finite [of b "daz ctx"]
      by (simp_all add: a0_def b0_def)
    have "mca_binary32_binary_op env g a b op ctx rng =
        map_sum id
          (\<lambda>R. (if ftz ctx \<and> FPCLASSIFY (fconvert R :: binary32) = FP_SUBNORMAL
                 then signed_zero (sign (fconvert R :: binary32)) else fconvert R, rng))
          (PERFORM_BIN_OP op (fconvert a0 :: binary64) (fconvert b0))"
      using h by (simp add: p32 Let_def a0_def b0_def cong del: if_weak_cong)
    also have "\<dots> = map_sum id
          (\<lambda>r. (if ftz ctx \<and> FPCLASSIFY r = FP_SUBNORMAL then signed_zero (sign r) else r, rng))
          (map_sum id (\<lambda>R. (fconvert R :: binary32))
             (PERFORM_BIN_OP op (fconvert a0 :: binary64) (fconvert b0)))"
      by (rule PERFORM_BIN_OP_map
          [where f = "\<lambda>r. if ftz ctx \<and> FPCLASSIFY r = FP_SUBNORMAL then signed_zero (sign r) else r"])
    finally have e: "mca_binary32_binary_op env g a b op ctx rng =
        map_sum id
          (\<lambda>r. (if ftz ctx \<and> FPCLASSIFY r = FP_SUBNORMAL then signed_zero (sign r) else r, rng))
          (map_sum id (\<lambda>R. (fconvert R :: binary32))
             (PERFORM_BIN_OP op (fconvert a0 :: binary64) (fconvert b0)))" .
    show ?thesis
      using e unfolding PERFORM_BIN_OP_narrow32 [OF f] unfolding a0_def b0_def .
  qed
  have i64: "mca_binary64_binary_op env g c d op ctx rng =
        map_sum id
          (\<lambda>r. (if ftz ctx \<and> FPCLASSIFY r = FP_SUBNORMAL then signed_zero (sign r) else r, rng))
          (PERFORM_BIN_OP op
             (if daz ctx \<and> FPCLASSIFY c = FP_SUBNORMAL then signed_zero (sign c) else c)
             (if daz ctx \<and> FPCLASSIFY d = FP_SUBNORMAL then signed_zero (sign d) else d))"
    if h: "MCALIB_MODE g = mcamode_ieee \<and> \<not> is_nan c \<and> \<not> is_inf c \<and> \<not> is_nan d \<and> \<not> is_inf d"
  proof -
    define c0 where "c0 = (if daz ctx \<and> FPCLASSIFY c = FP_SUBNORMAL then signed_zero (sign c) else c)"
    define d0 where "d0 = (if daz ctx \<and> FPCLASSIFY d = FP_SUBNORMAL then signed_zero (sign d) else d)"
    have f: "\<not> is_nan c0" "\<not> is_inf c0" "\<not> is_nan d0" "\<not> is_inf d0"
      using h flushed_finite [of c "daz ctx"] flushed_finite [of d "daz ctx"]
      by (simp_all add: c0_def d0_def)
    have "mca_binary64_binary_op env g c d op ctx rng =
        map_sum id
          (\<lambda>R. (if ftz ctx \<and> FPCLASSIFY (fconvert R :: binary64) = FP_SUBNORMAL
                 then signed_zero (sign (fconvert R :: binary64)) else fconvert R, rng))
          (PERFORM_BIN_OP op (fconvert c0 :: binary128) (fconvert d0))"
      using h by (simp add: p64 Let_def c0_def d0_def cong del: if_weak_cong)
    also have "\<dots> = map_sum id
          (\<lambda>r. (if ftz ctx \<and> FPCLASSIFY r = FP_SUBNORMAL then signed_zero (sign r) else r, rng))
          (map_sum id (\<lambda>R. (fconvert R :: binary64))
             (PERFORM_BIN_OP op (fconvert c0 :: binary128) (fconvert d0)))"
      by (rule PERFORM_BIN_OP_map
          [where f = "\<lambda>r. if ftz ctx \<and> FPCLASSIFY r = FP_SUBNORMAL then signed_zero (sign r) else r"])
    finally have e: "mca_binary64_binary_op env g c d op ctx rng =
        map_sum id
          (\<lambda>r. (if ftz ctx \<and> FPCLASSIFY r = FP_SUBNORMAL then signed_zero (sign r) else r, rng))
          (map_sum id (\<lambda>R. (fconvert R :: binary64))
             (PERFORM_BIN_OP op (fconvert c0 :: binary128) (fconvert d0)))" .
    show ?thesis
      using e unfolding PERFORM_BIN_OP_narrow64 [OF f] unfolding c0_def d0_def .
  qed
  have z32: "mca_inexact_binary64 env g (fconvert (signed_zero s :: binary32)) ctx rng =
     (signed_zero s, init_rng_state_struct rng (choose_seed ctx) (seed ctx) False)"
    by (simp add: mca_inexact_binary64_def fconvert_signed_zero INEXACT_special
        FPCLASSIFY_signed_zero)
  have z64: "mca_inexact_binary128 env g (fconvert (signed_zero s :: binary64)) ctx rng =
     (signed_zero s, init_rng_state_struct rng (choose_seed ctx) (seed ctx) False)"
    by (simp add: mca_inexact_binary128_def fconvert_signed_zero INEXACT_special
        FPCLASSIFY_signed_zero)
  have f32: "FPCLASSIFY r \<noteq> FP_SUBNORMAL"
    if h: "ftz ctx \<and> mca_binary32_binary_op env g a b op ctx rng = Inr (r, st)"
    using h unfolding p32
    by (auto simp add: Let_def map_sum_def FPCLASSIFY_signed_zero split: sum.splits if_splits)
  have f64: "FPCLASSIFY q \<noteq> FP_SUBNORMAL"
    if h: "ftz ctx \<and> mca_binary64_binary_op env g c d op ctx rng = Inr (q, st')"
    using h unfolding p64
    by (auto simp add: Let_def map_sum_def FPCLASSIFY_signed_zero split: sum.splits if_splits)
  have w32: "valof (fconvert a :: binary64) = valof a \<and> FPCLASSIFY (fconvert a :: binary64) = FP_NORMAL"
    if h: "FPCLASSIFY a = FP_SUBNORMAL"
    using widen_subnormal [OF h, where ?'f = 11 and ?'n = 52] by (simp add: EXP_COMP_def)
  have w64: "valof (fconvert c :: binary128) = valof c \<and> FPCLASSIFY (fconvert c :: binary128) = FP_NORMAL"
    if h: "FPCLASSIFY c = FP_SUBNORMAL"
    using widen_subnormal [OF h, where ?'f = 15 and ?'n = 112] by (simp add: EXP_COMP_def)
  show ?thesis
  proof (intro conjI impI)
    assume "FPCLASSIFY a = FP_SUBNORMAL"
    then show "valof (fconvert a :: binary64) = valof a"
      and "FPCLASSIFY (fconvert a :: binary64) = FP_NORMAL"
      using w32 by simp_all
  next
    assume "FPCLASSIFY c = FP_SUBNORMAL"
    then show "valof (fconvert c :: binary128) = valof c"
      and "FPCLASSIFY (fconvert c :: binary128) = FP_NORMAL"
      using w64 by simp_all
  qed (rule p32 p64 z32 z64 | erule i32 i64 f32 f64)+
qed

text \<open>The smallest positive subnormal times one, in binary32 and in binary64, in the
  default mode \<open>mca\<close> with the draw \<open>0.75\<close>: both operands and the product are
  perturbed and the subnormal is returned; with \<open>daz\<close> the operand is zero, only the
  other operand is perturbed, and zero is returned; with \<open>ftz\<close> the subnormal result is
  returned as zero. The same subnormal plus zero in mode \<open>ieee\<close> is zero with either
  flag.\<close>

theorem daz_ftz_flush_subnormals_witness:
  "map_sum id fst (mca_binary32_binary_op (constant_platform u075) static_globals
      (False, 0, 1) one mca_mul init_context rng_state0) = Inr (False, 0, 1) \<and>
   map_sum id fst (mca_binary32_binary_op (constant_platform u075) static_globals
      (False, 0, 1) one mca_mul (init_context\<lparr>daz := True\<rparr>) rng_state0) = Inr (signed_zero False) \<and>
   map_sum id fst (mca_binary32_binary_op (constant_platform u075) static_globals
      (False, 0, 1) one mca_mul (init_context\<lparr>ftz := True\<rparr>) rng_state0) = Inr (signed_zero False) \<and>
   map_sum id fst (mca_binary64_binary_op (constant_platform u075) static_globals
      (False, 0, 1) one mca_mul init_context rng_state0) = Inr (False, 0, 1) \<and>
   map_sum id fst (mca_binary64_binary_op (constant_platform u075) static_globals
      (False, 0, 1) one mca_mul (init_context\<lparr>daz := True\<rparr>) rng_state0) = Inr (signed_zero False) \<and>
   map_sum id fst (mca_binary64_binary_op (constant_platform u075) static_globals
      (False, 0, 1) one mca_mul (init_context\<lparr>ftz := True\<rparr>) rng_state0) = Inr (signed_zero False) \<and>
   mca_binary32_binary_op (constant_platform u075) (static_globals\<lparr>MCALIB_MODE := mcamode_ieee\<rparr>)
      (False, 0, 1) (signed_zero False) mca_add (init_context\<lparr>daz := True\<rparr>) rng_state0 =
      Inr (signed_zero False, rng_state0) \<and>
   mca_binary32_binary_op (constant_platform u075) (static_globals\<lparr>MCALIB_MODE := mcamode_ieee\<rparr>)
      (False, 0, 1) (signed_zero False) mca_add (init_context\<lparr>ftz := True\<rparr>) rng_state0 =
      Inr (signed_zero False, rng_state0) \<and>
   mca_binary64_binary_op (constant_platform u075) (static_globals\<lparr>MCALIB_MODE := mcamode_ieee\<rparr>)
      (False, 0, 1) (signed_zero False) mca_add (init_context\<lparr>daz := True\<rparr>) rng_state0 =
      Inr (signed_zero False, rng_state0) \<and>
   mca_binary64_binary_op (constant_platform u075) (static_globals\<lparr>MCALIB_MODE := mcamode_ieee\<rparr>)
      (False, 0, 1) (signed_zero False) mca_add (init_context\<lparr>ftz := True\<rparr>) rng_state0 =
      Inr (signed_zero False, rng_state0) \<and>
   FPCLASSIFY (signed_zero False :: binary32) \<noteq> FP_SUBNORMAL \<and>
   FPCLASSIFY (signed_zero False :: binary64) \<noteq> FP_SUBNORMAL \<and>
   FPCLASSIFY ((False, 0, 1) :: binary32) = FP_SUBNORMAL \<and>
   valof (fconvert ((False, 0, 1) :: binary32) :: binary64) = valof ((False, 0, 1) :: binary32) \<and>
   FPCLASSIFY (fconvert ((False, 0, 1) :: binary32) :: binary64) = FP_NORMAL \<and>
   FPCLASSIFY ((False, 0, 1) :: binary64) = FP_SUBNORMAL \<and>
   valof (fconvert ((False, 0, 1) :: binary64) :: binary128) = valof ((False, 0, 1) :: binary64) \<and>
   FPCLASSIFY (fconvert ((False, 0, 1) :: binary64) :: binary128) = FP_NORMAL"
proof -
  let ?E = "constant_platform u075" and ?G = static_globals
    and ?I = "static_globals\<lparr>MCALIB_MODE := mcamode_ieee\<rparr>"
  let ?a = "(False, 0, 1) :: binary32" and ?c = "(False, 0, 1) :: binary64"
  have m: "MCALIB_MODE ?G = mcamode_mca" "MCALIB_MODE ?I = mcamode_ieee"
    by (simp_all add: static_globals_sel MCA_MODE_DEFAULT_def)
  have fin: "\<not> is_nan ?a" "\<not> is_inf ?a" "\<not> is_nan ?c" "\<not> is_inf ?c"
    "\<not> is_nan (signed_zero False :: binary32)" "\<not> is_inf (signed_zero False :: binary32)"
    "\<not> is_nan (signed_zero False :: binary64)" "\<not> is_inf (signed_zero False :: binary64)"
    by (simp_all add: is_nan_def is_inf_def class_min_subnormal32 class_min_subnormal64
        FPCLASSIFY_signed_zero)
  note ev = Let_def m init_context_sel class_min_subnormal32 class_min_subnormal64 class_one
    sign_def fconvert_signed_zero FPCLASSIFY_signed_zero widen_min_subnormal32
    widen_min_subnormal64 widen_one32 widen_one64 PERFORM_BIN_OP_def mca_inexact_zero
    inexact64_min_subnormal inexact128_min_subnormal mul_noised_min_subnormal64
    mul_noised_min_subnormal128 narrow_product_min_subnormal64 narrow_product_min_subnormal128
    mul_zero_noised_one64 mul_zero_noised_one128 add_zero_zero add_min_subnormal_zero32
    add_min_subnormal_zero64n fin
  note M0 = daz_ftz_flush_subnormals
    [where env = ?E and g = ?G and a = ?a and b = one and c = ?c and d = one and op = mca_mul
       and ctx = init_context and rng = rng_state0]
  note M1 = daz_ftz_flush_subnormals
    [where env = ?E and g = ?G and a = ?a and b = one and c = ?c and d = one and op = mca_mul
       and ctx = "init_context\<lparr>daz := True\<rparr>" and rng = rng_state0]
  note M2 = daz_ftz_flush_subnormals
    [where env = ?E and g = ?G and a = ?a and b = one and c = ?c and d = one and op = mca_mul
       and ctx = "init_context\<lparr>ftz := True\<rparr>" and rng = rng_state0]
  note I1 = daz_ftz_flush_subnormals
    [where env = ?E and g = ?I and a = ?a and b = "signed_zero False" and c = ?c
       and d = "signed_zero False" and op = mca_add
       and ctx = "init_context\<lparr>daz := True\<rparr>" and rng = rng_state0]
  note I2 = daz_ftz_flush_subnormals
    [where env = ?E and g = ?I and a = ?a and b = "signed_zero False" and c = ?c
       and d = "signed_zero False" and op = mca_add
       and ctx = "init_context\<lparr>ftz := True\<rparr>" and rng = rng_state0
       and r = "signed_zero False" and st = rng_state0
       and q = "signed_zero False" and st' = rng_state0]
  have 1: "map_sum id fst (mca_binary32_binary_op ?E ?G ?a one mca_mul init_context rng_state0) =
      Inr (False, 0, 1)"
    by (subst M0 [THEN conjunct1]) (simp add: ev)
  have 2: "map_sum id fst (mca_binary32_binary_op ?E ?G ?a one mca_mul
      (init_context\<lparr>daz := True\<rparr>) rng_state0) = Inr (signed_zero False)"
    by (subst M1 [THEN conjunct1]) (simp add: ev)
  have 3: "map_sum id fst (mca_binary32_binary_op ?E ?G ?a one mca_mul
      (init_context\<lparr>ftz := True\<rparr>) rng_state0) = Inr (signed_zero False)"
    by (subst M2 [THEN conjunct1]) (simp add: ev)
  have 4: "map_sum id fst (mca_binary64_binary_op ?E ?G ?c one mca_mul init_context rng_state0) =
      Inr (False, 0, 1)"
    by (subst M0 [THEN conjunct2, THEN conjunct1]) (simp add: ev)
  have 5: "map_sum id fst (mca_binary64_binary_op ?E ?G ?c one mca_mul
      (init_context\<lparr>daz := True\<rparr>) rng_state0) = Inr (signed_zero False)"
    by (subst M1 [THEN conjunct2, THEN conjunct1]) (simp add: ev)
  have 6: "map_sum id fst (mca_binary64_binary_op ?E ?G ?c one mca_mul
      (init_context\<lparr>ftz := True\<rparr>) rng_state0) = Inr (signed_zero False)"
    by (subst M2 [THEN conjunct2, THEN conjunct1]) (simp add: ev)
  have 7: "mca_binary32_binary_op ?E ?I ?a (signed_zero False) mca_add
      (init_context\<lparr>daz := True\<rparr>) rng_state0 = Inr (signed_zero False, rng_state0)"
    using I1 [THEN conjunct2, THEN conjunct2, THEN conjunct1] by (simp add: ev)
  have 8: "mca_binary32_binary_op ?E ?I ?a (signed_zero False) mca_add
      (init_context\<lparr>ftz := True\<rparr>) rng_state0 = Inr (signed_zero False, rng_state0)"
    using I2 [THEN conjunct2, THEN conjunct2, THEN conjunct1] by (simp add: ev)
  have 9: "mca_binary64_binary_op ?E ?I ?c (signed_zero False) mca_add
      (init_context\<lparr>daz := True\<rparr>) rng_state0 = Inr (signed_zero False, rng_state0)"
    using I1 [THEN conjunct2, THEN conjunct2, THEN conjunct2, THEN conjunct1] by (simp add: ev)
  have 10: "mca_binary64_binary_op ?E ?I ?c (signed_zero False) mca_add
      (init_context\<lparr>ftz := True\<rparr>) rng_state0 = Inr (signed_zero False, rng_state0)"
    using I2 [THEN conjunct2, THEN conjunct2, THEN conjunct2, THEN conjunct1] by (simp add: ev)
  note rest = I2 [THEN conjunct2, THEN conjunct2, THEN conjunct2, THEN conjunct2, THEN conjunct2,
      THEN conjunct2]
  have 11: "FPCLASSIFY (signed_zero False :: binary32) \<noteq> FP_SUBNORMAL"
    using rest [THEN conjunct1] 8 by simp
  have 12: "FPCLASSIFY (signed_zero False :: binary64) \<noteq> FP_SUBNORMAL"
    using rest [THEN conjunct2, THEN conjunct1] 10 by simp
  have 13: "valof (fconvert ?a :: binary64) = valof ?a \<and> FPCLASSIFY (fconvert ?a :: binary64) = FP_NORMAL"
    using rest [THEN conjunct2, THEN conjunct2, THEN conjunct1] class_min_subnormal32
    by (simp only: simp_thms)
  have 14: "valof (fconvert ?c :: binary128) = valof ?c \<and> FPCLASSIFY (fconvert ?c :: binary128) = FP_NORMAL"
    using rest [THEN conjunct2, THEN conjunct2, THEN conjunct2] class_min_subnormal64
    by (simp only: simp_thms)
  from 1 2 3 4 5 6 7 8 9 10 11 12 13 14 class_min_subnormal32 class_min_subnormal64
  show ?thesis by (simp only: simp_thms)
qed
end
